(* ===== verification/Prelude.thy ===== *)
theory Prelude
  imports Main "HOL-Library.AList" "HOL-Library.Sublist" "HOL-Library.Char_ord"
    "HOL-Library.List_Lexorder"
begin

text \<open>
  The shared ground of the development: the byte strings of Go and the functions of package
  strings the sources call, the clock, Go errors as the list of sentinels an error wraps, and
  the generic lemmas on lists, options and association lists that the component theories use.

  A Go string is a \<^typ>\<open>string\<close> (a list of bytes). The functions of package strings that look
  at letters or white space (\<open>ToLower\<close>, \<open>TrimSpace\<close>) are modelled on ASCII: every name that
  reaches a storage key has been through \<open>normalizeDomain\<close>, whose result is an ASCII A-label
  whenever the name is valid IDNA.

  Times and durations are \<^typ>\<open>int\<close> nanoseconds; \<open>time.Time.Unix\<close> is division by the second,
  rounded down, as Go's representation (seconds plus a non-negative nanosecond part) does.
\<close>

named_theorems go_str \<open>lemmas that compute or simplify the string functions\<close>
named_theorems go_err \<open>lemmas about which sentinel an error wraps\<close>

section \<open>Package strings\<close>

definition lower_byte :: "char \<Rightarrow> char" where
  "lower_byte c =
     (if 65 \<le> (of_char c :: nat) \<and> (of_char c :: nat) \<le> 90
      then char_of ((of_char c :: nat) + 32) else c)"

definition ToLower :: "string \<Rightarrow> string" where
  "ToLower s = map lower_byte s"

fun HasPrefix :: "string \<Rightarrow> string \<Rightarrow> bool" where
  "HasPrefix s [] = True"
| "HasPrefix [] (c # p) = False"
| "HasPrefix (d # s) (c # p) = (d = c \<and> HasPrefix s p)"

definition HasSuffix :: "string \<Rightarrow> string \<Rightarrow> bool" where
  "HasSuffix s p = HasPrefix (rev s) (rev p)"

definition TrimPrefix :: "string \<Rightarrow> string \<Rightarrow> string" where
  "TrimPrefix s p = (if HasPrefix s p then drop (length p) s else s)"

definition TrimSuffix :: "string \<Rightarrow> string \<Rightarrow> string" where
  "TrimSuffix s p = (if HasSuffix s p then take (length s - length p) s else s)"

definition is_space :: "char \<Rightarrow> bool" where
  "is_space c = (c = CHR '' '' \<or> (9 \<le> (of_char c :: nat) \<and> (of_char c :: nat) \<le> 13))"

definition TrimSpace :: "string \<Rightarrow> string" where
  "TrimSpace s = rev (dropWhile is_space (rev (dropWhile is_space s)))"

text \<open>\<open>strings.Split\<close> with a one-byte separator: always at least one piece.\<close>

fun Split :: "string \<Rightarrow> char \<Rightarrow> string list" where
  "Split [] c = [[]]"
| "Split (x # xs) c =
     (if x = c then [] # Split xs c
      else (case Split xs c of [] \<Rightarrow> [[x]] | y # ys \<Rightarrow> (x # y) # ys))"

fun Join :: "string list \<Rightarrow> string \<Rightarrow> string" where
  "Join [] sep = []"
| "Join [x] sep = x"
| "Join (x # y # xs) sep = x @ sep @ Join (y # xs) sep"

definition ContainsByte :: "string \<Rightarrow> char \<Rightarrow> bool" where
  "ContainsByte s c = (c \<in> set s)"

text \<open>\<open>%d\<close> of a non-negative integer.\<close>

fun Itoa :: "nat \<Rightarrow> string" where
  "Itoa n = (if n < 10 then [char_of (48 + n)] else Itoa (n div 10) @ [char_of (48 + n mod 10)])"

declare Itoa.simps [simp del]

lemma lower_byte_idem [simp]: "lower_byte (lower_byte c) = lower_byte c"
  by (auto simp: lower_byte_def)

lemma ToLower_idem [simp, go_str]: "ToLower (ToLower s) = ToLower s"
  by (simp add: ToLower_def)

lemma ToLower_append [go_str]: "ToLower (a @ b) = ToLower a @ ToLower b"
  by (simp add: ToLower_def)

lemma ToLower_Nil [simp, go_str]: "ToLower [] = []"
  by (simp add: ToLower_def)

lemma length_ToLower [simp]: "length (ToLower s) = length s"
  by (simp add: ToLower_def)

lemma ToLower_eq_Nil [simp]: "ToLower s = [] \<longleftrightarrow> s = []"
  by (simp add: ToLower_def)

lemma HasPrefix_iff [go_str]: "HasPrefix s p \<longleftrightarrow> prefix p s"
  by (induction s p rule: HasPrefix.induct) auto

lemma HasSuffix_iff [go_str]: "HasSuffix s p \<longleftrightarrow> suffix p s"
  by (simp add: HasSuffix_def HasPrefix_iff suffix_to_prefix)

lemma TrimPrefix_append [simp]: "TrimPrefix (p @ s) p = s"
  by (simp add: TrimPrefix_def HasPrefix_iff)

lemma TrimSuffix_append [simp]: "TrimSuffix (s @ p) p = s"
  by (simp add: TrimSuffix_def HasSuffix_iff suffix_def)

lemma HasPrefix_append [simp]: "HasPrefix (p @ s) p"
  by (simp add: HasPrefix_iff)

lemma HasSuffix_append [simp]: "HasSuffix (s @ p) p"
  by (simp add: HasSuffix_iff suffix_def)

lemma HasSuffix_split: "HasSuffix s p \<Longrightarrow> \<exists>t. s = t @ p"
  by (auto simp: HasSuffix_iff suffix_def)

lemma Split_not_Nil [simp]: "Split s c \<noteq> []"
  by (induction s) (auto split: list.splits)

lemma Join_Split: "Join (Split s c) [c] = s"
proof (induction s)
  case Nil
  then show ?case by simp
next
  case (Cons x xs)
  then show ?case
    by (cases "Split xs c"; cases "tl (Split xs c)") auto
qed

lemma Split_no_sep: "c \<notin> set s \<Longrightarrow> Split s c = [s]"
  by (induction s) auto

lemma Split_pieces_no_sep: "p \<in> set (Split s c) \<Longrightarrow> c \<notin> set p"
  by (induction s arbitrary: p) (auto split: if_splits list.splits)

lemma Split_append: "Split (a @ c # b) c = Split a c @ Split b c"
  by (induction a) (auto split: list.splits)

section \<open>Time\<close>

type_synonym time = int
type_synonym duration = int

definition Second :: duration where "Second = 1000000000"
definition Minute :: duration where "Minute = 60 * Second"
definition Hour :: duration where "Hour = 60 * Minute"

lemmas duration_defs = Second_def Minute_def Hour_def

text \<open>\<open>time.Time.Unix\<close>, \<open>time.Unix(sec, 0)\<close> and the zero \<open>time.Time\<close> (1 January of year 1).\<close>

definition Unix :: "time \<Rightarrow> int" where "Unix t = t div Second"
definition ofUnix :: "int \<Rightarrow> time" where "ofUnix u = u * Second"
definition zeroTime :: time where "zeroTime = ofUnix (- 62135596800)"

lemma Second_pos [simp]: "0 < Second"
  by (simp add: Second_def)

lemma Unix_ofUnix [simp]: "Unix (ofUnix u) = u"
  by (simp add: Unix_def ofUnix_def Second_def)

lemma Unix_mono: "a \<le> b \<Longrightarrow> Unix a \<le> Unix b"
  by (simp add: Unix_def zdiv_mono1)

lemma Unix_le: "ofUnix (Unix t) \<le> t"
  by (simp add: Unix_def ofUnix_def Second_def)

section \<open>Errors\<close>

text \<open>
  An error value is the list of sentinels and typed errors its wrap chain holds (\<open>%w\<close>),
  outermost first; text added with \<open>%v\<close> is not part of the chain and is dropped. \<open>errors.Is\<close>
  and \<open>errors.As\<close> search the chain.
\<close>

datatype sentinel =
    ErrNotExist                       \<comment> \<open>os.ErrNotExist\<close>
  | ConditionalPutError string        \<comment> \<open>storage.ConditionalPutError, with its key\<close>
  | ErrPathTraversal                  \<comment> \<open>storage.errPathTraversal\<close>
  | ErrMissingServerName
  | ErrHostNotAllowed
  | ErrCertificateUnavailable
  | ErrNotLeader
  | ErrOrderNotPersisted
  | ErrPersistFailed
  | ErrStorageUnavailable
  | ErrNoJournal
  | ErrKeyCertMismatch
  | ErrStoredChainUnparseable
  | ErrNotStored                      \<comment> \<open>certstore.ErrNotStored\<close>
  | ErrInUse                          \<comment> \<open>certstore.ErrInUse\<close>
  | ErrAccountAlreadyExists           \<comment> \<open>acme.ErrAccountAlreadyExists\<close>
  | AcmeError int "duration option"   \<comment> \<open>acme.Error: status code, and the rate-limit wait if it is one\<close>
  | DNSError bool                     \<comment> \<open>net.DNSError: its IsNotFound flag\<close>
  | DialError                         \<comment> \<open>net.OpError whose Op is "dial"\<close>
  | Msg string                        \<comment> \<open>an error of no type the sources look for\<close>

type_synonym error = "sentinel list"

definition errIs :: "error \<Rightarrow> sentinel \<Rightarrow> bool" where
  "errIs e t = (t \<in> set e)"

definition isNotExist :: "error \<Rightarrow> bool" where
  "isNotExist e = errIs e ErrNotExist"

definition isConditionalPut :: "error \<Rightarrow> bool" where
  "isConditionalPut e = list_ex (\<lambda>x. case x of ConditionalPutError _ \<Rightarrow> True | _ \<Rightarrow> False) e"

lemma isNotExist_simps [simp, go_err]:
  "\<not> isNotExist []"
  "isNotExist (x # e) \<longleftrightarrow> x = ErrNotExist \<or> isNotExist e"
  "isNotExist (e @ e') \<longleftrightarrow> isNotExist e \<or> isNotExist e'"
  by (auto simp: isNotExist_def errIs_def)

lemma isConditionalPut_simps [simp, go_err]:
  "\<not> isConditionalPut []"
  "isConditionalPut (ConditionalPutError k # e)"
  "isConditionalPut (Msg m # e) \<longleftrightarrow> isConditionalPut e"
  "isConditionalPut (ErrNotExist # e) \<longleftrightarrow> isConditionalPut e"
  "isConditionalPut (ErrPathTraversal # e) \<longleftrightarrow> isConditionalPut e"
  by (auto simp: isConditionalPut_def)

lemma errIs_simps [simp, go_err]:
  "\<not> errIs [] t"
  "errIs (x # e) t \<longleftrightarrow> x = t \<or> errIs e t"
  "errIs (e @ e') t \<longleftrightarrow> errIs e t \<or> errIs e' t"
  by (auto simp: errIs_def)

text \<open>
  A call that may fail and that touches the outside world: it returns an error or a value, and
  the state of the world after it.
\<close>

type_synonym ('s, 'a) io = "'s \<Rightarrow> (error + 'a) \<times> 's"

text \<open>Running one fallible call after another, stopping at the first error.\<close>

definition bindIO :: "('s, 'a) io \<Rightarrow> ('a \<Rightarrow> ('s, 'b) io) \<Rightarrow> ('s, 'b) io" where
  "bindIO m f s = (case m s of (Inl e, s') \<Rightarrow> (Inl e, s') | (Inr a, s') \<Rightarrow> f a s')"

lemma bindIO_Inr:
  "bindIO m f s = (Inr b, s') \<longleftrightarrow> (\<exists>a s1. m s = (Inr a, s1) \<and> f a s1 = (Inr b, s'))"
  by (auto simp: bindIO_def split: prod.splits sum.splits)

lemma bindIO_Inl:
  "bindIO m f s = (Inl e, s') \<longleftrightarrow>
     m s = (Inl e, s') \<or> (\<exists>a s1. m s = (Inr a, s1) \<and> f a s1 = (Inl e, s'))"
  by (auto simp: bindIO_def split: prod.splits sum.splits)

definition isOk :: "'e + 'a \<Rightarrow> bool" where
  "isOk r = (case r of Inl _ \<Rightarrow> False | Inr _ \<Rightarrow> True)"

lemma isOk_simps [simp]: "isOk (Inr a)" "\<not> isOk (Inl e)"
  by (simp_all add: isOk_def)

lemma isOk_E: "isOk r \<Longrightarrow> (\<And>a. r = Inr a \<Longrightarrow> P) \<Longrightarrow> P"
  by (cases r) auto

section \<open>Lists and association lists\<close>

text \<open>Go maps that the code iterates over are association lists, in iteration order.\<close>

lemma map_of_update [simp]: "map_of (AList.update k v al) = (map_of al)(k \<mapsto> v)"
  by (rule update_conv')

lemma map_of_delete [simp]: "map_of (AList.delete k al) = (map_of al)(k := None)"
  by (rule delete_conv')

lemma map_of_filter_key [simp]:
  "map_of (filter (\<lambda>(k, v). P k) al) = (\<lambda>k. if P k then map_of al k else None)"
  by (induction al) (auto simp: fun_eq_iff)

lemma filter_keeps_sorted: "sorted xs \<Longrightarrow> sorted (filter P xs)"
  using sorted_filter [of "\<lambda>x. x" xs P] by simp

lemma list_all_filter [simp]: "list_all P (filter P xs)"
  by (simp add: list_all_iff)

end
