(* ===== verification/Limiter.thy ===== *)
theory Limiter
  imports Prelude
begin

text \<open>
  The contract the two rate limits of the program share: the retry budget of retry_budget.go
  and the new-order bucket of ondemand.go each keep the times of recent events, drop those
  older than a window, and grant another only while fewer than a limit remain. The cap that
  follows, at most the limit within any window however the attempts fall, is proved once here.
\<close>

definition recent :: "duration \<Rightarrow> time \<Rightarrow> time list \<Rightarrow> time list" where
  "recent w t xs = filter (\<lambda>x. t - w < x) xs"

lemma recent_append [simp]: "recent w t (xs @ ys) = recent w t xs @ recent w t ys"
  by (simp add: recent_def)

lemma recent_Nil [simp]: "recent w t [] = []"
  by (simp add: recent_def)

lemma recent_recent [simp]: "recent w t (recent w t xs) = recent w t xs"
  by (simp add: recent_def)

lemma recent_later: "t \<le> u \<Longrightarrow> recent w u (recent w t xs) = recent w u xs"
  by (induction xs) (auto simp: recent_def)

lemma set_recent: "set (recent w t xs) = {x \<in> set xs. t - w < x}"
  by (auto simp: recent_def)

lemma length_window_recent:
  assumes "u \<le> w + win"
  shows "length (filter (\<lambda>x. w < x \<and> x \<le> w + win) xs) \<le> length (recent win u xs)"
proof -
  have "filter (\<lambda>x. w < x \<and> x \<le> w + win) xs =
      filter (\<lambda>x. w < x \<and> x \<le> w + win) (recent win u xs)"
    unfolding recent_def filter_filter using assms by (intro filter_cong) auto
  then show ?thesis using length_filter_le by metis
qed

text \<open>The attempts at the given times that were granted, in order, and the state after them.\<close>

fun runAttempts :: "(time \<Rightarrow> 'st \<Rightarrow> bool \<times> 'st) \<Rightarrow> 'st \<Rightarrow> time list \<Rightarrow> time list \<times> 'st" where
  "runAttempts attempt st [] = ([], st)"
| "runAttempts attempt st (t # ts) =
     (case attempt t st of
        (g, st1) \<Rightarrow>
          (case runAttempts attempt st1 ts of (gs, st2) \<Rightarrow> (if g then t # gs else gs, st2)))"

text \<open>
  An attempt at time \<open>t\<close> is granted or refused. A granted attempt found fewer than the limit
  in the window and is itself recorded; a refused one forgets nothing that is still recent.
\<close>

locale sliding_window =
  fixes attempt :: "time \<Rightarrow> 'st \<Rightarrow> bool \<times> 'st"
    and events :: "'st \<Rightarrow> time list"
    and limit :: "'st \<Rightarrow> int"
    and win :: duration
  assumes granted: "attempt t st = (True, st') \<Longrightarrow>
      recent win t (events st') = recent win t (events st @ [t]) \<and>
      int (length (recent win t (events st))) < limit st"
    and refused: "attempt t st = (False, st') \<Longrightarrow>
      recent win t (events st') = recent win t (events st)"
    and limit_fixed: "attempt t st = (g, st') \<Longrightarrow> limit st' = limit st"
begin

lemma run_cap:
  assumes "sorted (t0 # ts)" and "runAttempts attempt st ts = (gs, st')"
    and "\<forall>x \<in> set past. x \<le> t0"
    and "recent win t0 past = recent win t0 (events st)"
    and "\<And>w. int (length (filter (\<lambda>x. w < x \<and> x \<le> w + win) past)) \<le> max 0 (limit st)"
  shows "int (length (filter (\<lambda>x. w < x \<and> x \<le> w + win) (past @ gs))) \<le> max 0 (limit st)"
  using assms
proof (induction ts arbitrary: t0 st gs st' past w)
  case Nil
  then show ?case by simp
next
  case (Cons t ts)
  obtain g st1 where a: "attempt t st = (g, st1)" by fastforce
  obtain gs1 st2 where r: "runAttempts attempt st1 ts = (gs1, st2)" by fastforce
  have t: "t0 \<le> t" "sorted (t # ts)" using Cons.prems(1) by auto
  have lim: "limit st1 = limit st" using limit_fixed [OF a] .
  have rt: "recent win t past = recent win t (events st)"
    using Cons.prems(4) recent_later [OF t(1)] by metis
  show ?case
  proof (cases g)
    case True
    let ?past = "past @ [t]"
    have gr: "recent win t (events st1) = recent win t (events st @ [t])"
      "int (length (recent win t (events st))) < limit st"
      using granted a True by auto
    have le: "\<forall>x \<in> set ?past. x \<le> t" using Cons.prems(3) t by auto
    have re: "recent win t ?past = recent win t (events st1)"
      by (simp add: gr(1) rt)
    have cap: "int (length (filter (\<lambda>x. w < x \<and> x \<le> w + win) ?past)) \<le> max 0 (limit st1)" for w
    proof (cases "w < t \<and> t \<le> w + win")
      case True
      then have "length (filter (\<lambda>x. w < x \<and> x \<le> w + win) past) \<le> length (recent win t past)"
        by (intro length_window_recent) simp
      with gr(2) rt True show ?thesis by (simp add: lim)
    next
      case False
      with Cons.prems(5) [of w] show ?thesis by (auto simp: lim)
    qed
    have "int (length (filter (\<lambda>x. w < x \<and> x \<le> w + win) (?past @ gs1))) \<le> max 0 (limit st1)"
      using Cons.IH [OF t(2) r le re cap] by simp
    moreover have "gs = t # gs1" using Cons.prems(2) a r True by simp
    ultimately show ?thesis by (simp add: lim)
  next
    case False
    have "recent win t (events st1) = recent win t (events st)" using refused a False by simp
    with rt have re: "recent win t past = recent win t (events st1)" by simp
    have le: "\<forall>x \<in> set past. x \<le> t" using Cons.prems(3) t by auto
    have "int (length (filter (\<lambda>x. w < x \<and> x \<le> w + win) (past @ gs1))) \<le> max 0 (limit st1)"
      using Cons.IH [OF t(2) r le re] Cons.prems(5) lim by simp
    moreover have "gs = gs1" using Cons.prems(2) a r False by simp
    ultimately show ?thesis by (simp add: lim)
  qed
qed

text \<open>From a limiter with no events yet, no window of length \<open>win\<close> holds more than the limit.\<close>

lemma cap_from_empty:
  assumes "sorted ts" and "events st = []" and "runAttempts attempt st ts = (gs, st')"
  shows "int (length (filter (\<lambda>x. w < x \<and> x \<le> w + win) gs)) \<le> max 0 (limit st)"
proof (cases ts)
  case Nil
  with assms(3) show ?thesis by simp
next
  case (Cons t us)
  with assms(1) have "sorted (t # ts)" by auto
  from run_cap [OF this assms(3), of "[]"] assms(2) show ?thesis by simp
qed

end

end
