(* ===== verification/RetryBudget.thy ===== *)
theory RetryBudget
  imports Limiter Layout
begin

text \<open>
  retry_budget.go: the cap on failed issuance attempts per hostname. The budget's two Go maps
  are partial functions; the mutex makes every operation atomic, and \<open>t\<close> is what \<open>b.now()\<close>
  answers during it. A nil budget (hand-built managers) never throttles.
\<close>

definition retryBudgetWindow :: duration where
  "retryBudgetWindow = Hour"

definition budgetKey :: "string \<Rightarrow> string" where
  "budgetKey name = ToLower (CertDomain name)"

record retryBudget =
  rbMax :: int
  rbFailures :: "string \<Rightarrow> time list option"
  rbBlocked :: "string \<Rightarrow> time option"

definition newRetryBudget :: "int \<Rightarrow> retryBudget" where
  "newRetryBudget mx = \<lparr>rbMax = mx, rbFailures = Map.empty, rbBlocked = Map.empty\<rparr>"

text \<open>A map read of a missing key yields the nil slice.\<close>

definition failuresOf :: "retryBudget \<Rightarrow> string \<Rightarrow> time list" where
  "failuresOf b d = (case rbFailures b d of None \<Rightarrow> [] | Some ts \<Rightarrow> ts)"

definition rbBlock :: "string \<Rightarrow> time \<Rightarrow> retryBudget option \<Rightarrow> retryBudget option" where
  "rbBlock domain until bo =
     (case bo of
        None \<Rightarrow> None
      | Some b \<Rightarrow> Some (b\<lparr>rbBlocked := (rbBlocked b)(budgetKey domain \<mapsto> until)\<rparr>))"

fun keepAfter :: "time \<Rightarrow> time list \<Rightarrow> time list" where
  "keepAfter cutoff [] = []"
| "keepAfter cutoff (t # ts) = (if cutoff < t then t # keepAfter cutoff ts else keepAfter cutoff ts)"

definition rbPrune :: "time \<Rightarrow> string \<Rightarrow> retryBudget \<Rightarrow> time list \<times> retryBudget" where
  "rbPrune t domain b =
     (let cutoff = t - retryBudgetWindow;
          kept = keepAfter cutoff (failuresOf b domain)
      in (kept,
          if kept = [] then b\<lparr>rbFailures := (rbFailures b)(domain := None)\<rparr>
          else b\<lparr>rbFailures := (rbFailures b)(domain \<mapsto> kept)\<rparr>))"

text \<open>
  The answer of \<open>allow\<close>: the wait and whether an attempt may run. \<open>None\<close> is the run-time panic
  of \<open>recent[0]\<close> on an empty slice, which a limit below one would cause.
\<close>

definition rbAllow ::
  "time \<Rightarrow> string \<Rightarrow> retryBudget option \<Rightarrow> (duration \<times> bool) option \<times> retryBudget option" where
  "rbAllow t domain0 bo =
     (case bo of
        None \<Rightarrow> (Some (0, True), None)
      | Some b0 \<Rightarrow>
          (let domain = budgetKey domain0;
               counting = (\<lambda>b.
                 (case rbPrune t domain b of
                    (kept, b') \<Rightarrow>
                      (if int (length kept) < rbMax b' then Some (0, True)
                       else (case kept of
                               [] \<Rightarrow> None
                             | oldest # _ \<Rightarrow> Some (oldest + retryBudgetWindow - t, False)),
                       Some b')))
           in case rbBlocked b0 domain of
                Some until \<Rightarrow>
                  if until - t > 0 then (Some (until - t, False), Some b0)
                  else counting (b0\<lparr>rbBlocked := (rbBlocked b0)(domain := None)\<rparr>)
              | None \<Rightarrow> counting b0))"

definition rbRecordFailure :: "time \<Rightarrow> string \<Rightarrow> retryBudget option \<Rightarrow> retryBudget option" where
  "rbRecordFailure t domain0 bo =
     (case bo of
        None \<Rightarrow> None
      | Some b \<Rightarrow>
          (let domain = budgetKey domain0 in
           case rbPrune t domain b of
             (kept, b') \<Rightarrow> Some (b'\<lparr>rbFailures := (rbFailures b')(domain \<mapsto> kept @ [t])\<rparr>)))"

definition rbReset :: "string \<Rightarrow> retryBudget option \<Rightarrow> retryBudget option" where
  "rbReset domain bo =
     (case bo of
        None \<Rightarrow> None
      | Some b \<Rightarrow>
          Some (b\<lparr>rbFailures := (rbFailures b)(budgetKey domain := None),
                  rbBlocked := (rbBlocked b)(budgetKey domain := None)\<rparr>))"

section \<open>Lemmas\<close>

lemma keepAfter_recent [simp]: "keepAfter (t - w) ts = recent w t ts"
  by (induction ts) (auto simp: recent_def)

lemma failuresOf_prune:
  "rbPrune t d b = (kept, b') \<Longrightarrow> kept = recent retryBudgetWindow t (failuresOf b d) \<and>
     failuresOf b' d = kept \<and> rbMax b' = rbMax b \<and> rbBlocked b' = rbBlocked b \<and>
     (\<forall>d'. d' \<noteq> d \<longrightarrow> rbFailures b' d' = rbFailures b d')"
  by (auto simp: rbPrune_def failuresOf_def Let_def)

lemma budgetKey_companion [simp]: "budgetKey (Companion d) = ToLower d"
  by (simp add: budgetKey_def)

text \<open>A refused attempt names a positive wait, and a granted one found room.\<close>

lemma rbAllow_cases:
  assumes "rbAllow t d (Some b) = (r, bo)"
  shows "\<exists>b'. bo = Some b' \<and> rbMax b' = rbMax b \<and>
    recent retryBudgetWindow t (failuresOf b' (budgetKey d)) =
      recent retryBudgetWindow t (failuresOf b (budgetKey d)) \<and>
    (case r of
       None \<Rightarrow> rbMax b \<le> 0
     | Some (wait, True) \<Rightarrow> wait = 0 \<and>
         int (length (recent retryBudgetWindow t (failuresOf b (budgetKey d)))) < rbMax b
     | Some (wait, False) \<Rightarrow> 0 < wait)"
proof -
  define k where "k = budgetKey d"
  define b1 where "b1 = (case rbBlocked b k of None \<Rightarrow> b
      | Some u \<Rightarrow> b\<lparr>rbBlocked := (rbBlocked b)(k := None)\<rparr>)"
  have b1: "failuresOf b1 = failuresOf b" "rbMax b1 = rbMax b"
    by (auto simp: b1_def failuresOf_def fun_eq_iff split: option.splits)
  obtain kept b2 where p: "rbPrune t k b1 = (kept, b2)" by fastforce
  from failuresOf_prune [OF p] b1
  have P: "kept = recent retryBudgetWindow t (failuresOf b k)" "failuresOf b2 k = kept"
    "rbMax b2 = rbMax b" by auto
  show ?thesis
  proof (cases "\<exists>u. rbBlocked b k = Some u \<and> u - t > 0")
    case True
    with assms show ?thesis by (auto simp: rbAllow_def k_def Let_def)
  next
    case False
    then have eq: "rbAllow t d (Some b) =
        (if int (length kept) < rbMax b2 then Some (0, True)
         else (case kept of [] \<Rightarrow> None | oldest # _ \<Rightarrow> Some (oldest + retryBudgetWindow - t, False)),
         Some b2)"
      using p by (auto simp: rbAllow_def k_def [symmetric] b1_def Let_def split: option.splits)
    show ?thesis
    proof (cases kept)
      case Nil
      then show ?thesis using assms eq P by (auto simp: k_def [symmetric])
    next
      case (Cons x xs)
      then have "x \<in> set (recent retryBudgetWindow t (failuresOf b k))" using P(1) by (metis list.set_intros(1))
      then have "t - retryBudgetWindow < x" by (simp add: set_recent)
      moreover have "recent retryBudgetWindow t (x # xs) = x # xs"
        using P(1) Cons recent_recent by metis
      ultimately show ?thesis using assms eq P(2,3) P(1) [symmetric] Cons
        by (auto simp: k_def [symmetric])
    qed
  qed
qed

text \<open>
  One attempt that fails if it is allowed, as the issuance path makes them: \<open>allow\<close>, then
  \<open>recordFailure\<close>.
\<close>

definition failingAttempt :: "string \<Rightarrow> time \<Rightarrow> retryBudget \<Rightarrow> bool \<times> retryBudget" where
  "failingAttempt d t b =
     (case rbAllow t d (Some b) of
        (Some (wait, True), Some b') \<Rightarrow>
          (case rbRecordFailure t d (Some b') of Some b'' \<Rightarrow> (True, b'') | None \<Rightarrow> (True, b'))
      | (_, Some b') \<Rightarrow> (False, b')
      | (_, None) \<Rightarrow> (False, b))"

lemma rbRecordFailure_failures:
  "rbRecordFailure t d (Some b) = Some b' \<Longrightarrow>
     failuresOf b' (budgetKey d) = recent retryBudgetWindow t (failuresOf b (budgetKey d)) @ [t] \<and>
     rbMax b' = rbMax b"
  by (auto simp: rbRecordFailure_def Let_def failuresOf_def split: prod.splits
      dest!: failuresOf_prune)

lemma rbRecordFailure_Some: "\<exists>b'. rbRecordFailure t d (Some b) = Some b'"
  by (auto simp: rbRecordFailure_def Let_def split: prod.splits)

lemma failingAttempt_granted:
  assumes "failingAttempt d t b = (True, b')"
  shows "failuresOf b' (budgetKey d) = recent retryBudgetWindow t (failuresOf b (budgetKey d)) @ [t]"
    and "int (length (recent retryBudgetWindow t (failuresOf b (budgetKey d)))) < rbMax b"
    and "rbMax b' = rbMax b"
proof -
  obtain r bo where a: "rbAllow t d (Some b) = (r, bo)" by fastforce
  from rbAllow_cases [OF a] obtain b1 where b1: "bo = Some b1" "rbMax b1 = rbMax b"
    "recent retryBudgetWindow t (failuresOf b1 (budgetKey d)) =
      recent retryBudgetWindow t (failuresOf b (budgetKey d))" by auto
  obtain b2 where b2: "rbRecordFailure t d (Some b1) = Some b2" using rbRecordFailure_Some by blast
  from assms a b1(1) obtain wait where r: "r = Some (wait, True)"
    by (auto simp: failingAttempt_def split: option.splits prod.splits bool.splits)
  with assms a b1(1) b2 have "b' = b2" by (simp add: failingAttempt_def)
  with rbRecordFailure_failures [OF b2] b1
  show "failuresOf b' (budgetKey d) = recent retryBudgetWindow t (failuresOf b (budgetKey d)) @ [t]"
    and "rbMax b' = rbMax b" by simp_all
  from rbAllow_cases [OF a] r
  show "int (length (recent retryBudgetWindow t (failuresOf b (budgetKey d)))) < rbMax b" by auto
qed

lemma failingAttempt_refused:
  assumes "failingAttempt d t b = (False, b')"
  shows "recent retryBudgetWindow t (failuresOf b' (budgetKey d)) =
      recent retryBudgetWindow t (failuresOf b (budgetKey d)) \<and> rbMax b' = rbMax b"
proof -
  obtain r bo where a: "rbAllow t d (Some b) = (r, bo)" by fastforce
  from rbAllow_cases [OF a] obtain b1 where b1: "bo = Some b1" "rbMax b1 = rbMax b"
    "recent retryBudgetWindow t (failuresOf b1 (budgetKey d)) =
      recent retryBudgetWindow t (failuresOf b (budgetKey d))" by auto
  with assms a have "b' = b1"
    by (auto simp: failingAttempt_def split: option.splits prod.splits bool.splits)
  with b1 show ?thesis by simp
qed

interpretation retry: sliding_window
  "failingAttempt d" "\<lambda>b. failuresOf b (budgetKey d)" rbMax retryBudgetWindow for d
proof unfold_locales
  fix t st st' assume "failingAttempt d t st = (True, st')"
  then show "recent retryBudgetWindow t (failuresOf st' (budgetKey d)) =
        recent retryBudgetWindow t (failuresOf st (budgetKey d) @ [t]) \<and>
      int (length (recent retryBudgetWindow t (failuresOf st (budgetKey d)))) < rbMax st"
    using failingAttempt_granted [of d t st st'] by simp
next
  fix t st st' assume "failingAttempt d t st = (False, st')"
  then show "recent retryBudgetWindow t (failuresOf st' (budgetKey d)) =
      recent retryBudgetWindow t (failuresOf st (budgetKey d))"
    using failingAttempt_refused by blast
next
  fix t st g st' assume "failingAttempt d t st = (g, st')"
  then show "rbMax st' = rbMax st"
    by (cases g) (auto dest: failingAttempt_granted(3) failingAttempt_refused)
qed

lemma rbAllow_decides:
  assumes "1 \<le> rbMax b"
  shows "\<exists>wait ok b'. rbAllow t d (Some b) = (Some (wait, ok), Some b') \<and>
     (ok \<longleftrightarrow> (\<forall>until. rbBlocked b (budgetKey d) = Some until \<longrightarrow> until \<le> t) \<and>
            int (length (recent retryBudgetWindow t (failuresOf b (budgetKey d)))) < rbMax b) \<and>
     (if ok then wait = 0 else 0 < wait)"
proof -
  obtain r bo where a: "rbAllow t d (Some b) = (r, bo)" by fastforce
  note C = rbAllow_cases [OF a]
  have r: "r \<noteq> None" using C assms by (cases r) auto
  then obtain wait ok where w: "r = Some (wait, ok)" by auto
  have "ok \<longleftrightarrow> (\<forall>until. rbBlocked b (budgetKey d) = Some until \<longrightarrow> until \<le> t) \<and>
      int (length (recent retryBudgetWindow t (failuresOf b (budgetKey d)))) < rbMax b"
    using a w by (auto simp: rbAllow_def rbPrune_def Let_def failuresOf_def
        split: option.splits if_splits list.splits)
  with a w C show ?thesis by (cases ok) auto
qed

section \<open>Properties\<close>

text \<open>
  C24: the retry budget caps failures. However the attempts on a name fall in time, a fresh
  budget lets at most \<open>maxFails\<close> of them run and fail within any window of
  \<open>retryBudgetWindow\<close>.
\<close>

theorem retry_budget_cap:
  assumes "sorted ts" and "runAttempts (failingAttempt d) (newRetryBudget maxFails) ts = (gs, b')"
  shows "int (length (filter (\<lambda>x. w < x \<and> x \<le> w + retryBudgetWindow) gs)) \<le> max 0 maxFails"
  using retry.cap_from_empty [OF assms(1) _ assms(2)] by (simp add: newRetryBudget_def failuresOf_def)

theorem retry_budget_cap_witness:
  "fst (runAttempts (failingAttempt ''a'') (newRetryBudget 2) [1, 2, 3, 4]) = [1, 2] \<and>
   int (length (filter (\<lambda>x. 0 < x \<and> x \<le> 0 + retryBudgetWindow)
     (fst (runAttempts (failingAttempt ''a'') (newRetryBudget 2) [1, 2, 3, 4])))) \<le> max 0 2"
proof
  show "fst (runAttempts (failingAttempt ''a'') (newRetryBudget 2) [1, 2, 3, 4]) = [1, 2]" by code_simp
  have "sorted [1, 2, 3, 4 :: int]" by simp
  then show "int (length (filter (\<lambda>x. 0 < x \<and> x \<le> 0 + retryBudgetWindow)
     (fst (runAttempts (failingAttempt ''a'') (newRetryBudget 2) [1, 2, 3, 4])))) \<le> max 0 2"
    by (rule retry_budget_cap) (rule surjective_pairing)
qed

text \<open>
  With a limit of at least one, \<open>allow\<close> always answers (the slice it indexes is never
  empty), grants exactly when no block is pending and fewer than the limit of failures are
  recent, and names a positive wait when it refuses.
\<close>

theorem retry_allow_total:
  assumes "1 \<le> rbMax b"
  shows "\<exists>wait ok b'. rbAllow t d (Some b) = (Some (wait, ok), Some b') \<and>
     (ok \<longleftrightarrow> (\<forall>until. rbBlocked b (budgetKey d) = Some until \<longrightarrow> until \<le> t) \<and>
            int (length (recent retryBudgetWindow t (failuresOf b (budgetKey d)))) < rbMax b) \<and>
     (if ok then wait = 0 else 0 < wait)"
  using rbAllow_decides [OF assms] .

theorem retry_allow_total_witness:
  "(1::int) \<le> rbMax (newRetryBudget 3) \<and>
   (\<exists>wait ok b'. rbAllow 7 ''a'' (Some (newRetryBudget 3)) = (Some (wait, ok), Some b') \<and>
     (ok \<longleftrightarrow> (\<forall>until. rbBlocked (newRetryBudget 3) (budgetKey ''a'') = Some until \<longrightarrow> until \<le> 7) \<and>
            int (length (recent retryBudgetWindow 7 (failuresOf (newRetryBudget 3) (budgetKey ''a'')))) < rbMax (newRetryBudget 3)) \<and>
     (if ok then wait = 0 else 0 < wait))"
proof -
  have "1 \<le> rbMax (newRetryBudget 3)" by (simp add: newRetryBudget_def)
  from this retry_allow_total [OF this, of 7 "''a''"] show ?thesis by (rule conjI)
qed

text \<open>
  C30: the wait is long enough. When the budget is exactly spent and no block is pending, an
  attempt made after the wait \<open>allow\<close> named is granted.
\<close>

theorem retry_wait_sufficient:
  assumes "rbAllow t d (Some b) = (Some (wait, False), Some b')"
    and "rbBlocked b (budgetKey d) = None" and "1 \<le> rbMax b"
    and "int (length (recent retryBudgetWindow t (failuresOf b (budgetKey d)))) = rbMax b"
  shows "fst (rbAllow (t + wait) d (Some b')) = Some (0, True)"
proof -
  let ?k = "budgetKey d" and ?w = retryBudgetWindow
  obtain kept b2 where p: "rbPrune t ?k b = (kept, b2)" by fastforce
  note P = failuresOf_prune [OF p]
  have "kept \<noteq> []" using P assms(3,4) by auto
  then obtain x xs where x: "kept = x # xs" by (cases kept) auto
  have b': "b' = b2" "wait = x + ?w - t"
    using assms(1-2) p x by (auto simp: rbAllow_def Let_def split: if_splits)
  have "recent ?w (t + wait) (x # xs) = recent ?w (t + wait) xs" by (simp add: recent_def b'(2))
  moreover have "length (recent ?w (t + wait) xs) \<le> length xs" by (simp add: recent_def)
  moreover have "rbMax b = int (length (x # xs))" using assms(4) P x by metis
  ultimately have l: "int (length (recent ?w (t + wait) kept)) < rbMax b" using x by simp
  have "rbMax b2 = rbMax b" "rbBlocked b2 ?k = None" "failuresOf b2 ?k = kept" using P assms(2) by auto
  with rbAllow_decides [of b2 "t + wait" d] l assms(3) b'(1) show ?thesis by (auto split: if_splits)
qed

theorem retry_wait_sufficient_witness:
  "\<exists>wait b'. rbAllow 5 ''a'' (rbRecordFailure 2 ''a'' (Some (newRetryBudget 1))) = (Some (wait, False), Some b') \<and>
     fst (rbAllow (5 + wait) ''a'' (Some b')) = Some (0, True)"
proof -
  obtain b where b: "rbRecordFailure 2 ''a'' (Some (newRetryBudget 1)) = Some b"
    using rbRecordFailure_Some by blast
  have eqs: "rbMax b = 1" "rbBlocked b = Map.empty" "failuresOf b (budgetKey ''a'') = [2]"
    using b rbRecordFailure_failures [OF b]
    by (auto simp: rbRecordFailure_def rbPrune_def newRetryBudget_def failuresOf_def Let_def)
  have r: "recent retryBudgetWindow 5 [2] = [2]"
    by (simp add: recent_def retryBudgetWindow_def duration_defs)
  obtain wait b' where a: "rbAllow 5 ''a'' (Some b) = (Some (wait, False), Some b')"
    using rbAllow_decides [of b 5 "''a''"] eqs r by auto
  from retry_wait_sufficient [OF a] a b eqs r show ?thesis by auto
qed

end
