(* ===== verification/Codec.thy ===== *)
theory Codec
  imports Prelude
begin

text \<open>
  What the bytes of a stored object mean to the libraries that read and write them. Byte
  strings that go through encoding/pem, crypto/x509 or encoding/json are modelled by the
  structure those packages recover from them: a \<open>blob\<close> is a sequence of PEM blocks, a JSON
  value, or other text, and a DER string is a certificate, a PKCS#8 key, or neither. So
  \<open>pem.Decode\<close> takes the next block of a sequence, \<open>append\<close> of two PEM byte strings joins their
  blocks, and \<open>x509.ParseCertificate\<close> succeeds exactly on certificates. A private key is known
  by its public half.
\<close>

section \<open>Keys and certificates\<close>

datatype key_alg = ECDSA_P256 | ECDSA_P384 | ECDSA_P521 | RSA_Alg nat | Ed25519_Alg

record pubkey =
  pk_alg :: key_alg
  pk_id :: string

text \<open>A \<open>crypto.Signer\<close>, by its public key.\<close>

record signer =
  Public :: pubkey

text \<open>What \<open>x509.ParsePKCS8PrivateKey\<close> can return: an ECDH key, for one, is not a Signer.\<close>

datatype privkey = SignerKey signer | NonSigner string

text \<open>The fields of \<open>x509.Certificate\<close> the sources read.\<close>

record x509 =
  PublicKey :: pubkey
  NotBefore :: time
  NotAfter :: time
  DNSNames :: "string list"
  IssuerCN :: string
  Serial :: nat

datatype der = CertDER x509 | KeyDER privkey | OtherDER string

record pem_block =
  pemType :: string
  pemBytes :: der

text \<open>
  \<open>tls.Certificate\<close>: the DER chain, the key (of any type) and the parsed leaf (nil when unset).
\<close>

record certificate =
  Certificate :: "der list"
  PrivateKey :: privkey
  Leaf :: "x509 option"

definition ParseCertificate :: "der \<Rightarrow> error + x509" where
  "ParseCertificate d =
     (case d of CertDER c \<Rightarrow> Inr c | _ \<Rightarrow> Inl [Msg ''x509: malformed certificate''])"

definition ParsePKCS8PrivateKey :: "der \<Rightarrow> error + privkey" where
  "ParsePKCS8PrivateKey d =
     (case d of KeyDER k \<Rightarrow> Inr k | _ \<Rightarrow> Inl [Msg ''x509: failed to parse private key''])"

text \<open>
  \<open>x509.Certificate.VerifyHostname\<close> for a host name (the names of this program are never IP
  literals): a pattern and a candidate that are both well-formed match label by label, "*"
  standing for a whole first label; anything else matches only exactly, up to case.
\<close>

definition isNameChar :: "nat \<Rightarrow> char \<Rightarrow> bool" where
  "isNameChar j c =
     (let n = (of_char c :: nat) in
      (97 \<le> n \<and> n \<le> 122) \<or> (48 \<le> n \<and> n \<le> 57) \<or> (65 \<le> n \<and> n \<le> 90) \<or>
      (c = CHR ''-'' \<and> j \<noteq> 0) \<or> c = CHR ''_'')"

definition validLabel :: "string \<Rightarrow> bool" where
  "validLabel p = (p \<noteq> [] \<and> list_all (\<lambda>j. isNameChar j (p ! j)) [0..<length p])"

definition validHostname :: "string \<Rightarrow> bool \<Rightarrow> bool" where
  "validHostname h isPattern =
     (let h' = (if isPattern then h else TrimSuffix h ''.'')
      in h' \<noteq> [] \<and>
         (case Split h' CHR ''.'' of
            [] \<Rightarrow> True
          | p # ps \<Rightarrow> ((isPattern \<and> p = ''*'') \<or> validLabel p) \<and> list_all validLabel ps))"

fun matchLabels :: "string list \<Rightarrow> string list \<Rightarrow> bool" where
  "matchLabels (p # ps) (q # qs) = ((p = ''*'' \<or> p = q) \<and> ps = qs)"
| "matchLabels ps qs = (ps = qs)"

definition matchHostnames :: "string \<Rightarrow> string \<Rightarrow> bool" where
  "matchHostnames pattern h =
     (let p = ToLower pattern; q = TrimSuffix (ToLower h) ''.''
      in p \<noteq> [] \<and> q \<noteq> [] \<and> matchLabels (Split p CHR ''.'') (Split q CHR ''.''))"

definition matchExactly :: "string \<Rightarrow> string \<Rightarrow> bool" where
  "matchExactly a b = (a \<noteq> [] \<and> a \<noteq> ''.'' \<and> b \<noteq> [] \<and> b \<noteq> ''.'' \<and> ToLower a = ToLower b)"

definition VerifyHostname :: "x509 \<Rightarrow> string \<Rightarrow> bool" where
  "VerifyHostname c h =
     (let candidate = ToLower h; ok = validHostname candidate False
      in list_ex (\<lambda>pat. if ok \<and> validHostname pat True then matchHostnames pat candidate
                        else matchExactly pat candidate) (DNSNames c))"

section \<open>JSON\<close>

text \<open>
  JSON values; a number is an integer literal, or \<open>JFrac\<close> for any other number. \<open>json.Unmarshal\<close>
  into a struct reads the object's members in order: a member whose name equals a field's up
  to case sets it, null leaves it, a value of the wrong kind or an integer outside int64 is an
  error; fields nobody sets stay zero.
\<close>

datatype json =
    JNull | JBool bool | JNum int | JFrac string | JStr string
  | JArr "json list" | JObj "(string \<times> json) list"

definition int64_ok :: "int \<Rightarrow> bool" where
  "int64_ok n = (- (2 ^ 63) \<le> n \<and> n < 2 ^ 63)"

definition jsonTypeError :: error where
  "jsonTypeError = [Msg ''json: cannot unmarshal'']"

fun decInt :: "string \<Rightarrow> (string \<times> json) list \<Rightarrow> int \<Rightarrow> error + int" where
  "decInt name [] acc = Inr acc"
| "decInt name ((k, v) # kvs) acc =
     (if ToLower k = ToLower name then
        (case v of
           JNull \<Rightarrow> decInt name kvs acc
         | JNum n \<Rightarrow> if int64_ok n then decInt name kvs n else Inl jsonTypeError
         | _ \<Rightarrow> Inl jsonTypeError)
      else decInt name kvs acc)"

fun decStr :: "string \<Rightarrow> (string \<times> json) list \<Rightarrow> string \<Rightarrow> error + string" where
  "decStr name [] acc = Inr acc"
| "decStr name ((k, v) # kvs) acc =
     (if ToLower k = ToLower name then
        (case v of
           JNull \<Rightarrow> decStr name kvs acc
         | JStr s \<Rightarrow> decStr name kvs s
         | _ \<Rightarrow> Inl jsonTypeError)
      else decStr name kvs acc)"

text \<open>A \<open>[]string\<close>: a null element leaves the zero string.\<close>

fun decStrs :: "json list \<Rightarrow> error + string list" where
  "decStrs [] = Inr []"
| "decStrs (v # vs) =
     (case decStrs vs of
        Inl e \<Rightarrow> Inl e
      | Inr xs \<Rightarrow>
          (case v of JStr s \<Rightarrow> Inr (s # xs) | JNull \<Rightarrow> Inr ([] # xs) | _ \<Rightarrow> Inl jsonTypeError))"

fun decStrList :: "string \<Rightarrow> (string \<times> json) list \<Rightarrow> string list \<Rightarrow> error + string list" where
  "decStrList name [] acc = Inr acc"
| "decStrList name ((k, v) # kvs) acc =
     (if ToLower k = ToLower name then
        (case v of
           JNull \<Rightarrow> decStrList name kvs []
         | JArr vs \<Rightarrow> (case decStrs vs of Inl e \<Rightarrow> Inl e | Inr xs \<Rightarrow> decStrList name kvs xs)
         | _ \<Rightarrow> Inl jsonTypeError)
      else decStrList name kvs acc)"

text \<open>A \<open>map[string]int64\<close>: null values store zero.\<close>

fun decIntMap :: "(string \<times> json) list \<Rightarrow> (string \<times> int) list \<Rightarrow> error + (string \<times> int) list" where
  "decIntMap [] acc = Inr acc"
| "decIntMap ((k, v) # kvs) acc =
     (case v of
        JNum n \<Rightarrow> if int64_ok n then decIntMap kvs (AList.update k n acc) else Inl jsonTypeError
      | JNull \<Rightarrow> decIntMap kvs (AList.update k 0 acc)
      | _ \<Rightarrow> Inl jsonTypeError)"

section \<open>Object contents\<close>

datatype blob = Pem "pem_block list" | Json json | Text string

definition pemBlocks :: "blob \<Rightarrow> pem_block list" where
  "pemBlocks b = (case b of Pem bs \<Rightarrow> bs | _ \<Rightarrow> [])"

text \<open>\<open>json.Unmarshal\<close> up to the JSON value: bytes that are not JSON are a syntax error.\<close>

definition jsonOf :: "blob \<Rightarrow> error + json" where
  "jsonOf b = (case b of Json j \<Rightarrow> Inr j | _ \<Rightarrow> Inl [Msg ''json: syntax error''])"

text \<open>The members of a JSON object, or of null (which sets nothing).\<close>

definition jsonMembers :: "json \<Rightarrow> error + (string \<times> json) list" where
  "jsonMembers j =
     (case j of JObj kvs \<Rightarrow> Inr kvs | JNull \<Rightarrow> Inr [] | _ \<Rightarrow> Inl jsonTypeError)"

lemma pemBlocks_simps [simp]:
  "pemBlocks (Pem bs) = bs" "pemBlocks (Json j) = []" "pemBlocks (Text t) = []"
  by (simp_all add: pemBlocks_def)

lemma jsonOf_simps [simp]:
  "jsonOf (Json j) = Inr j"
  "jsonOf (Pem bs) = Inl [Msg ''json: syntax error'']"
  "jsonOf (Text t) = Inl [Msg ''json: syntax error'']"
  by (simp_all add: jsonOf_def)

lemma jsonMembers_simps [simp]:
  "jsonMembers (JObj kvs) = Inr kvs" "jsonMembers JNull = Inr []"
  "jsonMembers (JArr xs) = Inl jsonTypeError"
  by (simp_all add: jsonMembers_def)

lemma ParseCertificate_simps [simp]:
  "ParseCertificate (CertDER c) = Inr c"
  "ParseCertificate d = Inr c \<longleftrightarrow> d = CertDER c"
  by (auto simp: ParseCertificate_def split: der.splits)

lemma decStrs_map_JStr [simp]: "decStrs (map JStr xs) = Inr xs"
  by (induction xs) auto

lemma ToLower_cmp:
  "ToLower ''digest'' \<noteq> ToLower ''retire_after''"
  "ToLower ''owner'' \<noteq> ToLower ''expires_at''"
  by (simp_all add: ToLower_def lower_byte_def)

end
