(* ===== verification/Backend.thy ===== *)
theory Backend
  imports Codec
begin

text \<open>
  storage/interface.go: the object store every component talks to. A \<open>Backend\<close> is an interface
  value in Go and a record of operations here; the state type \<open>'s\<close> is whatever the operations
  act on. The error contract of the interface comment is the locale \<open>backend_contract\<close>: what a
  client may conclude from an answer, for any backend, with any interference by other nodes
  between two calls (the relation \<open>env\<close>). The theory Filesystem interprets it on the model of
  storage/filesystem.go.
\<close>

section \<open>The interface\<close>

record ObjectInfo =
  oiKey :: string
  oiLastModified :: time
  oiETag :: string

record PutOptions =
  ContentType :: string
  ContentEncoding :: string
  Metadata :: "(string \<times> string) list"
  IfNoneMatch :: string
  IfMatch :: string

definition plainPut :: "string \<Rightarrow> PutOptions" where
  "plainPut ct = \<lparr>ContentType = ct, ContentEncoding = [], Metadata = [], IfNoneMatch = [], IfMatch = []\<rparr>"

definition createOnce :: "string \<Rightarrow> PutOptions" where
  "createOnce ct = (plainPut ct)\<lparr>IfNoneMatch := ''*''\<rparr>"

definition replaceIf :: "string \<Rightarrow> string \<Rightarrow> PutOptions" where
  "replaceIf ct etag = (plainPut ct)\<lparr>IfMatch := etag\<rparr>"

text \<open>
  \<open>GetObject\<close> is the call together with the \<open>io.ReadAll\<close> of its reader, which is how every
  caller uses it; a read that breaks off is an error that is not \<open>os.ErrNotExist\<close>.
\<close>

record 's backend =
  PutObject :: "string \<Rightarrow> blob \<Rightarrow> PutOptions \<Rightarrow> ('s, unit) io"
  GetObject :: "string \<Rightarrow> ('s, blob) io"
  StatObject :: "string \<Rightarrow> ('s, ObjectInfo) io"
  RemoveObject :: "string \<Rightarrow> ('s, unit) io"
  ListObjects :: "string \<Rightarrow> bool \<Rightarrow> ('s, ObjectInfo list) io"
  BucketExists :: "('s, bool) io"
  MakeBucket :: "('s, unit) io"

text \<open>
  What a node reads off its surroundings without changing them: its wall clock, the leader
  predicate it was given (\<open>None\<close> when it has none: a single node), the key the crypto packages
  would generate from the system's randomness, and the functions of packages outside the
  repository of which the sources need only that they are functions: \<open>idna.Lookup.ToASCII\<close>,
  \<open>x509.MarshalPKIXPublicKey\<close>, the hex SHA-256 digest and the RFC 3339 form of a time.
  \<open>WaitFor\<close> is a select on a timer and on the end of the context, true when the timer fired.
\<close>

record 's host =
  now :: "'s \<Rightarrow> time"
  isLeaderF :: "('s \<Rightarrow> bool) option"
  GenerateKey :: "key_alg \<Rightarrow> 's \<Rightarrow> error + signer"
  ToASCII :: "string \<Rightarrow> string option"
  MarshalPKIX :: "pubkey \<Rightarrow> error + string"
  Sha256Hex :: "string \<Rightarrow> string"
  RFC3339 :: "time \<Rightarrow> string"
  WaitFor :: "duration \<Rightarrow> 's \<Rightarrow> bool \<times> 's"

definition isLeader :: "'s host \<Rightarrow> 's \<Rightarrow> bool" where
  "isLeader H s = (case isLeaderF H of None \<Rightarrow> True | Some f \<Rightarrow> f s)"

text \<open>
  local_copy.go: a failed read is marked with \<open>ErrStorageUnavailable\<close> unless it is the definite
  "there is none". \<open>storageReadError\<close> matches the sentinel and the error underneath.
\<close>

definition readFailure :: "error \<Rightarrow> error" where
  "readFailure err = (if isNotExist err then err else ErrStorageUnavailable # err)"

lemma readFailure_isNotExist [simp, go_err]: "isNotExist (readFailure e) \<longleftrightarrow> isNotExist e"
  by (simp add: readFailure_def)

lemma readFailure_unavailable [simp, go_err]:
  "\<not> isNotExist e \<Longrightarrow> errIs (readFailure e) ErrStorageUnavailable"
  by (simp add: readFailure_def)

section \<open>What an answer means\<close>

text \<open>The objects a store holds: for each key, its contents and its ETag.\<close>

type_synonym objects = "string \<Rightarrow> (blob \<times> string) option"

definition putPre :: "string \<Rightarrow> PutOptions \<Rightarrow> objects \<Rightarrow> bool" where
  "putPre k opts v =
     (if IfNoneMatch opts = ''*'' then v k = None
      else if IfMatch opts \<noteq> [] then (\<exists>d. v k = Some (d, IfMatch opts)) else True)"

text \<open>
  A put that succeeds met its precondition and stored exactly the bytes it was given. One that
  fails its precondition changed nothing. After any other error the write may or may not have
  happened.
\<close>

definition putEffect ::
  "string \<Rightarrow> blob \<Rightarrow> PutOptions \<Rightarrow> error + unit \<Rightarrow> objects \<Rightarrow> objects \<Rightarrow> bool" where
  "putEffect k d opts r v v' =
     (case r of
        Inr _ \<Rightarrow> putPre k opts v \<and> (\<exists>e. v' = v(k \<mapsto> (d, e)))
      | Inl err \<Rightarrow> v' = v \<or>
          (\<not> isConditionalPut err \<and> putPre k opts v \<and> (\<exists>e. v' = v(k \<mapsto> (d, e)))))"

definition getEffect :: "string \<Rightarrow> error + blob \<Rightarrow> objects \<Rightarrow> bool" where
  "getEffect k r v =
     (case r of
        Inr d \<Rightarrow> (\<exists>e. v k = Some (d, e))
      | Inl err \<Rightarrow> isNotExist err \<longrightarrow> v k = None)"

definition statEffect :: "string \<Rightarrow> error + ObjectInfo \<Rightarrow> objects \<Rightarrow> bool" where
  "statEffect k r v =
     (case r of
        Inr i \<Rightarrow> (\<forall>d e. v k = Some (d, e) \<longrightarrow> oiETag i = e)
      | Inl err \<Rightarrow> isNotExist err \<longrightarrow> v k = None)"

definition removeEffect :: "string \<Rightarrow> error + unit \<Rightarrow> objects \<Rightarrow> objects \<Rightarrow> bool" where
  "removeEffect k r v v' =
     (case r of Inr _ \<Rightarrow> v' = v(k := None) | Inl _ \<Rightarrow> v' = v \<or> v' = v(k := None))"

text \<open>
  A listing may miss objects it could not read, and one that takes several requests is no
  snapshot; but every canonical key in it was seen to exist.
\<close>

definition listEffect :: "(string \<Rightarrow> bool) \<Rightarrow> (string \<Rightarrow> bool) \<Rightarrow> error + ObjectInfo list \<Rightarrow> bool" where
  "listEffect valid seen r =
     (case r of
        Inr is \<Rightarrow> (\<forall>i \<in> set is. valid (oiKey i) \<longrightarrow> seen (oiKey i))
      | Inl _ \<Rightarrow> True)"

lemmas effect_defs = putEffect_def getEffect_def statEffect_def removeEffect_def listEffect_def

lemma putPre_simps [simp]:
  "putPre k (plainPut ct) v"
  "putPre k (createOnce ct) v \<longleftrightarrow> v k = None"
  "e \<noteq> [] \<Longrightarrow> putPre k (replaceIf ct e) v \<longleftrightarrow> (\<exists>d. v k = Some (d, e))"
  by (simp_all add: putPre_def plainPut_def createOnce_def replaceIf_def)

text \<open>The surroundings leave an object that exists under \<open>k\<close> alone.\<close>

definition stable :: "('s \<Rightarrow> objects) \<Rightarrow> ('s \<Rightarrow> 's \<Rightarrow> bool) \<Rightarrow> string \<Rightarrow> bool" where
  "stable view env k = (\<forall>s t. env s t \<longrightarrow> view s k \<noteq> None \<longrightarrow> view t k = view s k)"

section \<open>The contract\<close>

locale backend_contract =
  fixes B :: "'s backend"
    and view :: "'s \<Rightarrow> objects"
    and env :: "'s \<Rightarrow> 's \<Rightarrow> bool"
    and valid :: "string \<Rightarrow> bool"
  assumes put_law: "valid k \<Longrightarrow> PutObject B k d opts s = (r, s') \<Longrightarrow>
      \<exists>t. env s t \<and> putEffect k d opts r (view t) (view s')"
    and get_law: "valid k \<Longrightarrow> GetObject B k s = (rg, s') \<Longrightarrow>
      \<exists>t. env s t \<and> view s' = view t \<and> getEffect k rg (view t)"
    and stat_law: "valid k \<Longrightarrow> StatObject B k s = (rs, s') \<Longrightarrow>
      \<exists>t. env s t \<and> view s' = view t \<and> statEffect k rs (view t)"
    and remove_law: "valid k \<Longrightarrow> RemoveObject B k s = (r, s') \<Longrightarrow>
      \<exists>t. env s t \<and> removeEffect k r (view t) (view s')"
    and list_law: "ListObjects B p rec s = (rl, s') \<Longrightarrow>
      \<exists>t. env s t \<and> view s' = view t \<and> listEffect valid (\<lambda>k. \<exists>t'. env s t' \<and> view t' k \<noteq> None) rl"
begin

lemma get_ok: "valid k \<Longrightarrow> GetObject B k s = (Inr d, s') \<Longrightarrow> \<exists>e. view s' k = Some (d, e)"
  using get_law [of k s "Inr d" s'] by (auto simp: getEffect_def)

lemma get_absent:
  "valid k \<Longrightarrow> GetObject B k s = (Inl err, s') \<Longrightarrow> isNotExist err \<Longrightarrow> view s' k = None"
  using get_law [of k s "Inl err" s'] by (auto simp: getEffect_def)

lemma put_ok: "valid k \<Longrightarrow> PutObject B k d opts s = (Inr u, s') \<Longrightarrow> \<exists>e. view s' k = Some (d, e)"
  using put_law [of k d opts s "Inr u" s'] by (auto simp: putEffect_def)

lemma get_keeps:
  assumes "valid k" and "GetObject B k s = (r, s')"
    and "stable view env k'" and "view s k' = Some ob"
  shows "view s' k' = Some ob"
  using get_law [OF assms(1,2)] assms(3,4) unfolding stable_def by force

lemma stat_keeps:
  assumes "valid k" and "StatObject B k s = (r, s')"
    and "stable view env k'" and "view s k' = Some ob"
  shows "view s' k' = Some ob"
  using stat_law [OF assms(1,2)] assms(3,4) unfolding stable_def by force

lemma list_keeps:
  assumes "ListObjects B p rec s = (r, s')"
    and "stable view env k'" and "view s k' = Some ob"
  shows "view s' k' = Some ob"
  using list_law [OF assms(1)] assms(2,3) unfolding stable_def by force

lemma put_other_keeps:
  assumes "valid k" and "PutObject B k d opts s = (r, s')" and "k' \<noteq> k"
    and "stable view env k'" and "view s k' = Some ob"
  shows "view s' k' = Some ob"
proof -
  obtain t where t: "env s t" "putEffect k d opts r (view t) (view s')"
    using put_law [OF assms(1,2)] by blast
  with assms(4,5) have "view t k' = Some ob" unfolding stable_def by force
  with t(2) assms(3) show ?thesis by (auto simp: putEffect_def split: sum.splits)
qed

lemma create_keeps:
  assumes "valid k" and "PutObject B k d (createOnce ct) s = (r, s')"
    and "stable view env k'" and "view s k' = Some ob"
  shows "view s' k' = Some ob"
proof -
  obtain t where t: "env s t" "putEffect k d (createOnce ct) r (view t) (view s')"
    using put_law [OF assms(1,2)] by blast
  with assms(3,4) have "view t k' = Some ob" unfolding stable_def by force
  with t(2) show ?thesis by (auto simp: putEffect_def split: sum.splits)
qed

lemma remove_other_keeps:
  assumes "valid k" and "RemoveObject B k s = (r, s')" and "k' \<noteq> k"
    and "stable view env k'" and "view s k' = Some ob"
  shows "view s' k' = Some ob"
proof -
  obtain t where t: "env s t" "removeEffect k r (view t) (view s')"
    using remove_law [OF assms(1,2)] by blast
  with assms(4,5) have "view t k' = Some ob" unfolding stable_def by force
  with t(2) assms(3) show ?thesis by (auto simp: removeEffect_def split: sum.splits)
qed

lemmas keeps = get_keeps stat_keeps list_keeps put_other_keeps create_keeps remove_other_keeps

end

text \<open>
  A store whose calls are atomic and whose contents nobody changes between them: what is left
  when every participant is part of the model and takes its turn.
\<close>

locale atomic_store = backend_contract +
  assumes env_same: "env s t \<Longrightarrow> view t = view s"
begin

lemma put_effect: "valid k \<Longrightarrow> PutObject B k d opts s = (r, s') \<Longrightarrow> putEffect k d opts r (view s) (view s')"
  using put_law env_same by metis

lemma get_effect: "valid k \<Longrightarrow> GetObject B k s = (r, s') \<Longrightarrow> view s' = view s \<and> getEffect k r (view s)"
  using get_law env_same by metis

lemma stat_effect: "valid k \<Longrightarrow> StatObject B k s = (r, s') \<Longrightarrow> view s' = view s \<and> statEffect k r (view s)"
  using stat_law env_same by metis

lemma remove_effect: "valid k \<Longrightarrow> RemoveObject B k s = (r, s') \<Longrightarrow> removeEffect k r (view s) (view s')"
  using remove_law env_same by metis

end

end
