(* ===== verification/Filesystem.thy ===== *)
theory Filesystem
  imports Backend
begin

text \<open>
  storage/filesystem.go: the backend on a local directory, over a model of the file system
  calls it makes. The file system maps clean absolute paths to regular files and keeps the set
  of directories. Every system call consults a schedule: \<open>fsFails n\<close> says that the n-th call
  fails with an I/O error, \<open>fsElapses n\<close> how far the clock moved during it (possibly not at all:
  file time stamps are coarse). The temporary file of a put is private to it until it is linked
  or renamed, and is not part of the name space.
\<close>

section \<open>The file system\<close>

record fsfile =
  fData :: blob
  fMod :: time

record fs =
  fsFiles :: "(string \<times> fsfile) list"
  fsDirs :: "string list"
  fsDirTime :: "string \<Rightarrow> time"
  fsClock :: time
  fsCalls :: nat
  fsFails :: "nat \<Rightarrow> bool"
  fsElapses :: "nat \<Rightarrow> nat"

text \<open>One system call: whether it fails, and the clock and the call counter after it.\<close>

definition sys :: "fs \<Rightarrow> bool \<times> fs" where
  "sys s = (fsFails s (fsCalls s),
     s\<lparr>fsCalls := Suc (fsCalls s), fsClock := fsClock s + int (fsElapses s (fsCalls s))\<rparr>)"

definition sysErr :: "string \<Rightarrow> (fs, unit) io" where
  "sysErr m s = (case sys s of (True, s') \<Rightarrow> (Inl [Msg m], s') | (False, s') \<Rightarrow> (Inr (), s'))"

datatype lookup = LFile fsfile | LDir | LAbsent | LNotDir

text \<open>A path below a regular file answers ENOTDIR, which is not \<open>os.ErrNotExist\<close>.\<close>

definition belowFile :: "fs \<Rightarrow> string \<Rightarrow> bool" where
  "belowFile s p = list_ex (\<lambda>(q, f). HasPrefix p (q @ ''/'')) (fsFiles s)"

definition lookupPath :: "fs \<Rightarrow> string \<Rightarrow> lookup" where
  "lookupPath s p =
     (case map_of (fsFiles s) p of
        Some f \<Rightarrow> LFile f
      | None \<Rightarrow> if p \<in> set (fsDirs s) then LDir else if belowFile s p then LNotDir else LAbsent)"

section \<open>Package filepath\<close>

fun cleanSegs :: "bool \<Rightarrow> string list \<Rightarrow> string list \<Rightarrow> string list" where
  "cleanSegs rooted acc [] = rev acc"
| "cleanSegs rooted acc (x # xs) =
     (if x = [] \<or> x = ''.'' then cleanSegs rooted acc xs
      else if x = ''..'' then
        (case acc of
           [] \<Rightarrow> if rooted then cleanSegs rooted [] xs else cleanSegs rooted [x] xs
         | y # ys \<Rightarrow> if y = ''..'' then cleanSegs rooted (x # acc) xs else cleanSegs rooted ys xs)
      else cleanSegs rooted (x # acc) xs)"

definition Clean :: "string \<Rightarrow> string" where
  "Clean s =
     (let rooted = HasPrefix s ''/'';
          out = Join (cleanSegs rooted [] (Split s CHR ''/'')) ''/''
      in if rooted then ''/'' @ out else if out = [] then ''.'' else out)"

definition JoinPath :: "string \<Rightarrow> string \<Rightarrow> string" where
  "JoinPath a b =
     (if a = [] then (if b = [] then [] else Clean b)
      else if b = [] then Clean a else Clean (a @ ''/'' @ b))"

definition DirOf :: "string \<Rightarrow> string" where
  "DirOf p = Clean (rev (dropWhile (\<lambda>c. c \<noteq> CHR ''/'') (rev p)))"

text \<open>A directory and its ancestors, the directories \<open>os.MkdirAll\<close> creates.\<close>

definition selfAndAncestors :: "string \<Rightarrow> string list" where
  "selfAndAncestors p =
     (let ss = Split (TrimPrefix p ''/'') CHR ''/''
      in map (\<lambda>i. ''/'' @ Join (take i ss) ''/'') [1..<Suc (length ss)])"

definition mkdirAll :: "string \<Rightarrow> (fs, unit) io" where
  "mkdirAll dir s =
     (case sysErr ''failed to create directory'' s of
        (Inl e, s') \<Rightarrow> (Inl e, s')
      | (Inr _, s') \<Rightarrow>
          if map_of (fsFiles s') dir \<noteq> None \<or> belowFile s' dir
          then (Inl [Msg ''failed to create directory''], s')
          else (Inr (), s'\<lparr>fsDirs := selfAndAncestors dir @ fsDirs s'\<rparr>))"

section \<open>FilesystemBackend\<close>

text \<open>
  The backend's configuration. \<open>fsMD5\<close> and \<open>fsTimeString\<close> stand for the hex MD5 digest and for
  \<open>time.Time.String\<close>, of which the sources need only that they are functions.
\<close>

record fsb =
  fsBase :: string
  fsMD5 :: "string \<Rightarrow> string"
  fsTimeString :: "time \<Rightarrow> string"

text \<open>\<open>home\<close> and \<open>cwd\<close> are the answers of \<open>os.UserHomeDir\<close> and \<open>os.Getwd\<close>.\<close>

definition NewFilesystemBackend ::
  "error + string \<Rightarrow> error + string \<Rightarrow> (string \<Rightarrow> string) \<Rightarrow> (time \<Rightarrow> string) \<Rightarrow> string \<Rightarrow> error + fsb" where
  "NewFilesystemBackend home cwd md5 ts basePath =
     (case (if HasPrefix basePath ''~/''
            then (case home of Inl e \<Rightarrow> Inl e | Inr h \<Rightarrow> Inr (JoinPath h (drop 2 basePath)))
            else Inr basePath) of
        Inl e \<Rightarrow> Inl e
      | Inr p \<Rightarrow>
          if HasPrefix p ''/'' then Inr \<lparr>fsBase = Clean p, fsMD5 = md5, fsTimeString = ts\<rparr>
          else (case cwd of
                  Inl e \<Rightarrow> Inl e
                | Inr d \<Rightarrow> Inr \<lparr>fsBase = JoinPath d p, fsMD5 = md5, fsTimeString = ts\<rparr>))"

definition getFullPath :: "string \<Rightarrow> string \<Rightarrow> string option" where
  "getFullPath base key =
     (if list_ex (\<lambda>seg. seg = ''..'') (Split key CHR ''/'') then None
      else
        let key' = TrimPrefix (Clean key) ''/'';
            fullPath = JoinPath base key'
        in if \<not> HasPrefix fullPath (base @ ''/'') \<and> fullPath \<noteq> base then None
           else Some fullPath)"

definition generateETag :: "fsb \<Rightarrow> string \<Rightarrow> time \<Rightarrow> string" where
  "generateETag c key modTime = fsMD5 c (key @ fsTimeString c modTime)"

text \<open>Create the temporary file, write it, sync it, close it.\<close>

definition writeTemp :: "blob \<Rightarrow> (fs, fsfile) io" where
  "writeTemp d =
     bindIO (sysErr ''failed to create temp file'') (\<lambda>_.
     bindIO (sysErr ''failed to write data'') (\<lambda>_.
     bindIO (\<lambda>s. (Inr (fsClock s), s)) (\<lambda>t.
     bindIO (sysErr ''failed to fsync temp file'') (\<lambda>_.
     bindIO (sysErr ''failed to close temp file'') (\<lambda>_ s.
       (Inr \<lparr>fData = d, fMod = t\<rparr>, s))))))"

definition install :: "string \<Rightarrow> fsfile \<Rightarrow> fs \<Rightarrow> fs" where
  "install p f s = s\<lparr>fsFiles := AList.update p f (fsFiles s)\<rparr>"

definition linkFile :: "string \<Rightarrow> string \<Rightarrow> fsfile \<Rightarrow> (fs, unit) io" where
  "linkFile key p f s =
     (case sysErr ''failed to link file'' s of
        (Inl e, s') \<Rightarrow> (Inl e, s')
      | (Inr _, s') \<Rightarrow>
          (case lookupPath s' p of
             LFile _ \<Rightarrow> (Inl [ConditionalPutError key], s')
           | LDir \<Rightarrow> (Inl [ConditionalPutError key], s')
           | LNotDir \<Rightarrow> (Inl [Msg ''failed to link file''], s')
           | LAbsent \<Rightarrow> (Inr (), install p f s')))"

definition renameFile :: "string \<Rightarrow> fsfile \<Rightarrow> (fs, unit) io" where
  "renameFile p f s =
     (case sysErr ''failed to rename file'' s of
        (Inl e, s') \<Rightarrow> (Inl e, s')
      | (Inr _, s') \<Rightarrow>
          (case lookupPath s' p of
             LDir \<Rightarrow> (Inl [Msg ''failed to rename file''], s')
           | LNotDir \<Rightarrow> (Inl [Msg ''failed to rename file''], s')
           | _ \<Rightarrow> (Inr (), install p f s')))"

definition putIfMatch :: "fsb \<Rightarrow> string \<Rightarrow> string \<Rightarrow> fsfile \<Rightarrow> string \<Rightarrow> (fs, unit) io" where
  "putIfMatch c key p f ifMatch s =
     (case sysErr ''failed to stat file for conditional put'' s of
        (Inl e, s') \<Rightarrow> (Inl e, s')
      | (Inr _, s') \<Rightarrow>
          (case lookupPath s' p of
             LAbsent \<Rightarrow> (Inl [ConditionalPutError key], s')
           | LNotDir \<Rightarrow> (Inl [Msg ''failed to stat file for conditional put''], s')
           | LDir \<Rightarrow>
               if generateETag c key (fsDirTime s' p) \<noteq> ifMatch
               then (Inl [ConditionalPutError key], s') else renameFile p f s'
           | LFile f0 \<Rightarrow>
               if generateETag c key (fMod f0) \<noteq> ifMatch
               then (Inl [ConditionalPutError key], s') else renameFile p f s'))"

definition publish :: "fsb \<Rightarrow> string \<Rightarrow> string \<Rightarrow> PutOptions \<Rightarrow> fsfile \<Rightarrow> (fs, unit) io" where
  "publish c key p opts f =
     (if IfNoneMatch opts = ''*'' then linkFile key p f
      else if IfMatch opts \<noteq> [] then putIfMatch c key p f (IfMatch opts)
      else renameFile p f)"

text \<open>The result of the final directory sync is only logged.\<close>

definition fsPutObject :: "fsb \<Rightarrow> string \<Rightarrow> blob \<Rightarrow> PutOptions \<Rightarrow> (fs, unit) io" where
  "fsPutObject c key d opts s =
     (case getFullPath (fsBase c) key of
        None \<Rightarrow> (Inl [ErrPathTraversal], s)
      | Some p \<Rightarrow>
          bindIO (mkdirAll (DirOf p)) (\<lambda>_.
          bindIO (writeTemp d) (\<lambda>f.
          bindIO (publish c key p opts f) (\<lambda>_ s'. (Inr (), snd (sys s'))))) s)"

definition fsGetObject :: "fsb \<Rightarrow> string \<Rightarrow> (fs, blob) io" where
  "fsGetObject c key s =
     (case getFullPath (fsBase c) key of
        None \<Rightarrow> (Inl [ErrPathTraversal], s)
      | Some p \<Rightarrow>
          (case sysErr ''failed to open file'' s of
             (Inl e, s') \<Rightarrow> (Inl e, s')
           | (Inr _, s') \<Rightarrow>
               (case lookupPath s' p of
                  LAbsent \<Rightarrow> (Inl [ErrNotExist], s')
                | LNotDir \<Rightarrow> (Inl [Msg ''failed to open file''], s')
                | LDir \<Rightarrow> (Inl [Msg ''is a directory''], s')
                | LFile f \<Rightarrow>
                    (case sysErr ''read failed'' s' of
                       (Inl e, s'') \<Rightarrow> (Inl e, s'')
                     | (Inr _, s'') \<Rightarrow> (Inr (fData f), s'')))))"

definition fsStatObject :: "fsb \<Rightarrow> string \<Rightarrow> (fs, ObjectInfo) io" where
  "fsStatObject c key s =
     (case getFullPath (fsBase c) key of
        None \<Rightarrow> (Inl [ErrPathTraversal], s)
      | Some p \<Rightarrow>
          (case sysErr ''failed to stat file'' s of
             (Inl e, s') \<Rightarrow> (Inl e, s')
           | (Inr _, s') \<Rightarrow>
               (case lookupPath s' p of
                  LAbsent \<Rightarrow> (Inl [ErrNotExist], s')
                | LNotDir \<Rightarrow> (Inl [Msg ''failed to stat file''], s')
                | LDir \<Rightarrow> (Inr \<lparr>oiKey = key, oiLastModified = fsDirTime s' p,
                    oiETag = generateETag c key (fsDirTime s' p)\<rparr>, s')
                | LFile f \<Rightarrow> (Inr \<lparr>oiKey = key, oiLastModified = fMod f,
                    oiETag = generateETag c key (fMod f)\<rparr>, s'))))"

text \<open>\<open>os.Remove\<close> also removes an empty directory.\<close>

definition dirEmpty :: "fs \<Rightarrow> string \<Rightarrow> bool" where
  "dirEmpty s p =
     (\<not> list_ex (\<lambda>(q, f). HasPrefix q (p @ ''/'')) (fsFiles s) \<and>
      \<not> list_ex (\<lambda>q. HasPrefix q (p @ ''/'')) (fsDirs s))"

definition fsRemoveObject :: "fsb \<Rightarrow> string \<Rightarrow> (fs, unit) io" where
  "fsRemoveObject c key s =
     (case getFullPath (fsBase c) key of
        None \<Rightarrow> (Inl [ErrPathTraversal], s)
      | Some p \<Rightarrow>
          (case sysErr ''failed to remove file'' s of
             (Inl e, s') \<Rightarrow> (Inl e, s')
           | (Inr _, s') \<Rightarrow>
               (case lookupPath s' p of
                  LAbsent \<Rightarrow> (Inr (), s')
                | LNotDir \<Rightarrow> (Inl [Msg ''failed to remove file''], s')
                | LDir \<Rightarrow>
                    if dirEmpty s' p then (Inr (), s'\<lparr>fsDirs := removeAll p (fsDirs s')\<rparr>)
                    else (Inl [Msg ''failed to remove file''], s')
                | LFile f \<Rightarrow> (Inr (), s'\<lparr>fsFiles := AList.delete p (fsFiles s')\<rparr>))))"

text \<open>
  \<open>filepath.Walk\<close> below the search path: files in lexical order of their path components; a
  file whose entry cannot be read is logged and left out. Without \<open>recursive\<close>, directories
  below the search path are skipped.
\<close>

definition walkFiles :: "fs \<Rightarrow> string \<Rightarrow> bool \<Rightarrow> (string \<times> fsfile) list" where
  "walkFiles s root recursive =
     sort_key (\<lambda>(p, f). Split p CHR ''/'')
       (filter (\<lambda>(p, f). p = root \<or>
          (HasPrefix p (root @ ''/'') \<and>
           (recursive \<or> CHR ''/'' \<notin> set (drop (Suc (length root)) p)))) (fsFiles s))"

fun walkInfos :: "fsb \<Rightarrow> (string \<times> fsfile) list \<Rightarrow> fs \<Rightarrow> ObjectInfo list \<times> fs" where
  "walkInfos c [] s = ([], s)"
| "walkInfos c ((p, f) # pfs) s =
     (case sys s of
        (failed, s1) \<Rightarrow>
          (case walkInfos c pfs s1 of
             (is, s2) \<Rightarrow>
               let key = TrimPrefix p (fsBase c @ ''/'')
               in (if failed then is
                   else \<lparr>oiKey = key, oiLastModified = fMod f, oiETag = generateETag c key (fMod f)\<rparr> # is,
                   s2)))"

definition fsListObjects :: "fsb \<Rightarrow> string \<Rightarrow> bool \<Rightarrow> (fs, ObjectInfo list) io" where
  "fsListObjects c pre recursive s =
     (case getFullPath (fsBase c) pre of
        None \<Rightarrow> (Inl [ErrPathTraversal], s)
      | Some root \<Rightarrow>
          (case sys s of
             (failed, s1) \<Rightarrow>
               if \<not> failed \<and> lookupPath s1 root = LAbsent then (Inr [], s1)
               else (case walkInfos c (walkFiles s1 root recursive) s1 of (is, s2) \<Rightarrow> (Inr is, s2))))"

definition fsBucketExists :: "fsb \<Rightarrow> (fs, bool) io" where
  "fsBucketExists c s =
     (case sysErr ''failed to check directory'' s of
        (Inl e, s') \<Rightarrow> (Inl e, s')
      | (Inr _, s') \<Rightarrow>
          (case lookupPath s' (fsBase c) of
             LAbsent \<Rightarrow> (Inr False, s')
           | LNotDir \<Rightarrow> (Inl [Msg ''failed to check directory''], s')
           | LFile _ \<Rightarrow> (Inl [Msg ''path exists but is not a directory''], s')
           | LDir \<Rightarrow> (Inr True, s')))"

definition fsMakeBucket :: "fsb \<Rightarrow> (fs, unit) io" where
  "fsMakeBucket c s = mkdirAll (fsBase c) s"

definition fsBackend :: "fsb \<Rightarrow> fs backend" where
  "fsBackend c =
     \<lparr>PutObject = fsPutObject c, GetObject = fsGetObject c, StatObject = fsStatObject c,
      RemoveObject = fsRemoveObject c, ListObjects = fsListObjects c,
      BucketExists = fsBucketExists c, MakeBucket = fsMakeBucket c\<rparr>"

section \<open>Paths\<close>

text \<open>A path component that cleaning keeps; a key all of whose components are.\<close>

definition plainSeg :: "string \<Rightarrow> bool" where
  "plainSeg x = (x \<noteq> [] \<and> x \<noteq> ''.'' \<and> x \<noteq> ''..'')"

definition canonicalKey :: "string \<Rightarrow> bool" where
  "canonicalKey k = list_all plainSeg (Split k CHR ''/'')"

text \<open>A clean absolute directory other than the root, which is what \<open>filepath.Abs\<close> returns.\<close>

definition baseOK :: "string \<Rightarrow> bool" where
  "baseOK b = (HasPrefix b ''/'' \<and> canonicalKey (drop 1 b))"

lemma cleanSegs_no_dotdot:
  "''..'' \<notin> set xs \<Longrightarrow> cleanSegs r acc xs = rev acc @ filter plainSeg xs"
  by (induction xs arbitrary: acc) (auto simp: plainSeg_def)

lemma Split_Join:
  "ss \<noteq> [] \<Longrightarrow> list_all (\<lambda>x. c \<notin> set x) ss \<Longrightarrow> Split (Join ss [c]) c = ss"
proof (induction ss "[c]" rule: Join.induct)
  case (2 x)
  then show ?case by (simp add: Split_no_sep)
next
  case (3 x y xs)
  then have "Split (Join (y # xs) [c]) c = y # xs" by simp
  with 3(3) show ?case by (simp add: Split_append Split_no_sep)
qed simp

lemma Split_slash_Cons [simp]: "Split (c # s) c = [] # Split s c"
  by simp

lemma canonicalKey_append:
  "canonicalKey (a @ CHR ''/'' # b) \<longleftrightarrow> canonicalKey a \<and> canonicalKey b"
  by (simp add: canonicalKey_def Split_append)

lemma canonicalKey_no_dotdot: "canonicalKey k \<Longrightarrow> ''..'' \<notin> set (Split k CHR ''/'')"
  by (auto simp: canonicalKey_def list_all_iff plainSeg_def)

lemma canonicalKey_not_rooted: "canonicalKey k \<Longrightarrow> \<not> HasPrefix k ''/'' \<and> k \<noteq> []"
  by (cases k) (auto simp: canonicalKey_def plainSeg_def)

lemma Clean_canonical: "canonicalKey k \<Longrightarrow> Clean k = k"
  using canonicalKey_no_dotdot [of k] canonicalKey_not_rooted [of k]
  by (simp add: Clean_def cleanSegs_no_dotdot Join_Split canonicalKey_def list_all_iff
      filter_id_conv [THEN iffD2])

lemma Clean_rooted_canonical: "canonicalKey k \<Longrightarrow> Clean (CHR ''/'' # k) = CHR ''/'' # k"
  using canonicalKey_no_dotdot [of k]
  by (simp add: Clean_def cleanSegs_no_dotdot Join_Split canonicalKey_def list_all_iff
      filter_id_conv [THEN iffD2] plainSeg_def)

lemma baseOK_split: "baseOK b \<Longrightarrow> \<exists>d. b = CHR ''/'' # d \<and> canonicalKey d"
  by (cases b) (auto simp: baseOK_def)

lemma JoinPath_canonical:
  "baseOK b \<Longrightarrow> canonicalKey k \<Longrightarrow> JoinPath b k = b @ ''/'' @ k"
  using baseOK_split [of b] canonicalKey_not_rooted [of k]
    Clean_rooted_canonical [of "drop 1 b @ CHR ''/'' # k"]
  by (auto simp: JoinPath_def canonicalKey_append)

text \<open>Cleaning a key with no ".." component leaves nothing, or a canonical key.\<close>

lemma Clean_trimmed:
  assumes "''..'' \<notin> set (Split k CHR ''/'')"
  shows "TrimPrefix (Clean k) ''/'' \<in> {[], ''.''} \<or> canonicalKey (TrimPrefix (Clean k) ''/'')"
proof -
  let ?ss = "filter plainSeg (Split k CHR ''/'')"
  have C: "cleanSegs r [] (Split k CHR ''/'') = ?ss" for r
    using assms by (simp add: cleanSegs_no_dotdot)
  show ?thesis
  proof (cases "?ss = []")
    case True
    then show ?thesis by (simp add: Clean_def C TrimPrefix_def)
  next
    case False
    have "list_all (\<lambda>x. CHR ''/'' \<notin> set x) ?ss"
      by (auto simp: list_all_iff dest: Split_pieces_no_sep)
    with False have S: "Split (Join ?ss ''/'') CHR ''/'' = ?ss"
      by (rule Split_Join)
    then have can: "canonicalKey (Join ?ss ''/'')"
      by (simp add: canonicalKey_def list_all_iff)
    then have "\<not> HasPrefix (Join ?ss ''/'') ''/''" and "Join ?ss ''/'' \<noteq> []"
      using canonicalKey_not_rooted by auto
    with can have "TrimPrefix (Clean k) ''/'' = Join ?ss ''/''"
      by (simp add: Clean_def C TrimPrefix_def Let_def)
    with can show ?thesis by simp
  qed
qed

lemma Clean_baseOK: "baseOK b \<Longrightarrow> Clean b = b"
  using baseOK_split [of b] Clean_rooted_canonical by auto

lemma JoinPath_dot: "baseOK b \<Longrightarrow> k \<in> {[], ''.''} \<Longrightarrow> JoinPath b k = b"
proof -
  assume b: "baseOK b" and k: "k \<in> {[], ''.''}"
  from b obtain d where d: "b = CHR ''/'' # d" "canonicalKey d" using baseOK_split by blast
  have "''..'' \<notin> set (Split (d @ ''/.'') CHR ''/'')"
    using canonicalKey_no_dotdot [OF d(2)] by (simp add: Split_append)
  then have "Clean (b @ ''/.'') = b"
    using d by (simp add: Clean_def cleanSegs_no_dotdot Split_append plainSeg_def
        canonicalKey_def list_all_iff filter_id_conv [THEN iffD2] Join_Split)
  with b k show ?thesis by (auto simp: JoinPath_def Clean_baseOK baseOK_def)
qed

lemma getFullPath_canonical:
  "baseOK b \<Longrightarrow> canonicalKey k \<Longrightarrow> getFullPath b k = Some (b @ ''/'' @ k)"
  using canonicalKey_no_dotdot [of k] canonicalKey_not_rooted [of k]
  by (simp add: getFullPath_def list_ex_iff Clean_canonical TrimPrefix_def JoinPath_canonical
      HasPrefix_iff)

lemma getFullPath_cases:
  assumes b: "baseOK b" and k: "''..'' \<notin> set (Split k CHR ''/'')"
  shows "getFullPath b k = Some b \<or> (\<exists>k'. canonicalKey k' \<and> getFullPath b k = Some (b @ ''/'' @ k'))"
  using Clean_trimmed [OF k]
proof
  assume "TrimPrefix (Clean k) ''/'' \<in> {[], ''.''}"
  with JoinPath_dot [OF b] k show ?thesis
    by (simp add: getFullPath_def list_ex_iff Let_def)
next
  assume c: "canonicalKey (TrimPrefix (Clean k) ''/'')"
  with JoinPath_canonical [OF b c] k show ?thesis
    by (auto simp: getFullPath_def list_ex_iff Let_def HasPrefix_iff)
qed

section \<open>The backend keeps the contract\<close>

definition fsValid :: "fsb \<Rightarrow> string \<Rightarrow> bool" where
  "fsValid c k = (baseOK (fsBase c) \<and> canonicalKey k)"

text \<open>The object under a key: its bytes and the ETag \<open>StatObject\<close> reports for it.\<close>

definition fsView :: "fsb \<Rightarrow> fs \<Rightarrow> objects" where
  "fsView c s k =
     (if fsValid c k
      then map_option (\<lambda>f. (fData f, generateETag c k (fMod f)))
             (map_of (fsFiles s) (fsBase c @ ''/'' @ k))
      else None)"

definition fsSame :: "fsb \<Rightarrow> fs \<Rightarrow> fs \<Rightarrow> bool" where
  "fsSame c s t = (fsView c s = fsView c t)"

lemma fsView_cong: "fsFiles s' = fsFiles s \<Longrightarrow> fsView c s' = fsView c s"
  by (simp add: fsView_def fun_eq_iff)

lemma fsFiles_sys [simp]: "fsFiles (snd (sys s)) = fsFiles s"
  by (simp add: sys_def)

lemma sysErr_files: "sysErr m s = (r, s') \<Longrightarrow> fsFiles s' = fsFiles s"
  by (auto simp: sysErr_def sys_def split: bool.splits)

lemma sysErr_err: "sysErr m s = (Inl e, s') \<Longrightarrow> e = [Msg m]"
  by (auto simp: sysErr_def sys_def split: bool.splits)

lemma sysErr_not_exist: "sysErr m s = (Inl e, s') \<Longrightarrow> \<not> isNotExist e"
  by (drule sysErr_err) simp

lemma mkdirAll_files: "mkdirAll p s = (r, s') \<Longrightarrow> fsFiles s' = fsFiles s"
  by (auto simp: mkdirAll_def split: prod.splits sum.splits if_splits dest: sysErr_files)

lemma writeTemp_ok: "writeTemp d s = (Inr f, s') \<Longrightarrow> fsFiles s' = fsFiles s \<and> fData f = d"
  by (auto simp: writeTemp_def bindIO_Inr dest!: sysErr_files)

lemma writeTemp_err: "writeTemp d s = (Inl e, s') \<Longrightarrow> fsFiles s' = fsFiles s"
  by (auto simp: writeTemp_def bindIO_Inl dest!: sysErr_files)

lemma fsView_install:
  "fsValid c k \<Longrightarrow>
   fsView c (install (fsBase c @ CHR ''/'' # k) f s) =
     (fsView c s)(k \<mapsto> (fData f, generateETag c k (fMod f)))"
  by (auto simp: fsView_def install_def fun_eq_iff)

lemma lookupPath_view:
  assumes "fsValid c k"
  shows "lookupPath s (fsBase c @ CHR ''/'' # k) = LFile f \<Longrightarrow>
      fsView c s k = Some (fData f, generateETag c k (fMod f))"
    and "lookupPath s (fsBase c @ CHR ''/'' # k) \<in> {LAbsent, LDir, LNotDir} \<Longrightarrow> fsView c s k = None"
  using assms by (auto simp: lookupPath_def fsView_def split: option.splits if_splits)

text \<open>What one of the three ways of publishing does: nothing, or the one write it was asked for.\<close>

lemma sysErr_view: "sysErr m s = (r, s') \<Longrightarrow> fsView c s' = fsView c s"
  by (rule fsView_cong, rule sysErr_files)

lemma sysErr_lookup: "sysErr m s = (r, s') \<Longrightarrow> lookupPath s' p = lookupPath s p"
  by (auto simp: sysErr_def sys_def lookupPath_def belowFile_def split: bool.splits)

lemma renameFile_dir:
  "lookupPath s p = LDir \<Longrightarrow> renameFile p f s = (r, s') \<Longrightarrow> fsView c s' = fsView c s \<and> \<not> isOk r"
  by (auto simp: renameFile_def sysErr_lookup split: prod.splits sum.splits
      dest: sysErr_view [where c = c])

lemma renameFile_effect:
  assumes v: "fsValid c k" and p: "renameFile (fsBase c @ CHR ''/'' # k) f s = (r, s')"
  shows "case r of Inr _ \<Rightarrow> \<exists>e. fsView c s' = (fsView c s)(k \<mapsto> (fData f, e))
          | Inl err \<Rightarrow> fsView c s' = fsView c s \<and> \<not> isConditionalPut err"
proof -
  obtain r1 s1 where s1: "sysErr ''failed to rename file'' s = (r1, s1)" by fastforce
  note V = sysErr_view [OF s1, of c]
  show ?thesis
  proof (cases r1)
    case (Inl e)
    with p s1 V sysErr_err show ?thesis by (fastforce simp: renameFile_def)
  next
    case (Inr u)
    with p s1 V fsView_install [OF v] show ?thesis
      by (cases "lookupPath s1 (fsBase c @ CHR ''/'' # k)") (auto simp: renameFile_def)
  qed
qed

lemma linkFile_effect:
  assumes v: "fsValid c k" and p: "linkFile k (fsBase c @ CHR ''/'' # k) f s = (r, s')"
  shows "case r of Inr _ \<Rightarrow> fsView c s k = None \<and> (\<exists>e. fsView c s' = (fsView c s)(k \<mapsto> (fData f, e)))
          | Inl err \<Rightarrow> fsView c s' = fsView c s"
proof -
  obtain r1 s1 where s1: "sysErr ''failed to link file'' s = (r1, s1)" by fastforce
  note V = sysErr_view [OF s1, of c]
  show ?thesis
  proof (cases r1)
    case (Inl e)
    with p s1 V show ?thesis by (auto simp: linkFile_def)
  next
    case (Inr u)
    with p s1 V fsView_install [OF v] lookupPath_view(2) [OF v, of s1] show ?thesis
      by (cases "lookupPath s1 (fsBase c @ CHR ''/'' # k)") (auto simp: linkFile_def)
  qed
qed

lemma putIfMatch_effect:
  assumes v: "fsValid c k" and p: "putIfMatch c k (fsBase c @ CHR ''/'' # k) f tag s = (r, s')"
  shows "case r of Inr _ \<Rightarrow> (\<exists>d. fsView c s k = Some (d, tag)) \<and>
              (\<exists>e. fsView c s' = (fsView c s)(k \<mapsto> (fData f, e)))
          | Inl err \<Rightarrow> fsView c s' = fsView c s"
proof -
  obtain r1 s1 where s1: "sysErr ''failed to stat file for conditional put'' s = (r1, s1)"
    by fastforce
  note V = sysErr_view [OF s1, of c]
  show ?thesis
  proof (cases r1)
    case (Inl e)
    with p s1 V show ?thesis by (auto simp: putIfMatch_def)
  next
    case (Inr u)
    show ?thesis
    proof (cases "lookupPath s1 (fsBase c @ CHR ''/'' # k)")
      case (LFile f0)
      with p s1 V Inr lookupPath_view(1) [OF v LFile] show ?thesis
        by (auto simp: putIfMatch_def split: if_splits sum.splits dest!: renameFile_effect [OF v])
    next
      case LDir
      with p s1 V Inr renameFile_dir [OF LDir, of f r s' c] show ?thesis
        by (auto simp: putIfMatch_def split: if_splits sum.splits)
    qed (use p s1 V Inr in \<open>auto simp: putIfMatch_def\<close>)
  qed
qed

lemma publish_effect:
  assumes v: "fsValid c k"
    and p: "publish c k (fsBase c @ CHR ''/'' # k) opts f s = (r, s')"
  shows "putEffect k (fData f) opts r (fsView c s) (fsView c s')"
  using p linkFile_effect [OF v, of f s r s'] putIfMatch_effect [OF v, of f "IfMatch opts" s r s']
    renameFile_effect [OF v, of f s r s']
  by (auto simp: publish_def putEffect_def putPre_def split: if_splits sum.splits)

lemma fsPut_law:
  assumes v: "fsValid c k" and p: "fsPutObject c k d opts s = (r, s')"
  shows "putEffect k d opts r (fsView c s) (fsView c s')"
proof -
  have path: "getFullPath (fsBase c) k = Some (fsBase c @ CHR ''/'' # k)"
    using v by (simp add: fsValid_def getFullPath_canonical)
  let ?p = "fsBase c @ CHR ''/'' # k"
  obtain r1 s1 where s1: "mkdirAll (DirOf ?p) s = (r1, s1)" by fastforce
  obtain r2 s2 where s2: "writeTemp d s1 = (r2, s2)" by fastforce
  have V1: "fsView c s1 = fsView c s" by (rule fsView_cong, rule mkdirAll_files [OF s1])
  have V2: "fsView c s2 = fsView c s1"
    by (rule fsView_cong, cases r2) (use s2 writeTemp_ok writeTemp_err in auto)
  show ?thesis
  proof (cases r1)
    case (Inl e)
    with p path s1 V1 show ?thesis by (auto simp: fsPutObject_def bindIO_def putEffect_def)
  next
    case r1: (Inr u)
    show ?thesis
    proof (cases r2)
      case (Inl e)
      with r1 p path s1 s2 V1 V2 show ?thesis
        by (auto simp: fsPutObject_def bindIO_def putEffect_def)
    next
      case (Inr f)
      obtain r3 s3 where s3: "publish c k ?p opts f s2 = (r3, s3)" by fastforce
      from Inr s2 have "fData f = d" using writeTemp_ok by blast
      with publish_effect [OF v s3] have "putEffect k d opts r3 (fsView c s) (fsView c s3)"
        by (simp add: V1 V2)
      moreover have "fsView c (snd (sys s3)) = fsView c s3" by (rule fsView_cong) simp
      ultimately show ?thesis
        using p path s1 s2 s3 r1 Inr
        by (auto simp: fsPutObject_def bindIO_def putEffect_def split: sum.splits)
    qed
  qed
qed

lemma fsGet_law:
  assumes v: "fsValid c k" and p: "fsGetObject c k s = (r, s')"
  shows "fsView c s' = fsView c s \<and> getEffect k r (fsView c s)"
proof -
  have path: "getFullPath (fsBase c) k = Some (fsBase c @ CHR ''/'' # k)"
    using v by (simp add: fsValid_def getFullPath_canonical)
  obtain r1 s1 where s1: "sysErr ''failed to open file'' s = (r1, s1)" by fastforce
  note V1 = sysErr_view [OF s1, of c]
  show ?thesis
  proof (cases r1)
    case (Inl e)
    with p path s1 V1 sysErr_not_exist [of _ s e s1] show ?thesis
      by (auto simp: fsGetObject_def getEffect_def)
  next
    case (Inr u)
    show ?thesis
    proof (cases "lookupPath s1 (fsBase c @ CHR ''/'' # k)")
      case (LFile f)
      obtain r2 s2 where s2: "sysErr ''read failed'' s1 = (r2, s2)" by fastforce
      from LFile p path s1 s2 Inr V1 sysErr_view [OF s2, of c] lookupPath_view(1) [OF v LFile]
        sysErr_not_exist [of _ s1 _ s2]
      show ?thesis by (cases r2) (auto simp: fsGetObject_def getEffect_def)
    qed (use p path s1 Inr V1 lookupPath_view(2) [OF v, of s1] in
        \<open>auto simp: fsGetObject_def getEffect_def\<close>)
  qed
qed

lemma fsStat_law:
  assumes v: "fsValid c k" and p: "fsStatObject c k s = (r, s')"
  shows "fsView c s' = fsView c s \<and> statEffect k r (fsView c s)"
proof -
  have path: "getFullPath (fsBase c) k = Some (fsBase c @ CHR ''/'' # k)"
    using v by (simp add: fsValid_def getFullPath_canonical)
  obtain r1 s1 where s1: "sysErr ''failed to stat file'' s = (r1, s1)" by fastforce
  note V1 = sysErr_view [OF s1, of c]
  show ?thesis
  proof (cases r1)
    case (Inl e)
    with p path s1 V1 sysErr_not_exist [of _ s e s1] show ?thesis
      by (auto simp: fsStatObject_def statEffect_def)
  next
    case (Inr u)
    then show ?thesis
      using p path s1 V1 lookupPath_view [OF v, of s1]
      by (cases "lookupPath s1 (fsBase c @ CHR ''/'' # k)")
        (auto simp: fsStatObject_def statEffect_def)
  qed
qed

lemma fsRemove_law:
  assumes v: "fsValid c k" and p: "fsRemoveObject c k s = (r, s')"
  shows "removeEffect k r (fsView c s) (fsView c s')"
proof -
  have path: "getFullPath (fsBase c) k = Some (fsBase c @ CHR ''/'' # k)"
    using v by (simp add: fsValid_def getFullPath_canonical)
  obtain r1 s1 where s1: "sysErr ''failed to remove file'' s = (r1, s1)" by fastforce
  note V1 = sysErr_view [OF s1, of c]
  have D: "fsView c (s1\<lparr>fsDirs := ds\<rparr>) = fsView c s1" for ds by (rule fsView_cong) simp
  have F: "fsView c (s1\<lparr>fsFiles := AList.delete (fsBase c @ CHR ''/'' # k) (fsFiles s1)\<rparr>) =
      (fsView c s1)(k := None)"
    by (auto simp: fsView_def fun_eq_iff)
  show ?thesis
  proof (cases r1)
    case (Inl e)
    with p path s1 V1 show ?thesis by (auto simp: fsRemoveObject_def removeEffect_def)
  next
    case (Inr u)
    then show ?thesis
      using p path s1 V1 D F lookupPath_view(2) [OF v, of s1]
      by (cases "lookupPath s1 (fsBase c @ CHR ''/'' # k)")
        (auto simp: fsRemoveObject_def removeEffect_def fun_upd_idem split: if_splits)
  qed
qed

lemma walkInfos_view:
  "walkInfos c pfs s = (is, s') \<Longrightarrow> fsFiles s' = fsFiles s \<and>
     (\<forall>i \<in> set is. \<exists>p f. (p, f) \<in> set pfs \<and> oiKey i = TrimPrefix p (fsBase c @ ''/''))"
proof (induction pfs arbitrary: s "is" s')
  case Nil
  then show ?case by simp
next
  case (Cons pf pfs)
  obtain p f where pf: "pf = (p, f)" by fastforce
  obtain failed s1 where s1: "sys s = (failed, s1)" by fastforce
  obtain is2 s2 where s2: "walkInfos c pfs s1 = (is2, s2)" by fastforce
  have "fsFiles s1 = fsFiles s" using s1 fsFiles_sys [of s] by simp
  with Cons.IH [OF s2] have IH: "fsFiles s2 = fsFiles s"
    "\<forall>i \<in> set is2. \<exists>p f. (p, f) \<in> set pfs \<and> oiKey i = TrimPrefix p (fsBase c @ ''/'')" by auto
  have "s' = s2" and "is = is2 \<or> (\<exists>i. is = i # is2 \<and> oiKey i = TrimPrefix p (fsBase c @ ''/''))"
    using Cons.prems s1 s2 pf by (auto simp: Let_def split: if_splits)
  then show ?case using IH pf by fastforce
qed

lemma walked_key_exists:
  assumes r: "root = fsBase c \<or> HasPrefix root (fsBase c @ ''/'')"
    and m: "(p, f) \<in> set (walkFiles s root rec)"
    and v: "fsValid c (TrimPrefix p (fsBase c @ ''/''))"
  shows "fsView c s (TrimPrefix p (fsBase c @ ''/'')) \<noteq> None"
proof -
  from m have pf: "(p, f) \<in> set (fsFiles s)" and "p = root \<or> HasPrefix p (root @ ''/'')"
    by (auto simp: walkFiles_def)
  with r have "p = fsBase c \<or> HasPrefix p (fsBase c @ ''/'')"
    by (auto simp: HasPrefix_iff prefix_def)
  moreover have "p \<noteq> fsBase c"
  proof
    assume "p = fsBase c"
    then have "TrimPrefix p (fsBase c @ ''/'') = fsBase c"
      by (simp add: TrimPrefix_def HasPrefix_iff prefix_def)
    with v show False using canonicalKey_not_rooted by (auto simp: fsValid_def baseOK_def)
  qed
  ultimately obtain k where k: "p = (fsBase c @ ''/'') @ k" by (auto simp: HasPrefix_iff prefix_def)
  then have "TrimPrefix p (fsBase c @ ''/'') = k" using TrimPrefix_append by metis
  moreover have "map_of (fsFiles s) p \<noteq> None" using pf by (metis map_of_eq_None_iff fst_conv image_eqI)
  ultimately show ?thesis using k v by (simp add: fsView_def)
qed

lemma getFullPath_under:
  "getFullPath b k = Some p \<Longrightarrow> p = b \<or> HasPrefix p (b @ ''/'')"
  by (auto simp: getFullPath_def Let_def split: if_splits)

lemma fsList_law:
  assumes "fsListObjects c pre rec s = (r, s')"
  shows "fsView c s' = fsView c s \<and> listEffect (fsValid c) (\<lambda>k. fsView c s k \<noteq> None) r"
proof (cases "getFullPath (fsBase c) pre")
  case None
  with assms show ?thesis by (auto simp: fsListObjects_def listEffect_def)
next
  case (Some root)
  obtain failed s1 where s1: "sys s = (failed, s1)" by fastforce
  then have f1: "fsFiles s1 = fsFiles s" using fsFiles_sys [of s] by simp
  note V1 = fsView_cong [OF f1, of c]
  obtain ws s2 where s2: "walkInfos c (walkFiles s1 root rec) s1 = (ws, s2)" by fastforce
  note W = walkInfos_view [OF s2]
  have V2: "fsView c s2 = fsView c s1" using W by (intro fsView_cong) simp
  have "fsView c s1 (oiKey i) \<noteq> None" if i: "i \<in> set ws" "fsValid c (oiKey i)" for i
  proof -
    from W i(1) obtain p f where "(p, f) \<in> set (walkFiles s1 root rec)"
      and k: "oiKey i = TrimPrefix p (fsBase c @ ''/'')" by metis
    from walked_key_exists [OF getFullPath_under [OF Some] this(1)] k i(2) show ?thesis by simp
  qed
  then have ok: "listEffect (fsValid c) (\<lambda>k. fsView c s1 k \<noteq> None) (Inr ws)"
    unfolding listEffect_def by simp
  show ?thesis
  proof (cases "\<not> failed \<and> lookupPath s1 root = LAbsent")
    case True
    then have "r = Inr []" "s' = s1" using assms Some s1 by (simp_all add: fsListObjects_def)
    then show ?thesis by (simp add: V1 listEffect_def)
  next
    case False
    then have "fsListObjects c pre rec s = (Inr ws, s2)"
      using Some s1 s2 by (auto simp: fsListObjects_def)
    with assms have "r = Inr ws" "s' = s2" by simp_all
    with ok V1 V2 show ?thesis by metis
  qed
qed

interpretation fsb: backend_contract "fsBackend c" "fsView c" "fsSame c" "fsValid c" for c
proof unfold_locales
  fix k d opts s r s'
  assume "fsValid c k" "PutObject (fsBackend c) k d opts s = (r, s')"
  then show "\<exists>t. fsSame c s t \<and> putEffect k d opts r (fsView c t) (fsView c s')"
    using fsPut_law by (fastforce simp: fsBackend_def fsSame_def)
next
  fix k s rg s'
  assume "fsValid c k" "GetObject (fsBackend c) k s = (rg, s')"
  then show "\<exists>t. fsSame c s t \<and> fsView c s' = fsView c t \<and> getEffect k rg (fsView c t)"
    using fsGet_law by (fastforce simp: fsBackend_def fsSame_def)
next
  fix k s rs s'
  assume "fsValid c k" "StatObject (fsBackend c) k s = (rs, s')"
  then show "\<exists>t. fsSame c s t \<and> fsView c s' = fsView c t \<and> statEffect k rs (fsView c t)"
    using fsStat_law by (fastforce simp: fsBackend_def fsSame_def)
next
  fix k s r s'
  assume "fsValid c k" "RemoveObject (fsBackend c) k s = (r, s')"
  then show "\<exists>t. fsSame c s t \<and> removeEffect k r (fsView c t) (fsView c s')"
    using fsRemove_law by (fastforce simp: fsBackend_def fsSame_def)
next
  fix p rec s rl s'
  assume "ListObjects (fsBackend c) p rec s = (rl, s')"
  then have "fsView c s' = fsView c s" "listEffect (fsValid c) (\<lambda>k. fsView c s k \<noteq> None) rl"
    using fsList_law [of c p rec s rl s'] by (simp_all add: fsBackend_def)
  then show "\<exists>t. fsSame c s t \<and> fsView c s' = fsView c t \<and>
      listEffect (fsValid c) (\<lambda>k. \<exists>t'. fsSame c s t' \<and> fsView c t' k \<noteq> None) rl"
    by (intro exI [of _ s]) (auto simp: fsSame_def listEffect_def split: sum.splits)
qed

lemma fsSame_stable [simp]: "stable (fsView c) (fsSame c) k"
  by (simp add: stable_def fsSame_def)

interpretation fsa: atomic_store "fsBackend c" "fsView c" "fsSame c" "fsValid c" for c
  by unfold_locales (simp add: fsSame_def)

text \<open>The clock does not run backwards during a put.\<close>

definition keepsTime :: "(fs, 'a) io \<Rightarrow> bool" where
  "keepsTime m = (\<forall>s. fsClock s \<le> fsClock (snd (m s)))"

lemma keepsTime_sysErr [simp]: "keepsTime (sysErr m)"
  by (auto simp: keepsTime_def sysErr_def sys_def split: bool.splits)

lemma keepsTime_ret [simp]: "keepsTime (\<lambda>s. (g s, s))" "keepsTime (Pair x)"
  by (simp_all add: keepsTime_def)

lemma keepsTime_bindIO:
  assumes "keepsTime m" and "\<And>a. keepsTime (f a)"
  shows "keepsTime (bindIO m f)"
  unfolding keepsTime_def
proof
  fix s
  obtain r1 s1 where m: "m s = (r1, s1)" by fastforce
  have "fsClock s \<le> fsClock s1" using assms(1) m by (auto simp: keepsTime_def dest: spec [of _ s])
  moreover have "fsClock s1 \<le> fsClock (snd (f a s1))" for a using assms(2) by (simp add: keepsTime_def)
  ultimately show "fsClock s \<le> fsClock (snd (bindIO m f s))"
    by (auto simp: bindIO_def m split: sum.splits intro: order_trans)
qed

lemma sysErr_clock: "sysErr m s = (r, s') \<Longrightarrow> fsClock s \<le> fsClock s'"
  using keepsTime_sysErr by (metis keepsTime_def snd_conv)

lemma keepsTime_publish: "keepsTime (publish c k p opts f)"
  by (auto simp: keepsTime_def publish_def linkFile_def renameFile_def putIfMatch_def install_def
      dest!: sysErr_clock split: prod.splits sum.splits lookup.splits)

lemma keepsTime_mkdirAll: "keepsTime (mkdirAll p)"
  by (auto simp: keepsTime_def mkdirAll_def dest!: sysErr_clock split: prod.splits sum.splits)

lemma keepsTime_fsPutObject: "keepsTime (fsPutObject c k d opts)"
proof (cases "getFullPath (fsBase c) k")
  case None
  then show ?thesis by (simp add: keepsTime_def fsPutObject_def)
next
  case (Some p)
  have "keepsTime (writeTemp d)"
    unfolding writeTemp_def by (intro keepsTime_bindIO) simp_all
  then have "keepsTime (bindIO (mkdirAll (DirOf p)) (\<lambda>_.
      bindIO (writeTemp d) (\<lambda>f. bindIO (publish c k p opts f) (\<lambda>_ s'. (Inr (), snd (sys s'))))))"
    by (intro keepsTime_bindIO keepsTime_mkdirAll keepsTime_publish) (simp_all add: keepsTime_def sys_def)
  with Some show ?thesis by (simp add: keepsTime_def fsPutObject_def)
qed

lemma fsPut_clock: "PutObject (fsBackend c) k d opts s = (r, s') \<Longrightarrow> fsClock s \<le> fsClock s'"
  using keepsTime_fsPutObject [of c k d opts] by (auto simp: keepsTime_def fsBackend_def dest: spec [of _ s])

lemma fsGet_clock: "GetObject (fsBackend c) k s = (r, s') \<Longrightarrow> fsClock s \<le> fsClock s'"
  by (auto simp: fsBackend_def fsGetObject_def dest!: sysErr_clock
      split: option.splits prod.splits sum.splits lookup.splits)

lemma fsRemove_clock: "RemoveObject (fsBackend c) k s = (r, s') \<Longrightarrow> fsClock s \<le> fsClock s'"
  by (auto simp: fsBackend_def fsRemoveObject_def dest!: sysErr_clock
      split: option.splits prod.splits sum.splits lookup.splits if_splits)

section \<open>A disk to evaluate on\<close>

text \<open>
  A node on this disk reads the disk's clock, has no leader predicate and draws keys from the
  clock. The sample disk is
  empty but for its base directory, its calls never fail and each takes a nanosecond; the sample
  configuration uses an injective stand-in for the digest.
\<close>

definition fsHost :: "fs host" where
  "fsHost = \<lparr>now = fsClock, isLeaderF = None,
     GenerateKey = (\<lambda>alg s. Inr \<lparr>Public = \<lparr>pk_alg = alg, pk_id = replicate (nat (fsClock s)) CHR ''k''\<rparr>\<rparr>),
     ToASCII = Some, MarshalPKIX = (\<lambda>pub. Inr (pk_id pub)), Sha256Hex = (\<lambda>x. ''h'' @ x), RFC3339 = (\<lambda>t. []),
     WaitFor = (\<lambda>d s. (True, s))\<rparr>"

definition sampleConfig :: fsb where
  "sampleConfig = \<lparr>fsBase = ''/d'', fsMD5 = (\<lambda>x. CHR ''m'' # x),
     fsTimeString = (\<lambda>t. replicate (nat t) CHR ''t'')\<rparr>"

definition sampleDisk :: "(string \<times> blob) list \<Rightarrow> fs" where
  "sampleDisk objs =
     \<lparr>fsFiles = map (\<lambda>(k, b). (''/d/'' @ k, \<lparr>fData = b, fMod = 0\<rparr>)) objs, fsDirs = [''/d''],
      fsDirTime = (\<lambda>_. 0), fsClock = 0, fsCalls = 0, fsFails = (\<lambda>_. False), fsElapses = (\<lambda>_. 1)\<rparr>"

lemma sampleConfig_tag: "StatObject (fsBackend sampleConfig) k s = (Inr i, s') \<Longrightarrow> oiETag i \<noteq> []"
  by (auto simp: fsBackend_def fsStatObject_def sampleConfig_def generateETag_def
      split: option.splits prod.splits sum.splits lookup.splits)

section \<open>Properties\<close>

text \<open>
  C31: \<open>getFullPath\<close> confines every key. Over a cleaned absolute base other than the root it
  refuses exactly the keys that have a ".." segment, and any other key names the base itself
  or a path of plain segments below it.
\<close>

theorem path_confined:
  assumes "baseOK base"
  shows "case getFullPath base key of
           None \<Rightarrow> ''..'' \<in> set (Split key CHR ''/'')
         | Some p \<Rightarrow> ''..'' \<notin> set (Split key CHR ''/'') \<and>
             (p = base \<or> (\<exists>k'. canonicalKey k' \<and> p = base @ ''/'' @ k'))"
proof (cases "''..'' \<in> set (Split key CHR ''/'')")
  case True
  then show ?thesis by (auto simp: getFullPath_def list_ex_iff)
next
  case False
  with getFullPath_cases [OF assms False] show ?thesis by auto
qed

theorem path_confined_witness:
  "getFullPath ''/d'' ''certs//a'' = Some ''/d/certs/a'' \<and>
   getFullPath ''/d'' ''certs/../../etc'' = None \<and>
   (case getFullPath ''/d'' ''certs//a'' of
      None \<Rightarrow> ''..'' \<in> set (Split ''certs//a'' CHR ''/'')
    | Some p \<Rightarrow> ''..'' \<notin> set (Split ''certs//a'' CHR ''/'') \<and>
        (p = ''/d'' \<or> (\<exists>k'. canonicalKey k' \<and> p = ''/d'' @ ''/'' @ k')))"
proof -
  have b: "baseOK ''/d''" by code_simp
  have "getFullPath ''/d'' ''certs//a'' = Some ''/d/certs/a''" by code_simp
  moreover have "getFullPath ''/d'' ''certs/../../etc'' = None" by code_simp
  ultimately show ?thesis using path_confined [OF b, of "''certs//a''"] by (intro conjI)
qed


text \<open>
  What a create-once put stored stays: it is what a later read returns, and a second
  create-once put of the key cannot succeed.
\<close>

theorem fs_create_once:
  assumes "fsValid c k"
    and "PutObject (fsBackend c) k d (createOnce ct) s = (Inr u, s1)"
    and "PutObject (fsBackend c) k d' (createOnce ct') s1 = (r, s2)"
    and "GetObject (fsBackend c) k s2 = (Inr got, s3)"
  shows "got = d \<and> \<not> isOk r"
proof -
  obtain e where e: "fsView c s1 k = Some (d, e)" using fsb.put_ok [OF assms(1,2)] by blast
  from fsb.create_keeps [OF assms(1,3) fsSame_stable e]
  have "fsView c s2 k = Some (d, e)" .
  with fsa.get_effect [OF assms(1,4)] have "got = d" by (simp add: getEffect_def)
  moreover from fsa.put_effect [OF assms(1,3)] e have "\<not> isOk r"
    by (auto simp: putEffect_def split: sum.splits)
  ultimately show ?thesis by simp
qed

theorem fs_create_once_witness:
  "\<exists>r s1 s2 s3 got.
     PutObject (fsBackend sampleConfig) ''keys/a'' (Text ''x'') (createOnce []) (sampleDisk []) = (Inr (), s1) \<and>
     PutObject (fsBackend sampleConfig) ''keys/a'' (Text ''y'') (createOnce []) s1 = (r, s2) \<and>
     GetObject (fsBackend sampleConfig) ''keys/a'' s2 = (Inr got, s3) \<and>
     got = Text ''x'' \<and> \<not> isOk r"
proof -
  let ?B = "fsBackend sampleConfig"
  define s1 where "s1 = snd (PutObject ?B ''keys/a'' (Text ''x'') (createOnce []) (sampleDisk []))"
  define s2 where "s2 = snd (PutObject ?B ''keys/a'' (Text ''y'') (createOnce []) s1)"
  define r where "r = fst (PutObject ?B ''keys/a'' (Text ''y'') (createOnce []) s1)"
  define s3 where "s3 = snd (GetObject ?B ''keys/a'' s2)"
  have v: "fsValid sampleConfig ''keys/a''" by code_simp
  have "fst (PutObject ?B ''keys/a'' (Text ''x'') (createOnce []) (sampleDisk [])) = Inr ()" by code_simp
  then have p1: "PutObject ?B ''keys/a'' (Text ''x'') (createOnce []) (sampleDisk []) = (Inr (), s1)"
    by (simp add: s1_def prod_eq_iff)
  have p2: "PutObject ?B ''keys/a'' (Text ''y'') (createOnce []) s1 = (r, s2)"
    by (simp add: s2_def r_def)
  have "isOk (fst (GetObject ?B ''keys/a'' s2))" unfolding s2_def s1_def by code_simp
  then obtain got where g: "GetObject ?B ''keys/a'' s2 = (Inr got, s3)"
    by (metis isOk_E prod.collapse s3_def)
  from fs_create_once [OF v p1 p2 g] p1 p2 g show ?thesis by blast
qed

end
