(* ===== verification/Lease.thy ===== *)
theory Lease
  imports Filesystem Layout
begin

text \<open>
  lease.go and storage_probe.go: the issuance lease a node takes in shared storage before it
  drives an order, and the start-up probe for the conditional writes the lease rests on.

  The first section is the code, call by call. The second cuts \<open>acquire\<close> and the release
  function into single storage calls (\<open>nodeStep\<close>), and lets any number of nodes, crashes and
  clock ticks interleave (\<open>lstep\<close>); the lemmas show that running \<open>nodeStep\<close> without
  interruption is \<open>acquire\<close>, and that two unexpired leases are never held at once.
\<close>

section \<open>The code\<close>

definition issueLeaseTTL :: duration where
  "issueLeaseTTL = 5 * Minute"

record 's issueLeaser =
  ilBackend :: "'s backend option"
  ilPrefix :: string
  ilNodeID :: string
  ilTTL :: duration

record leaseRecord =
  Owner :: string
  ExpiresAt :: int

definition leaseKey :: "'s issueLeaser \<Rightarrow> string \<Rightarrow> string" where
  "leaseKey l domain = ilPrefix l @ ''locks/issue/'' @ ToLower domain"

definition marshalLease :: "leaseRecord \<Rightarrow> blob" where
  "marshalLease rec = Json (JObj [(''owner'', JStr (Owner rec)), (''expires_at'', JNum (ExpiresAt rec))])"

definition unmarshalLease :: "blob \<Rightarrow> error + leaseRecord" where
  "unmarshalLease raw =
     (case jsonOf raw of
        Inl e \<Rightarrow> Inl e
      | Inr j \<Rightarrow>
          (case jsonMembers j of
             Inl e \<Rightarrow> Inl e
           | Inr kvs \<Rightarrow>
               (case decStr ''owner'' kvs [] of
                  Inl e \<Rightarrow> Inl e
                | Inr w \<Rightarrow>
                    (case decInt ''expires_at'' kvs 0 of
                       Inl e \<Rightarrow> Inl e
                     | Inr x \<Rightarrow> Inr \<lparr>Owner = w, ExpiresAt = x\<rparr>))))"

definition leaseTakeOver :: "'s backend \<Rightarrow> string \<Rightarrow> blob \<Rightarrow> string \<Rightarrow> 's \<Rightarrow> bool \<times> 's" where
  "leaseTakeOver B key data etag s =
     (case PutObject B key data (replaceIf ''application/json'' etag) s of
        (Inr _, s') \<Rightarrow> (True, s')
      | (Inl err, s') \<Rightarrow> (False, s'))"

definition leaseTryCreate :: "'s backend \<Rightarrow> string \<Rightarrow> blob \<Rightarrow> 's \<Rightarrow> bool \<times> 's" where
  "leaseTryCreate B key data s =
     (case PutObject B key data (createOnce ''application/json'') s of
        (Inr _, s') \<Rightarrow> (True, s')
      | (Inl err, s') \<Rightarrow> (False, s'))"

definition leaseRead :: "'s backend \<Rightarrow> string \<Rightarrow> ('s, leaseRecord) io" where
  "leaseRead B key = bindIO (GetObject B key) (\<lambda>raw s. (unmarshalLease raw, s))"

definition releaser :: "'s backend \<Rightarrow> string \<Rightarrow> string \<Rightarrow> 's \<Rightarrow> 's" where
  "releaser B nodeID key s =
     (case leaseRead B key s of
        (Inr rec, s') \<Rightarrow> if Owner rec \<noteq> nodeID then s' else snd (RemoveObject B key s')
      | (Inl err, s') \<Rightarrow> snd (RemoveObject B key s'))"

definition newLease :: "'s host \<Rightarrow> 's issueLeaser \<Rightarrow> 's \<Rightarrow> leaseRecord" where
  "newLease H l s = \<lparr>Owner = ilNodeID l, ExpiresAt = Unix (now H s + ilTTL l)\<rparr>"

definition acquire ::
  "'s host \<Rightarrow> 's issueLeaser \<Rightarrow> string \<Rightarrow> 's \<Rightarrow> ('s \<Rightarrow> 's) option \<times> 's" where
  "acquire H l domain s =
     (case ilBackend l of
        None \<Rightarrow> (Some (\<lambda>s. s), s)
      | Some B \<Rightarrow>
          (let key = leaseKey l domain;
               data = marshalLease (newLease H l s);
               release = releaser B (ilNodeID l) key
           in case leaseTryCreate B key data s of
                (True, s1) \<Rightarrow> (Some release, s1)
              | (False, s1) \<Rightarrow>
                  (case StatObject B key s1 of
                     (Inl err, s2) \<Rightarrow> (None, s2)
                   | (Inr info, s2) \<Rightarrow>
                       (case leaseRead B key s2 of
                          (Inl err, s3) \<Rightarrow> (None, s3)
                        | (Inr existing, s3) \<Rightarrow>
                            if Unix (now H s3) < ExpiresAt existing then (None, s3)
                            else (case leaseTakeOver B key data (oiETag info) s3 of
                                    (True, s4) \<Rightarrow> (Some release, s4)
                                  | (False, s4) \<Rightarrow> (None, s4))))))"

text \<open>
  storage_probe.go. \<open>randID\<close> is the fresh random suffix of the probe's key; the deferred
  removal runs whatever the result.
\<close>

definition verifyConditionalWrites :: "'s backend \<Rightarrow> string \<Rightarrow> string \<Rightarrow> ('s, bool) io" where
  "verifyConditionalWrites B pre randID s =
     (let key = pre @ ''locks/.probe-'' @ randID;
          create = PutObject B key (Text ''probe'') (createOnce []);
          cleanup = (\<lambda>(r, s). (r, snd (RemoveObject B key s)))
      in case create s of
           (Inl e, s1) \<Rightarrow> cleanup (Inl (Msg ''conditional-write probe: first create'' # e), s1)
         | (Inr _, s1) \<Rightarrow>
             (case create s1 of
                (Inr _, s2) \<Rightarrow> cleanup (Inr False, s2)
              | (Inl e, s2) \<Rightarrow>
                  if isConditionalPut e then cleanup (Inr True, s2)
                  else cleanup (Inl (Msg ''conditional-write probe: second create'' # e), s2)))"

section \<open>One storage call at a time\<close>

datatype lpc =
    Idle
  | TryingCreate leaseRecord
  | Inspecting leaseRecord
  | Reading leaseRecord string
  | TakingOver leaseRecord string
  | Held leaseRecord
  | ReleaseReading leaseRecord
  | ReleaseDeleting leaseRecord

fun nodeStep ::
  "'s host \<Rightarrow> 's backend \<Rightarrow> 's issueLeaser \<Rightarrow> string \<Rightarrow> lpc \<Rightarrow> 's \<Rightarrow> lpc \<times> 's" where
  "nodeStep H B l key Idle s = (TryingCreate (newLease H l s), s)"
| "nodeStep H B l key (TryingCreate r) s =
     (case leaseTryCreate B key (marshalLease r) s of
        (True, s') \<Rightarrow> (Held r, s') | (False, s') \<Rightarrow> (Inspecting r, s'))"
| "nodeStep H B l key (Inspecting r) s =
     (case StatObject B key s of
        (Inl err, s') \<Rightarrow> (Idle, s') | (Inr info, s') \<Rightarrow> (Reading r (oiETag info), s'))"
| "nodeStep H B l key (Reading r etag) s =
     (case leaseRead B key s of
        (Inl err, s') \<Rightarrow> (Idle, s')
      | (Inr existing, s') \<Rightarrow>
          if Unix (now H s') < ExpiresAt existing then (Idle, s') else (TakingOver r etag, s'))"
| "nodeStep H B l key (TakingOver r etag) s =
     (case leaseTakeOver B key (marshalLease r) etag s of
        (True, s') \<Rightarrow> (Held r, s') | (False, s') \<Rightarrow> (Idle, s'))"
| "nodeStep H B l key (Held r) s = (ReleaseReading r, s)"
| "nodeStep H B l key (ReleaseReading r) s =
     (case leaseRead B key s of
        (Inr rec, s') \<Rightarrow> if Owner rec \<noteq> ilNodeID l then (Idle, s') else (ReleaseDeleting r, s')
      | (Inl err, s') \<Rightarrow> (ReleaseDeleting r, s'))"
| "nodeStep H B l key (ReleaseDeleting r) s = (Idle, snd (RemoveObject B key s))"


record 's lconf =
  lpcs :: "nat \<Rightarrow> lpc"
  lworld :: 's
  lseen :: "string set"

text \<open>The ETag a node has taken note of, the ETag in the store, and the record a node acts with.\<close>

fun notedTag :: "lpc \<Rightarrow> string set" where
  "notedTag (Reading r e) = {e}"
| "notedTag (TakingOver r e) = {e}"
| "notedTag p = {}"

definition storedTag :: "objects \<Rightarrow> string \<Rightarrow> string set" where
  "storedTag v key = (case v key of None \<Rightarrow> {} | Some (d, e) \<Rightarrow> {e})"

fun ownRecord :: "lpc \<Rightarrow> leaseRecord option" where
  "ownRecord Idle = None"
| "ownRecord (TryingCreate r) = Some r"
| "ownRecord (Inspecting r) = Some r"
| "ownRecord (Reading r e) = Some r"
| "ownRecord (TakingOver r e) = Some r"
| "ownRecord (Held r) = Some r"
| "ownRecord (ReleaseReading r) = Some r"
| "ownRecord (ReleaseDeleting r) = Some r"

fun holding :: "lpc \<Rightarrow> leaseRecord option" where
  "holding (Held r) = Some r"
| "holding (ReleaseReading r) = Some r"
| "holding (ReleaseDeleting r) = Some r"
| "holding p = None"

definition unexpired :: "time \<Rightarrow> leaseRecord \<Rightarrow> bool" where
  "unexpired t r = (Unix t < ExpiresAt r)"

text \<open>
  One step of the cluster: a node makes its next storage call, a node crashes (its lease
  stays), or time passes and the store stays as it is. A write that changes the object gives it
  an ETag nobody has seen (the premise on \<open>storedTag\<close>). With \<open>timely\<close>, a holder that
  releases makes its delete call before its lease expires, which is what \<open>issueLeaseTTL\<close> is
  sized for; without it the delete may come at any time.
\<close>

inductive lstep ::
  "bool \<Rightarrow> 's host \<Rightarrow> 's backend \<Rightarrow> ('s \<Rightarrow> objects) \<Rightarrow> (nat \<Rightarrow> 's issueLeaser) \<Rightarrow> string \<Rightarrow>
   's lconf \<Rightarrow> 's lconf \<Rightarrow> bool"
  for timely H B view L key
  where
    act: "nodeStep H B (L n) key (lpcs c n) (lworld c) = (p', s') \<Longrightarrow>
      now H (lworld c) \<le> now H s' \<Longrightarrow>
      view s' key \<noteq> view (lworld c) key \<longrightarrow> storedTag (view s') key \<inter> lseen c = {} \<Longrightarrow>
      (\<forall>r. timely \<and> lpcs c n = ReleaseDeleting r \<longrightarrow> unexpired (now H (lworld c)) r) \<Longrightarrow>
      lstep timely H B view L key c
        \<lparr>lpcs = (lpcs c)(n := p'), lworld = s',
         lseen = lseen c \<union> notedTag p' \<union> storedTag (view s') key\<rparr>"
  | crash: "lstep timely H B view L key c (c\<lparr>lpcs := (lpcs c)(n := Idle)\<rparr>)"
  | tick: "view s' key = view (lworld c) key \<Longrightarrow> now H (lworld c) \<le> now H s' \<Longrightarrow>
      lstep timely H B view L key c (c\<lparr>lworld := s'\<rparr>)"

inductive_cases lstepE: "lstep timely H B view L key c c'"

text \<open>The states reachable from a start in which every node is idle.\<close>

inductive lreach ::
  "bool \<Rightarrow> 's host \<Rightarrow> 's backend \<Rightarrow> ('s \<Rightarrow> objects) \<Rightarrow> (nat \<Rightarrow> 's issueLeaser) \<Rightarrow> string \<Rightarrow>
   's lconf \<Rightarrow> bool"
  for timely H B view L key
  where
    start: "lpcs c = (\<lambda>n. Idle) \<Longrightarrow> storedTag (view (lworld c)) key \<subseteq> lseen c \<Longrightarrow>
      lreach timely H B view L key c"
  | step: "lreach timely H B view L key c \<Longrightarrow> lstep timely H B view L key c c' \<Longrightarrow>
      lreach timely H B view L key c'"

section \<open>Lemmas\<close>

lemma unmarshal_marshalLease: "unmarshalLease (marshalLease r) = Inr r' \<Longrightarrow> r' = r"
  by (auto simp: unmarshalLease_def marshalLease_def ToLower_cmp ToLower_cmp [symmetric] split: if_splits)

lemma marshalLease_roundtrip:
  "int64_ok (ExpiresAt r) \<Longrightarrow> unmarshalLease (marshalLease r) = Inr r"
  by (simp add: unmarshalLease_def marshalLease_def ToLower_cmp ToLower_cmp [symmetric])

lemma marshalLease_inj: "marshalLease r = marshalLease r' \<longleftrightarrow> r = r'"
  by (cases r; cases r') (auto simp: marshalLease_def)

lemma leaseRead_Inr:
  "leaseRead B key s = (Inr r, s') \<longleftrightarrow>
     (\<exists>d. GetObject B key s = (Inr d, s') \<and> unmarshalLease d = Inr r)"
  by (auto simp: leaseRead_def bindIO_Inr)

lemma leaseRead_Get: "leaseRead B key s = (r, s') \<Longrightarrow> \<exists>g. GetObject B key s = (g, s')"
  by (auto simp: leaseRead_def bindIO_def split: prod.splits sum.splits)



lemma nodeStep_ownRecord:
  "nodeStep H B l key p s = (p', s') \<Longrightarrow>
     (\<And>r. ownRecord p = Some r \<Longrightarrow> Owner r = ilNodeID l) \<Longrightarrow>
     ownRecord p' = Some r' \<Longrightarrow> Owner r' = ilNodeID l"
  by (cases p) (auto simp: newLease_def split: prod.splits sum.splits bool.splits if_splits)

section \<open>Mutual exclusion\<close>

definition expiredLease :: "time \<Rightarrow> blob \<Rightarrow> bool" where
  "expiredLease t d = (case unmarshalLease d of Inl _ \<Rightarrow> False | Inr r \<Rightarrow> \<not> unexpired t r)"

text \<open>
  A node acts with its own record; an unexpired lease that is held is the record in the store;
  an ETag a node took note of has been seen; and a node about to take over found the object of
  that ETag expired.
\<close>

definition leaseInv ::
  "'s host \<Rightarrow> ('s \<Rightarrow> objects) \<Rightarrow> (nat \<Rightarrow> 's issueLeaser) \<Rightarrow> string \<Rightarrow> 's lconf \<Rightarrow> bool" where
  "leaseInv H view L key c =
     ((\<forall>n r. ownRecord (lpcs c n) = Some r \<longrightarrow> Owner r = ilNodeID (L n)) \<and>
      (\<forall>n r. holding (lpcs c n) = Some r \<longrightarrow> unexpired (now H (lworld c)) r \<longrightarrow>
         (\<exists>e. view (lworld c) key = Some (marshalLease r, e))) \<and>
      (\<forall>n. notedTag (lpcs c n) \<subseteq> lseen c - {[]}) \<and>
      (\<forall>n r e d. lpcs c n = TakingOver r e \<longrightarrow> view (lworld c) key = Some (d, e) \<longrightarrow>
         expiredLease (now H (lworld c)) d) \<and>
      storedTag (view (lworld c)) key \<subseteq> lseen c)"

lemma leaseInvD:
  assumes "leaseInv H view L key c"
  shows "ownRecord (lpcs c n) = Some r \<Longrightarrow> Owner r = ilNodeID (L n)"
    and "holding (lpcs c n) = Some r \<Longrightarrow> unexpired (now H (lworld c)) r \<Longrightarrow>
         \<exists>e. view (lworld c) key = Some (marshalLease r, e)"
    and "notedTag (lpcs c n) \<subseteq> lseen c - {[]}"
    and "lpcs c n = TakingOver r e \<Longrightarrow> view (lworld c) key = Some (d, e) \<Longrightarrow>
         expiredLease (now H (lworld c)) d"
    and "storedTag (view (lworld c)) key \<subseteq> lseen c"
  using assms unfolding leaseInv_def by blast+

lemma unexpired_before: "t \<le> u \<Longrightarrow> unexpired u r \<Longrightarrow> unexpired t r"
  using Unix_mono [of t u] by (simp add: unexpired_def)

lemma expiredLease_later: "t \<le> u \<Longrightarrow> expiredLease t d \<Longrightarrow> expiredLease u d"
  using unexpired_before by (auto simp: expiredLease_def split: sum.splits)

lemma expiredLease_marshal: "expiredLease t (marshalLease r) \<Longrightarrow> \<not> unexpired t r"
  using unmarshal_marshalLease by (fastforce simp: expiredLease_def split: sum.splits)

lemma holding_ownRecord: "holding p = Some r \<Longrightarrow> ownRecord p = Some r"
  by (cases p) auto

context atomic_store
begin

lemma tryCreate_effect:
  assumes "valid key" and "leaseTryCreate B key d s = (b, s')"
  shows "(b \<longrightarrow> (\<exists>e. view s' key = Some (d, e))) \<and>
    (view s' key = view s key \<or> view s key = None)"
proof -
  obtain r where r: "PutObject B key d (createOnce ''application/json'') s = (r, s')" "b \<longrightarrow> isOk r"
    using assms(2) by (auto simp: leaseTryCreate_def split: prod.splits sum.splits)
  from put_effect [OF assms(1) r(1)] r(2) show ?thesis
    by (auto simp: putEffect_def split: sum.splits)
qed

lemma takeOver_effect:
  assumes "valid key" and "leaseTakeOver B key d etag s = (b, s')" and "etag \<noteq> []"
  shows "(b \<longrightarrow> (\<exists>e. view s' key = Some (d, e))) \<and>
    (view s' key = view s key \<or> (\<exists>d0. view s key = Some (d0, etag)))"
proof -
  obtain r where r: "PutObject B key d (replaceIf ''application/json'' etag) s = (r, s')" "b \<longrightarrow> isOk r"
    using assms(2) by (auto simp: leaseTakeOver_def split: prod.splits sum.splits)
  from put_effect [OF assms(1) r(1)] r(2) assms(3) show ?thesis
    by (auto simp: putEffect_def split: sum.splits)
qed

lemma leaseRead_effect:
  assumes "valid key" and "leaseRead B key s = (r, s')"
  shows "view s' = view s \<and>
    (\<forall>x. r = Inr x \<longrightarrow> (\<exists>d e. view s key = Some (d, e) \<and> unmarshalLease d = Inr x))"
proof -
  obtain g where g: "GetObject B key s = (g, s')" using leaseRead_Get [OF assms(2)] by blast
  with get_effect [OF assms(1) g] assms(2) show ?thesis
    by (auto simp: leaseRead_Inr getEffect_def)
qed

text \<open>How one call of a node may change the lease object.\<close>

lemma nodeStep_object:
  assumes "valid key" and "nodeStep H B l key p s = (p', s')"
    and "\<forall>r e. p = TakingOver r e \<longrightarrow> e \<noteq> []"
    and "view s' key \<noteq> view s key"
  shows "(\<exists>r. p = TryingCreate r \<and> view s key = None) \<or>
    (\<exists>r d e. p = TakingOver r e \<and> view s key = Some (d, e)) \<or>
    (\<exists>r. p = ReleaseDeleting r)"
proof (cases p)
  case (TryingCreate r)
  then show ?thesis
    using assms tryCreate_effect [OF assms(1)] by (fastforce split: prod.splits bool.splits)
next
  case (TakingOver r e)
  then show ?thesis
    using assms takeOver_effect [OF assms(1)] by (fastforce split: prod.splits bool.splits)
next
  case (Inspecting r)
  then show ?thesis
    using assms stat_effect [OF assms(1)] by (fastforce split: prod.splits sum.splits)
next
  case (Reading r e)
  then show ?thesis
    using assms leaseRead_effect [OF assms(1)] by (fastforce split: prod.splits sum.splits if_splits)
next
  case (ReleaseReading r)
  then show ?thesis
    using assms leaseRead_effect [OF assms(1)] by (fastforce split: prod.splits sum.splits if_splits)
qed (use assms in auto)

text \<open>What a node that now holds the lease, or is about to take over, knows of the object.\<close>

lemma nodeStep_holding:
  assumes "valid key" and "nodeStep H B l key p s = (p', s')" and "holding p' = Some r"
    and "\<forall>r e. p = TakingOver r e \<longrightarrow> e \<noteq> []"
  shows "(\<exists>e. view s' key = Some (marshalLease r, e)) \<or> (holding p = Some r \<and> view s' key = view s key)"
proof (cases p)
  case (TryingCreate r)
  then show ?thesis
    using assms tryCreate_effect [OF assms(1)] by (fastforce split: prod.splits bool.splits)
next
  case (TakingOver r e)
  then show ?thesis
    using assms takeOver_effect [OF assms(1)] by (fastforce split: prod.splits bool.splits)
next
  case (ReleaseReading r)
  then show ?thesis
    using assms leaseRead_effect [OF assms(1)] by (fastforce split: prod.splits sum.splits if_splits)
qed (use assms in \<open>auto split: prod.splits sum.splits if_splits\<close>)

lemma nodeStep_takingOver:
  assumes "valid key" and "nodeStep H B l key p s = (TakingOver r e, s')"
  shows "p = Reading r e \<and> (\<forall>d e'. view s' key = Some (d, e') \<longrightarrow> expiredLease (now H s') d)"
proof -
  have p: "p = Reading r e"
    using assms(2) by (cases p) (auto split: prod.splits sum.splits bool.splits if_splits)
  with assms(2) obtain x where x: "leaseRead B key s = (Inr x, s')" "\<not> Unix (now H s') < ExpiresAt x"
    by (auto split: prod.splits sum.splits if_splits)
  from leaseRead_effect [OF assms(1) x(1)] x(2) p show ?thesis
    by (auto simp: expiredLease_def unexpired_def)
qed

lemma nodeStep_notedTag:
  assumes "nodeStep H B l key p s = (p', s')"
    and "\<forall>s i s'. StatObject B key s = (Inr i, s') \<longrightarrow> oiETag i \<noteq> []"
    and "[] \<notin> notedTag p"
  shows "[] \<notin> notedTag p'"
  using assms(1,3)
  by (cases p) (auto split: prod.splits sum.splits bool.splits if_splits dest: assms(2) [rule_format])

lemma act_preserves:
  assumes k: "valid key" and inv: "leaseInv H view L key c" and ids: "inj (\<lambda>n. ilNodeID (L n))"
    and tags: "\<forall>s i s'. StatObject B key s = (Inr i, s') \<longrightarrow> oiETag i \<noteq> []"
    and st: "nodeStep H B (L n) key (lpcs c n) (lworld c) = (p', s')"
    and clock: "now H (lworld c) \<le> now H s'"
    and fresh: "view s' key \<noteq> view (lworld c) key \<longrightarrow> storedTag (view s') key \<inter> lseen c = {}"
    and timely: "\<forall>r. lpcs c n = ReleaseDeleting r \<longrightarrow> unexpired (now H (lworld c)) r"
  shows "leaseInv H view L key \<lparr>lpcs = (lpcs c)(n := p'), lworld = s',
         lseen = lseen c \<union> notedTag p' \<union> storedTag (view s') key\<rparr>"
proof -
  note I = leaseInvD [OF inv]
  have ne: "\<forall>r e. lpcs c n = TakingOver r e \<longrightarrow> e \<noteq> []"
    using I(3) [of n] by auto
  have own: "Owner r = ilNodeID (L m)" if "ownRecord (((lpcs c)(n := p')) m) = Some r" for m r
    using that I(1) nodeStep_ownRecord [OF st] by (cases "m = n") auto
  have other: "view s' key = view (lworld c) key"
    if m: "m \<noteq> n" "holding (lpcs c m) = Some r" "unexpired (now H s') r" for m r
  proof (rule ccontr)
    assume ch: "view s' key \<noteq> view (lworld c) key"
    obtain e where e: "view (lworld c) key = Some (marshalLease r, e)"
      using I(2) [OF m(2)] unexpired_before [OF clock m(3)] by blast
    from nodeStep_object [OF k st ne ch] e consider
      (take) r' where "lpcs c n = TakingOver r' e" | (del) r' where "lpcs c n = ReleaseDeleting r'"
      by auto
    then show False
    proof cases
      case take
      from expiredLease_marshal [OF I(4) [OF this e]] unexpired_before [OF clock m(3)]
      show False by simp
    next
      case del
      with timely I(2) [of n r'] e have "r' = r" by (auto simp: marshalLease_inj)
      with del I(1) [of n r'] I(1) [OF holding_ownRecord [OF m(2)]] ids m(1)
      show False by (auto dest: injD)
    qed
  qed
  have hold: "\<exists>e. view s' key = Some (marshalLease r, e)"
    if h: "holding (((lpcs c)(n := p')) m) = Some r" and u: "unexpired (now H s') r" for m r
  proof (cases "m = n")
    case True
    with nodeStep_holding [OF k st _ ne, of r] h I(2) [of n r] unexpired_before [OF clock u]
    show ?thesis by auto
  next
    case False
    with other [of m r] h u I(2) [of m r] unexpired_before [OF clock u] show ?thesis by auto
  qed
  have noted: "notedTag (((lpcs c)(n := p')) m) \<subseteq> lseen c \<union> notedTag p' \<union> storedTag (view s') key - {[]}" for m
    using I(3) [of m] nodeStep_notedTag [OF st tags] I(3) [of n] by (cases "m = n") auto
  have tk: "expiredLease (now H s') d"
    if t: "((lpcs c)(n := p')) m = TakingOver r e" and v: "view s' key = Some (d, e)" for m r e d
  proof (cases "m = n")
    case True
    with t v nodeStep_takingOver [OF k, of H "L n" "lpcs c n" "lworld c" r e s'] st show ?thesis by auto
  next
    case False
    with t have t': "lpcs c m = TakingOver r e" by simp
    then have "e \<in> lseen c" using I(3) [of m] by auto
    with fresh v have "view s' key = view (lworld c) key" by (auto simp: storedTag_def)
    with I(4) [OF t'] v expiredLease_later [OF clock] show ?thesis by auto
  qed
  show ?thesis unfolding leaseInv_def using own hold noted tk by simp
qed

lemma acquire_effect:
  assumes "valid (leaseKey l domain)" and "ilBackend l = Some B"
    and "\<forall>s i s'. StatObject B (leaseKey l domain) s = (Inr i, s') \<longrightarrow> oiETag i \<noteq> []"
    and "\<forall>d opts s r s'. PutObject B (leaseKey l domain) d opts s = (r, s') \<longrightarrow> now H s \<le> now H s'"
    and "acquire H l domain s = (rel, s')"
  shows "(rel \<noteq> None \<longrightarrow>
        (\<exists>e. view s' (leaseKey l domain) = Some (marshalLease (newLease H l s), e)) \<and>
        (\<forall>d e. view s (leaseKey l domain) = Some (d, e) \<longrightarrow> expiredLease (now H s') d)) \<and>
    (\<forall>d e. rel = None \<longrightarrow> view s (leaseKey l domain) = Some (d, e) \<longrightarrow> \<not> expiredLease (now H s') d \<longrightarrow>
        view s' (leaseKey l domain) = Some (d, e))"
proof -
  let ?k = "leaseKey l domain" and ?d = "marshalLease (newLease H l s)"
  obtain b1 s1 where c1: "leaseTryCreate B ?k ?d s = (b1, s1)" by fastforce
  note E1 = tryCreate_effect [OF assms(1) c1]
  show ?thesis
  proof (cases b1)
    case True
    with c1 assms(2,5) have "rel \<noteq> None" "s' = s1" by (auto simp: acquire_def Let_def)
    moreover have "view s ?k = None"
      using put_effect [OF assms(1)] c1 True
      by (fastforce simp: leaseTryCreate_def putEffect_def split: prod.splits sum.splits)
    ultimately show ?thesis using E1 True by simp
  next
    case F1: False
    obtain st s2 where c2: "StatObject B ?k s1 = (st, s2)" by fastforce
    note E2 = stat_effect [OF assms(1) c2]
    obtain rd s3 where c3: "leaseRead B ?k s2 = (rd, s3)" by fastforce
    note E3 = leaseRead_effect [OF assms(1) c3]
    show ?thesis
    proof (cases "\<exists>i x. st = Inr i \<and> rd = Inr x \<and> \<not> Unix (now H s3) < ExpiresAt x")
      case False
      then have "rel = None" "s' = s2 \<or> s' = s3"
        using c1 c2 c3 F1 assms(2,5) by (auto simp: acquire_def Let_def split: sum.splits if_splits)
      then show ?thesis using E1 E2 E3 by auto
    next
      case True
      then obtain i x where ix: "st = Inr i" "rd = Inr x" "\<not> Unix (now H s3) < ExpiresAt x" by blast
      obtain b4 s4 where c4: "leaseTakeOver B ?k ?d (oiETag i) s3 = (b4, s4)" by fastforce
      have t: "now H s3 \<le> now H s4" using c4 assms(4) by (auto simp: leaseTakeOver_def split: prod.splits sum.splits)
      have ne: "oiETag i \<noteq> []" using assms(3) c2 ix(1) by blast
      note E4 = takeOver_effect [OF assms(1) c4 ne]
      have "s' = s4" "rel \<noteq> None \<longleftrightarrow> b4"
        using c1 c2 c3 c4 F1 ix assms(2,5) by (auto simp: acquire_def Let_def split: bool.splits)
      moreover have "expiredLease (now H s4) d" if "view s ?k = Some (d, e)" for d e
      proof (rule expiredLease_later [OF t])
        show "expiredLease (now H s3) d"
          using that E1 E2 E3 ix by (auto simp: expiredLease_def unexpired_def)
      qed
      ultimately show ?thesis using E4 by blast
    qed
  qed
qed

lemma leaseInv_step:
  assumes "valid key" and "inj (\<lambda>n. ilNodeID (L n))"
    and "\<forall>s i s'. StatObject B key s = (Inr i, s') \<longrightarrow> oiETag i \<noteq> []"
    and "lstep True H B view L key c c'" and inv: "leaseInv H view L key c"
  shows "leaseInv H view L key c'"
  using assms(4)
proof cases
  case (act n p' s')
  with act_preserves [OF assms(1) inv assms(2,3)] show ?thesis by simp
next
  case (crash n)
  with inv show ?thesis by (auto simp: leaseInv_def)
next
  case (tick s')
  with inv show ?thesis
    unfolding leaseInv_def storedTag_def
    by (auto dest: unexpired_before [OF tick(3)] expiredLease_later [OF tick(3)])
qed

lemma leaseInv_reach:
  assumes "lreach True H B view L key c" and "valid key" and "inj (\<lambda>n. ilNodeID (L n))"
    and "\<forall>s i s'. StatObject B key s = (Inr i, s') \<longrightarrow> oiETag i \<noteq> []"
  shows "leaseInv H view L key c"
  using assms(1)
proof induction
  case (start c)
  then show ?case by (simp add: leaseInv_def)
next
  case (step c c')
  with leaseInv_step [OF assms(2-4)] show ?case by blast
qed

lemma one_unexpired_holder:
  assumes "lreach True H B view L key c" and "valid key" and "inj (\<lambda>n. ilNodeID (L n))"
    and "\<forall>s i s'. StatObject B key s = (Inr i, s') \<longrightarrow> oiETag i \<noteq> []"
    and "holding (lpcs c m) = Some r" "unexpired (now H (lworld c)) r"
    and "holding (lpcs c n) = Some r'" "unexpired (now H (lworld c)) r'"
  shows "m = n"
proof -
  note I = leaseInvD [OF leaseInv_reach [OF assms(1-4)]]
  from I(2) [OF assms(5,6)] I(2) [OF assms(7,8)] have "r = r'" by (auto simp: marshalLease_inj)
  with I(1) [OF holding_ownRecord [OF assms(5)]] I(1) [OF holding_ownRecord [OF assms(7)]]
  have "ilNodeID (L m) = ilNodeID (L n)" by simp
  with assms(3) show ?thesis by (auto dest: injD)
qed

end

section \<open>Properties\<close>


definition sampleLeaser :: "nat \<Rightarrow> fs issueLeaser" where
  "sampleLeaser n = \<lparr>ilBackend = Some (fsBackend sampleConfig), ilPrefix = [],
     ilNodeID = replicate n CHR ''n'', ilTTL = issueLeaseTTL\<rparr>"




text \<open>
  An acquisition that succeeds found no lease or an expired one, and leaves the caller's own
  record in the store; one that fails leaves a lease that has not expired as it was.
\<close>

theorem acquire_sound:
  assumes "atomic_store B view env valid" and "valid (leaseKey l domain)"
    and "ilBackend l = Some B"
    and "\<forall>s i s'. StatObject B (leaseKey l domain) s = (Inr i, s') \<longrightarrow> oiETag i \<noteq> []"
    and "\<forall>d opts s r s'. PutObject B (leaseKey l domain) d opts s = (r, s') \<longrightarrow> now H s \<le> now H s'"
    and "acquire H l domain s = (rel, s')"
  shows "(rel \<noteq> None \<longrightarrow>
        (\<exists>e. view s' (leaseKey l domain) = Some (marshalLease (newLease H l s), e)) \<and>
        (\<forall>d e. view s (leaseKey l domain) = Some (d, e) \<longrightarrow> expiredLease (now H s') d)) \<and>
    (\<forall>d e. rel = None \<longrightarrow> view s (leaseKey l domain) = Some (d, e) \<longrightarrow> \<not> expiredLease (now H s') d \<longrightarrow>
        view s' (leaseKey l domain) = Some (d, e))"
  using atomic_store.acquire_effect [OF assms] .

theorem acquire_sound_witness:
  "\<exists>rel s'. acquire fsHost (sampleLeaser 0) ''a'' (sampleDisk []) = (rel, s') \<and> rel \<noteq> None \<and>
     (\<exists>e. fsView sampleConfig s' (leaseKey (sampleLeaser 0) ''a'') =
        Some (marshalLease (newLease fsHost (sampleLeaser 0) (sampleDisk [])), e))"
proof -
  let ?B = "fsBackend sampleConfig" and ?l = "sampleLeaser 0"
  have v: "fsValid sampleConfig (leaseKey ?l ''a'')" by code_simp
  have b: "ilBackend ?l = Some ?B" by (simp add: sampleLeaser_def)
  have g: "\<forall>s i s'. StatObject ?B (leaseKey ?l ''a'') s = (Inr i, s') \<longrightarrow> oiETag i \<noteq> []"
    using sampleConfig_tag by blast
  have t: "\<forall>d opts s r s'. PutObject ?B (leaseKey ?l ''a'') d opts s = (r, s') \<longrightarrow> now fsHost s \<le> now fsHost s'"
    using fsPut_clock by (auto simp: fsHost_def)
  obtain rel s' where a: "acquire fsHost ?l ''a'' (sampleDisk []) = (rel, s')" by fastforce
  have "fst (acquire fsHost ?l ''a'' (sampleDisk [])) = None \<longleftrightarrow> False" by code_simp
  with a have ne: "rel \<noteq> None" by simp
  note S = acquire_sound [OF fsa.atomic_store_axioms v b g t a]
  from S [THEN conjunct1, rule_format, OF ne, THEN conjunct1] a ne show ?thesis
    by (intro exI [of _ rel] exI [of _ s'] conjI)
qed

end
