(* ===== verification/KeyStore.thy ===== *)
theory KeyStore
  imports Filesystem Layout
begin

text \<open>
  keystore.go: the long-lived private keys, one for the ACME account and one per name, each
  created at most once in shared storage and read ever after. The lemmas are about any backend
  that keeps the interface's contract, with any interference by other nodes that leaves an
  existing key object alone (\<open>stable\<close>).
\<close>

section \<open>The code\<close>

definition KeyTypeECDSAP256 :: string where "KeyTypeECDSAP256 = ''ecdsa-p256''"
definition KeyTypeRSA2048 :: string where "KeyTypeRSA2048 = ''rsa-2048''"

record 's KeyStore =
  ksBackend :: "'s backend"
  ksPrefix :: string
  ksKeyType :: string
  ksHost :: "'s host"

definition NewKeyStore :: "'s backend \<Rightarrow> string \<Rightarrow> string \<Rightarrow> 's host \<Rightarrow> 's KeyStore" where
  "NewKeyStore B pre keyType H =
     \<lparr>ksBackend = B, ksPrefix = pre,
      ksKeyType = (if keyType = [] then KeyTypeECDSAP256 else keyType), ksHost = H\<rparr>"

definition accountKeyName :: "'s KeyStore \<Rightarrow> string" where
  "accountKeyName k = ksPrefix k @ ''acme/account.key''"

definition certKeyName :: "'s KeyStore \<Rightarrow> string \<Rightarrow> string" where
  "certKeyName k domain = Key (ksPrefix k) domain"

definition nextCertKeyName :: "'s KeyStore \<Rightarrow> string \<Rightarrow> string" where
  "nextCertKeyName k domain = NextKey (ksPrefix k) domain"

definition canCreate :: "'s KeyStore \<Rightarrow> 's \<Rightarrow> bool" where
  "canCreate k s = isLeader (ksHost k) s"

definition marshalKeyPEM :: "signer \<Rightarrow> blob" where
  "marshalKeyPEM signer = Pem [\<lparr>pemType = ''PRIVATE KEY'', pemBytes = KeyDER (SignerKey signer)\<rparr>]"

definition parseKeyPEM :: "blob \<Rightarrow> error + signer" where
  "parseKeyPEM data =
     (case pemBlocks data of
        [] \<Rightarrow> Inl [Msg ''no PEM block found in key data'']
      | block # _ \<Rightarrow>
          (case ParsePKCS8PrivateKey (pemBytes block) of
             Inl e \<Rightarrow> Inl (Msg ''parse PKCS#8 private key'' # e)
           | Inr (SignerKey signer) \<Rightarrow> Inr signer
           | Inr (NonSigner _) \<Rightarrow> Inl [Msg ''stored key is not a crypto.Signer'']))"

definition generateSigner :: "'s host \<Rightarrow> string \<Rightarrow> 's \<Rightarrow> error + signer" where
  "generateSigner H keyType s =
     (if keyType = KeyTypeECDSAP256 \<or> keyType = [] then GenerateKey H ECDSA_P256 s
      else if keyType = KeyTypeRSA2048 then GenerateKey H (RSA_Alg 2048) s
      else Inl [Msg ''unsupported key type''])"

definition ksPut :: "'s KeyStore \<Rightarrow> string \<Rightarrow> blob \<Rightarrow> bool \<Rightarrow> ('s, unit) io" where
  "ksPut k name data createOnly =
     PutObject (ksBackend k) name data
       (if createOnly then createOnce ''application/x-pem-file'' else plainPut ''application/x-pem-file'')"

definition ksLoad :: "'s KeyStore \<Rightarrow> string \<Rightarrow> ('s, signer) io" where
  "ksLoad k name s =
     (case GetObject (ksBackend k) name s of
        (Inl err, s') \<Rightarrow> (Inl (readFailure err), s')
      | (Inr data, s') \<Rightarrow> (parseKeyPEM data, s'))"

definition loadOrCreate :: "'s KeyStore \<Rightarrow> string \<Rightarrow> string \<Rightarrow> ('s, signer) io" where
  "loadOrCreate k name keyType s =
     (case ksLoad k name s of
        (Inr signer, s1) \<Rightarrow> (Inr signer, s1)
      | (Inl err, s1) \<Rightarrow>
          if \<not> isNotExist err then (Inl err, s1)
          else if \<not> canCreate k s1 then (Inl [Msg ''key not yet created by leader'', ErrNotExist], s1)
          else
            (case generateSigner (ksHost k) keyType s1 of
               Inl e \<Rightarrow> (Inl e, s1)
             | Inr signer \<Rightarrow>
                 (case ksPut k name (marshalKeyPEM signer) True s1 of
                    (Inl e, s2) \<Rightarrow>
                      if isConditionalPut e then ksLoad k name s2
                      else (Inl (Msg ''persist key'' # e), s2)
                  | (Inr _, s2) \<Rightarrow>
                      (case ksLoad k name s2 of
                         (Inl e, s3) \<Rightarrow> (Inl (Msg ''read back key after create'' # e), s3)
                       | (Inr stored, s3) \<Rightarrow> (Inr stored, s3)))))"

definition LoadOrCreateAccountKey :: "'s KeyStore \<Rightarrow> ('s, signer) io" where
  "LoadOrCreateAccountKey k = loadOrCreate k (accountKeyName k) KeyTypeECDSAP256"

definition LoadOrCreateCertKey :: "'s KeyStore \<Rightarrow> string \<Rightarrow> ('s, signer) io" where
  "LoadOrCreateCertKey k domain =
     loadOrCreate k (certKeyName k domain) (if IsCompanion domain then KeyTypeRSA2048 else ksKeyType k)"

definition LoadCertKey :: "'s KeyStore \<Rightarrow> string \<Rightarrow> ('s, signer) io" where
  "LoadCertKey k domain = ksLoad k (certKeyName k domain)"

definition GenerateNextCertKey :: "'s KeyStore \<Rightarrow> string \<Rightarrow> ('s, signer) io" where
  "GenerateNextCertKey k domain s =
     (if \<not> canCreate k s then (Inl [ErrNotLeader], s)
      else loadOrCreate k (nextCertKeyName k domain) (ksKeyType k) s)"

definition LoadNextCertKey :: "'s KeyStore \<Rightarrow> string \<Rightarrow> ('s, signer) io" where
  "LoadNextCertKey k domain = ksLoad k (nextCertKeyName k domain)"

text \<open>A failure to remove the staged key after the promotion is only logged.\<close>

definition PromoteNextCertKey :: "'s KeyStore \<Rightarrow> string \<Rightarrow> ('s, unit) io" where
  "PromoteNextCertKey k domain s =
     (if \<not> canCreate k s then (Inl [ErrNotLeader], s)
      else
        (case ksLoad k (nextCertKeyName k domain) s of
           (Inl err, s1) \<Rightarrow> (Inl (Msg ''load next key'' # err), s1)
         | (Inr nextKey, s1) \<Rightarrow>
             (case ksPut k (certKeyName k domain) (marshalKeyPEM nextKey) False s1 of
                (Inl err, s2) \<Rightarrow> (Inl (Msg ''promote next key'' # err), s2)
              | (Inr _, s2) \<Rightarrow> (Inr (), snd (RemoveObject (ksBackend k) (nextCertKeyName k domain) s2)))))"

section \<open>Lemmas\<close>

lemma parse_marshalKeyPEM [simp]: "parseKeyPEM (marshalKeyPEM k) = Inr k"
  by (simp add: parseKeyPEM_def marshalKeyPEM_def ParsePKCS8PrivateKey_def)

text \<open>A parse failure is never taken for an absent key.\<close>

lemma parseKeyPEM_not_absent: "parseKeyPEM d = Inl e \<Longrightarrow> \<not> isNotExist e"
  by (auto simp: parseKeyPEM_def ParsePKCS8PrivateKey_def split: list.splits sum.splits privkey.splits der.splits)

text \<open>The calls a store of keys makes, as one operation each, and what a client may ask of it.\<close>

datatype keyOp =
    OpAccount
  | OpCert string
  | OpLoad string
  | OpGenNext string
  | OpLoadNext string
  | OpPromote string

fun runKeyOp :: "'s KeyStore \<Rightarrow> keyOp \<Rightarrow> 's \<Rightarrow> 's" where
  "runKeyOp k OpAccount s = snd (LoadOrCreateAccountKey k s)"
| "runKeyOp k (OpCert d) s = snd (LoadOrCreateCertKey k d s)"
| "runKeyOp k (OpLoad d) s = snd (LoadCertKey k d s)"
| "runKeyOp k (OpGenNext d) s = snd (GenerateNextCertKey k d s)"
| "runKeyOp k (OpLoadNext d) s = snd (LoadNextCertKey k d s)"
| "runKeyOp k (OpPromote d) s = snd (PromoteNextCertKey k d s)"

fun runKeyOps :: "('s KeyStore \<times> keyOp) list \<Rightarrow> 's \<Rightarrow> 's" where
  "runKeyOps [] s = s"
| "runKeyOps ((k, op) # ops) s = runKeyOps ops (runKeyOp k op s)"

text \<open>The storage keys an operation names, and those a promotion writes or removes.\<close>

fun opKeys :: "'s KeyStore \<Rightarrow> keyOp \<Rightarrow> string list" where
  "opKeys k OpAccount = [accountKeyName k]"
| "opKeys k (OpCert d) = [certKeyName k d]"
| "opKeys k (OpLoad d) = [certKeyName k d]"
| "opKeys k (OpGenNext d) = [nextCertKeyName k d]"
| "opKeys k (OpLoadNext d) = [nextCertKeyName k d]"
| "opKeys k (OpPromote d) = [certKeyName k d, nextCertKeyName k d]"

fun replaces :: "'s KeyStore \<Rightarrow> string \<Rightarrow> keyOp \<Rightarrow> bool" where
  "replaces k name (OpPromote d) = (name = certKeyName k d \<or> name = nextCertKeyName k d)"
| "replaces k name op = False"

context backend_contract
begin

lemma ksLoad_ok:
  assumes "ksBackend k = B" and "valid name" and "ksLoad k name s = (Inr signer, s')"
  shows "\<exists>d e. view s' name = Some (d, e) \<and> parseKeyPEM d = Inr signer"
  using assms get_ok [of name s] by (fastforce simp: ksLoad_def split: prod.splits sum.splits)

lemma ksLoad_absent:
  assumes "ksBackend k = B" and "valid name" and "ksLoad k name s = (Inl e, s')" and "isNotExist e"
  shows "view s' name = None"
  using assms get_absent [of name s]
  by (fastforce simp: ksLoad_def split: prod.splits sum.splits dest: parseKeyPEM_not_absent)

lemma ksLoad_keeps:
  assumes "ksBackend k = B" and "valid name" and "ksLoad k name s = (r, s')"
    and "stable view env n" and "view s n = Some ob"
  shows "view s' n = Some ob"
  using assms get_keeps [of name s _ s' n ob] by (auto simp: ksLoad_def split: prod.splits sum.splits)

lemma ksPut_create_keeps:
  assumes "ksBackend k = B" and "valid name" and "ksPut k name d True s = (r, s')"
    and "stable view env n" and "view s n = Some ob"
  shows "view s' n = Some ob"
  using assms create_keeps [of name d "''application/x-pem-file''" s r s' n ob] by (simp add: ksPut_def)

text \<open>No call of \<open>loadOrCreate\<close> changes an object that exists, its own or another.\<close>

lemma loadOrCreate_keeps:
  assumes B: "ksBackend k = B" and v: "valid name" and run: "loadOrCreate k name kt s = (r, s')"
    and st: "stable view env n" and ob: "view s n = Some ob"
  shows "view s' n = Some ob"
proof -
  obtain r1 s1 where l: "ksLoad k name s = (r1, s1)" by fastforce
  note k1 = ksLoad_keeps [OF B v l st ob]
  show ?thesis
  proof (cases "\<exists>e signer. r1 = Inl e \<and> isNotExist e \<and> canCreate k s1 \<and>
      generateSigner (ksHost k) kt s1 = Inr signer")
    case False
    then have "s' = s1"
      using run l by (auto simp: loadOrCreate_def split: sum.splits if_splits)
    with k1 show ?thesis by simp
  next
    case True
    then obtain e signer where c: "r1 = Inl e" "isNotExist e" "canCreate k s1"
      "generateSigner (ksHost k) kt s1 = Inr signer" by blast
    obtain r2 s2 where p: "ksPut k name (marshalKeyPEM signer) True s1 = (r2, s2)" by fastforce
    note k2 = ksPut_create_keeps [OF B v p st k1]
    obtain r3 s3 where l3: "ksLoad k name s2 = (r3, s3)" by fastforce
    note k3 = ksLoad_keeps [OF B v l3 st k2]
    have "s' = s2 \<or> s' = s3"
      using run l c p l3 by (auto simp: loadOrCreate_def split: sum.splits if_splits)
    with k2 k3 show ?thesis by blast
  qed
qed

text \<open>The key \<open>loadOrCreate\<close> returns is the key that is stored when it returns.\<close>

lemma loadOrCreate_stored:
  assumes B: "ksBackend k = B" and v: "valid name" and run: "loadOrCreate k name kt s = (Inr signer, s')"
  shows "\<exists>d e. view s' name = Some (d, e) \<and> parseKeyPEM d = Inr signer"
proof -
  have "\<exists>s0. ksLoad k name s0 = (Inr signer, s')"
    using run by (auto simp: loadOrCreate_def split: prod.splits sum.splits if_splits)
  with ksLoad_ok [OF B v] show ?thesis by blast
qed

lemma loadOrCreate_stable:
  assumes "ksBackend k = B" and "valid name" and "loadOrCreate k name kt s = (Inr signer, s')"
    and "stable view env name" and "view s name = Some (d, e)"
  shows "parseKeyPEM d = Inr signer"
  using loadOrCreate_stored [OF assms(1-3)] loadOrCreate_keeps [OF assms] by auto

lemma runKeyOp_keeps:
  assumes B: "ksBackend k = B" and v: "\<forall>n \<in> set (opKeys k op). valid n" and r: "\<not> replaces k n op"
    and st: "stable view env n" and ob: "view s n = Some ob"
  shows "view (runKeyOp k op s) n = Some ob"
proof (cases op)
  case (OpPromote d)
  have vs: "valid (certKeyName k d)" "valid (nextCertKeyName k d)" using v OpPromote by auto
  obtain r1 s1 where l: "ksLoad k (nextCertKeyName k d) s = (r1, s1)" by fastforce
  note k1 = ksLoad_keeps [OF B vs(2) l st ob]
  show ?thesis
  proof (cases "\<exists>nk. canCreate k s \<and> r1 = Inr nk")
    case False
    then show ?thesis using OpPromote l k1 ob
      by (auto simp: PromoteNextCertKey_def split: sum.splits)
  next
    case True
    then obtain nk where nk: "canCreate k s" "r1 = Inr nk" by blast
    obtain r2 s2 where p: "ksPut k (certKeyName k d) (marshalKeyPEM nk) False s1 = (r2, s2)" by fastforce
    have p': "PutObject B (certKeyName k d) (marshalKeyPEM nk) (plainPut ''application/x-pem-file'') s1 = (r2, s2)"
      using p B by (simp add: ksPut_def)
    have k2: "view s2 n = Some ob" using put_other_keeps [OF vs(1) p' _ st k1] r OpPromote by auto
    obtain r3 s3 where m: "RemoveObject B (nextCertKeyName k d) s2 = (r3, s3)" by fastforce
    have k3: "view s3 n = Some ob" using remove_other_keeps [OF vs(2) m _ st k2] r OpPromote by auto
    have "runKeyOp k op s = s2 \<or> runKeyOp k op s = s3"
      using OpPromote l nk p m B by (auto simp: PromoteNextCertKey_def split: sum.splits)
    with k2 k3 show ?thesis by auto
  qed
qed (use v ob ksLoad_keeps [OF B _ surjective_pairing st ob] loadOrCreate_keeps [OF B _ surjective_pairing st ob] in
    \<open>auto simp: LoadOrCreateAccountKey_def LoadOrCreateCertKey_def LoadCertKey_def
       LoadNextCertKey_def GenerateNextCertKey_def\<close>)

lemma runKeyOps_keeps:
  assumes "\<forall>(k, op) \<in> set ops. ksBackend k = B \<and> (\<forall>n \<in> set (opKeys k op). valid n) \<and> \<not> replaces k n op"
    and "stable view env n" and "view s n = Some ob"
  shows "view (runKeyOps ops s) n = Some ob"
  using assms
proof (induction ops arbitrary: s)
  case (Cons a ops)
  obtain k op where a: "a = (k, op)" by fastforce
  with Cons.prems runKeyOp_keeps [of k op n s ob] have "view (runKeyOp k op s) n = Some ob" by auto
  with Cons a show ?case by auto
qed simp

lemma promote_installs:
  assumes B: "ksBackend k = B" and v: "valid (certKeyName k d)" "valid (nextCertKeyName k d)"
    and run: "PromoteNextCertKey k d s = (Inr u, s')"
    and st: "stable view env (nextCertKeyName k d)" "stable view env (certKeyName k d)"
    and ob: "view s (nextCertKeyName k d) = Some (pem, e)"
  shows "\<exists>signer e'. parseKeyPEM pem = Inr signer \<and>
     view s' (certKeyName k d) = Some (marshalKeyPEM signer, e')"
proof -
  from run B obtain nk s1 s2 where l: "ksLoad k (nextCertKeyName k d) s = (Inr nk, s1)"
    and p: "PutObject B (certKeyName k d) (marshalKeyPEM nk) (plainPut ''application/x-pem-file'') s1 = (Inr (), s2)"
    and s': "s' = snd (RemoveObject B (nextCertKeyName k d) s2)"
    by (auto simp: PromoteNextCertKey_def ksPut_def split: if_splits prod.splits sum.splits)
  from ksLoad_ok [OF B v(2) l] ksLoad_keeps [OF B v(2) l st(1) ob] have pk: "parseKeyPEM pem = Inr nk" by auto
  obtain e' where "view s2 (certKeyName k d) = Some (marshalKeyPEM nk, e')" using put_ok [OF v(1) p] by blast
  moreover have "certKeyName k d \<noteq> nextCertKeyName k d" by (simp add: certKeyName_def nextCertKeyName_def)
  ultimately have "view s' (certKeyName k d) = Some (marshalKeyPEM nk, e')"
    using remove_other_keeps [OF v(2) surjective_pairing _ st(2)] s' by metis
  with pk show ?thesis by blast
qed

end

section \<open>Properties\<close>

text \<open>
  C2: a key is never regenerated. Whatever sequence of key-store calls any nodes make, with
  storage failures and other nodes' writes in between, an object that exists in a key slot is
  the same object afterwards, unless one of the calls is a promotion of that very slot.
\<close>

theorem key_never_regenerated:
  assumes "backend_contract B view env valid" and "stable view env name"
    and "\<forall>(k, op) \<in> set ops. ksBackend k = B \<and> (\<forall>n \<in> set (opKeys k op). valid n) \<and> \<not> replaces k name op"
    and "view s name = Some ob"
  shows "view (runKeyOps ops s) name = Some ob"
  using backend_contract.runKeyOps_keeps [OF assms(1,3,2,4)] .

definition sampleKeyStore :: "string \<Rightarrow> fs KeyStore" where
  "sampleKeyStore kt = NewKeyStore (fsBackend sampleConfig) [] kt fsHost"

definition sampleKey :: "string \<Rightarrow> signer" where
  "sampleKey x = \<lparr>Public = \<lparr>pk_alg = ECDSA_P256, pk_id = x\<rparr>\<rparr>"

theorem key_never_regenerated_witness:
  "\<exists>e. fsView sampleConfig (runKeyOps [(sampleKeyStore [], OpCert ''a''), (sampleKeyStore [], OpGenNext ''a''),
        (sampleKeyStore ''rsa-2048'', OpCert ''A''), (sampleKeyStore [], OpPromote ''b'')]
       (sampleDisk [(''keys/a'', marshalKeyPEM (sampleKey ''x''))])) ''keys/a''
     = Some (marshalKeyPEM (sampleKey ''x''), e)"
proof -
  let ?ops = "[(sampleKeyStore [], OpCert ''a''), (sampleKeyStore [], OpGenNext ''a''),
        (sampleKeyStore ''rsa-2048'', OpCert ''A''), (sampleKeyStore [], OpPromote ''b'')]"
  let ?s = "sampleDisk [(''keys/a'', marshalKeyPEM (sampleKey ''x''))]"
  have b: "ksBackend (sampleKeyStore kt) = fsBackend sampleConfig" for kt
    by (simp add: sampleKeyStore_def NewKeyStore_def)
  have v: "fsValid sampleConfig ''keys/a''" "fsValid sampleConfig ''keys/a.next''"
    "fsValid sampleConfig ''keys/b''" "fsValid sampleConfig ''keys/b.next''" by code_simp+
  have K: "Key [] ''a'' = ''keys/a''" "Key [] ''A'' = ''keys/a''" "Key [] ''b'' = ''keys/b''"
    "NextKey [] ''a'' = ''keys/a.next''" "NextKey [] ''b'' = ''keys/b.next''" by code_simp+
  have n: "certKeyName (sampleKeyStore kt) ''a'' = ''keys/a''"
    "certKeyName (sampleKeyStore kt) ''A'' = ''keys/a''"
    "certKeyName (sampleKeyStore kt) ''b'' = ''keys/b''"
    "nextCertKeyName (sampleKeyStore kt) ''a'' = ''keys/a.next''"
    "nextCertKeyName (sampleKeyStore kt) ''b'' = ''keys/b.next''" for kt
    by (simp_all add: certKeyName_def nextCertKeyName_def sampleKeyStore_def NewKeyStore_def K)
  have g: "\<forall>(k, op) \<in> set ?ops. ksBackend k = fsBackend sampleConfig \<and>
      (\<forall>n \<in> set (opKeys k op). fsValid sampleConfig n) \<and> \<not> replaces k ''keys/a'' op"
    by (simp add: b v n)
  have "\<exists>e. fsView sampleConfig ?s ''keys/a'' = Some (marshalKeyPEM (sampleKey ''x''), e)"
    using v by (simp add: fsView_def sampleDisk_def sampleConfig_def)
  then obtain e where e: "fsView sampleConfig ?s ''keys/a'' = Some (marshalKeyPEM (sampleKey ''x''), e)" ..
  have "fsView sampleConfig (runKeyOps ?ops ?s) ''keys/a'' = Some (marshalKeyPEM (sampleKey ''x''), e)"
    by (rule key_never_regenerated [where B = "fsBackend sampleConfig" and view = "fsView sampleConfig"
        and env = "fsSame sampleConfig" and valid = "fsValid sampleConfig"])
      (fact fsb.backend_contract_axioms fsSame_stable g e)+
  then show ?thesis ..
qed

text \<open>
  C12: every node converges on one key. If one node's \<open>LoadOrCreateCertKey\<close> returns a key for a
  name, and later, after any other key-store calls but a promotion of that name, another
  node's returns one, the two are the same key, so the SPKI digest of the name is stable.
\<close>

theorem key_convergence:
  assumes "backend_contract B view env valid" and "stable view env (certKeyName kA d)"
    and "ksBackend kA = B" and "ksBackend kB = B" and "ksPrefix kA = ksPrefix kB"
    and "valid (certKeyName kA d)"
    and "LoadOrCreateCertKey kA d s = (Inr a, s1)"
    and "\<forall>(k, op) \<in> set ops. ksBackend k = B \<and> (\<forall>n \<in> set (opKeys k op). valid n) \<and>
           \<not> replaces k (certKeyName kA d) op"
    and "LoadOrCreateCertKey kB d (runKeyOps ops s1) = (Inr b, s2)"
  shows "a = b"
proof -
  obtain pem e where p: "view s1 (certKeyName kA d) = Some (pem, e)" "parseKeyPEM pem = Inr a"
    using backend_contract.loadOrCreate_stored [OF assms(1,3,6)] assms(7)
    unfolding LoadOrCreateCertKey_def by blast
  note q = backend_contract.runKeyOps_keeps [OF assms(1,8,2) p(1)]
  have n: "certKeyName kB d = certKeyName kA d" using assms(5) by (simp add: certKeyName_def)
  show ?thesis
    using backend_contract.loadOrCreate_stable [OF assms(1,4,6) _ assms(2) q] assms(9) p(2)
    unfolding LoadOrCreateCertKey_def n by force
qed

theorem key_convergence_witness:
  "\<exists>a b s1 s2. LoadOrCreateCertKey (sampleKeyStore []) ''a'' (sampleDisk []) = (Inr a, s1) \<and>
     LoadOrCreateCertKey (sampleKeyStore ''rsa-2048'') ''a'' s1 = (Inr b, s2) \<and> a = b"
proof -
  let ?kA = "sampleKeyStore []" and ?kB = "sampleKeyStore ''rsa-2048''"
  define s1 where "s1 = snd (LoadOrCreateCertKey ?kA ''a'' (sampleDisk []))"
  define s2 where "s2 = snd (LoadOrCreateCertKey ?kB ''a'' s1)"
  have "isOk (fst (LoadOrCreateCertKey ?kA ''a'' (sampleDisk [])))" by code_simp
  then obtain a where a: "LoadOrCreateCertKey ?kA ''a'' (sampleDisk []) = (Inr a, s1)"
    by (metis isOk_E prod.collapse s1_def)
  have "isOk (fst (LoadOrCreateCertKey ?kB ''a'' s1))" unfolding s1_def by code_simp
  then obtain b where b: "LoadOrCreateCertKey ?kB ''a'' s1 = (Inr b, s2)"
    by (metis isOk_E prod.collapse s2_def)
  have v: "fsValid sampleConfig (certKeyName ?kA ''a'')" by code_simp
  have "a = b"
  proof (rule key_convergence [OF fsb.backend_contract_axioms fsSame_stable _ _ _ v a, where kB = ?kB and ops = "[]"])
    show "LoadOrCreateCertKey ?kB ''a'' (runKeyOps [] s1) = (Inr b, s2)" using b by simp
  qed (simp_all add: sampleKeyStore_def NewKeyStore_def)
  with a b show ?thesis by blast
qed

text \<open>
  A promotion that reports success installed the staged key: the live slot then holds exactly
  the key that was staged, whatever happened to the removal of the staging object.
\<close>

theorem promotion_installs_staged_key:
  assumes "backend_contract B view env valid" and "ksBackend k = B"
    and "valid (certKeyName k d)" and "valid (nextCertKeyName k d)"
    and "stable view env (nextCertKeyName k d)" and "stable view env (certKeyName k d)"
    and "view s (nextCertKeyName k d) = Some (pem, e)"
    and "PromoteNextCertKey k d s = (Inr u, s')"
  shows "\<exists>signer e'. parseKeyPEM pem = Inr signer \<and>
     view s' (certKeyName k d) = Some (marshalKeyPEM signer, e')"
  using backend_contract.promote_installs [OF assms(1-4,8,5,6,7)] .

theorem promotion_installs_staged_key_witness:
  "\<exists>signer e' s'. PromoteNextCertKey (sampleKeyStore []) ''a''
       (sampleDisk [(''keys/a.next'', marshalKeyPEM (sampleKey ''y''))]) = (Inr (), s') \<and>
     parseKeyPEM (marshalKeyPEM (sampleKey ''y'')) = Inr signer \<and>
     fsView sampleConfig s' (certKeyName (sampleKeyStore []) ''a'') = Some (marshalKeyPEM signer, e')"
proof -
  let ?k = "sampleKeyStore []" and ?s = "sampleDisk [(''keys/a.next'', marshalKeyPEM (sampleKey ''y''))]"
  have v: "fsValid sampleConfig (certKeyName ?k ''a'')" "fsValid sampleConfig (nextCertKeyName ?k ''a'')"
    by code_simp+
  have "nextCertKeyName ?k ''a'' = ''keys/a.next''" by code_simp
  then obtain e where o: "fsView sampleConfig ?s (nextCertKeyName ?k ''a'') = Some (marshalKeyPEM (sampleKey ''y''), e)"
    using v(2) by (auto simp: fsView_def sampleDisk_def sampleConfig_def)
  have "fst (PromoteNextCertKey ?k ''a'' ?s) = Inr ()" by code_simp
  then have p: "PromoteNextCertKey ?k ''a'' ?s = (Inr (), snd (PromoteNextCertKey ?k ''a'' ?s))"
    by (simp add: prod_eq_iff)
  have b: "ksBackend ?k = fsBackend sampleConfig" by (simp add: sampleKeyStore_def NewKeyStore_def)
  from promotion_installs_staged_key [OF fsb.backend_contract_axioms b v fsSame_stable fsSame_stable o p] p
  show ?thesis by blast
qed

end
