(* ===== verification/Dane.thy ===== *)
theory Dane
  imports Backend
begin

text \<open>
  Package dane: the TLSA records an MX host should publish (record.go), the markers of digests
  being retired (retiring.go), the digest itself (digest.go) and the lookup of what DNS holds
  (lookup.go). The DNS client is a parameter: \<open>exch net server\<close> is one exchange over the given
  network.
\<close>

section \<open>record.go and digest.go\<close>

definition UsageDANEEE :: nat where "UsageDANEEE = 3"
definition SelectorSPKI :: nat where "SelectorSPKI = 1"
definition MatchingSHA256 :: nat where "MatchingSHA256 = 1"
definition SMTPPort :: nat where "SMTPPort = 25"

record TLSARecord =
  tlsaName :: string
  tlsaMXHost :: string
  tlsaUsage :: nat
  tlsaSelector :: nat
  tlsaMatchingType :: nat
  tlsaCert :: string
  tlsaTTL :: nat
  tlsaNote :: string

definition OwnerName :: "string \<Rightarrow> string" where
  "OwnerName mxHost =
     (let h = TrimSuffix (ToLower mxHost) ''.''
      in ''_'' @ Itoa SMTPPort @ ''._tcp.'' @ h @ ''.'')"

definition NewSPKIRecord :: "string \<Rightarrow> string \<Rightarrow> nat \<Rightarrow> TLSARecord" where
  "NewSPKIRecord mxHost digest ttl =
     \<lparr>tlsaName = OwnerName mxHost, tlsaMXHost = ToLower (TrimSuffix mxHost ''.''),
      tlsaUsage = UsageDANEEE, tlsaSelector = SelectorSPKI, tlsaMatchingType = MatchingSHA256,
      tlsaCert = ToLower digest, tlsaTTL = ttl, tlsaNote = []\<rparr>"

definition RData :: "TLSARecord \<Rightarrow> string" where
  "RData r = Itoa (tlsaUsage r) @ '' '' @ Itoa (tlsaSelector r) @ '' '' @ Itoa (tlsaMatchingType r) @
     '' '' @ tlsaCert r"

definition ZoneLine :: "TLSARecord \<Rightarrow> string" where
  "ZoneLine r = tlsaName r @ '' '' @ Itoa (tlsaTTL r) @ '' IN TLSA '' @ RData r"

definition Fingerprint :: "TLSARecord \<Rightarrow> string" where
  "Fingerprint r = tlsaName r @ ''|'' @ RData r"

definition SPKISHA256 :: "'s host \<Rightarrow> pubkey \<Rightarrow> error + string" where
  "SPKISHA256 H pub =
     (case MarshalPKIX H pub of
        Inl e \<Rightarrow> Inl (Msg ''marshal public key'' # e)
      | Inr der \<Rightarrow> Inr (Sha256Hex H der))"

section \<open>retiring.go\<close>

record RetiringRecord =
  Digest :: string
  RetireAfter :: int

definition Expired :: "time \<Rightarrow> RetiringRecord \<Rightarrow> bool" where
  "Expired t r = (Unix t \<ge> RetireAfter r)"

text \<open>\<open>json.Unmarshal\<close> into one record, from null or an object; and into a slice of them.\<close>

definition decRetiring :: "json \<Rightarrow> error + RetiringRecord" where
  "decRetiring j =
     (case jsonMembers j of
        Inl e \<Rightarrow> Inl e
      | Inr kvs \<Rightarrow>
          (case decStr ''digest'' kvs [] of
             Inl e \<Rightarrow> Inl e
           | Inr d \<Rightarrow>
               (case decInt ''retire_after'' kvs 0 of
                  Inl e \<Rightarrow> Inl e
                | Inr t \<Rightarrow> Inr \<lparr>Digest = d, RetireAfter = t\<rparr>)))"

fun decRetirings :: "json list \<Rightarrow> error + RetiringRecord list" where
  "decRetirings [] = Inr []"
| "decRetirings (j # js) =
     (case decRetiring j of
        Inl e \<Rightarrow> Inl e
      | Inr r \<Rightarrow> (case decRetirings js of Inl e \<Rightarrow> Inl e | Inr rs \<Rightarrow> Inr (r # rs)))"

definition ParseRetiring :: "blob \<Rightarrow> error + RetiringRecord list" where
  "ParseRetiring raw =
     (case (case jsonOf raw of
              Inl e \<Rightarrow> Inl e
            | Inr j \<Rightarrow>
                (case (case j of
                         JArr js \<Rightarrow> decRetirings js
                       | JNull \<Rightarrow> Inr []
                       | _ \<Rightarrow> Inl jsonTypeError) of
                   Inr list \<Rightarrow> Inr list
                 | Inl _ \<Rightarrow>
                     (case decRetiring j of Inl e \<Rightarrow> Inl e | Inr one \<Rightarrow> Inr [one]))) of
        Inl e \<Rightarrow> Inl e
      | Inr list \<Rightarrow> Inr (filter (\<lambda>rec. Digest rec \<noteq> []) list))"

definition jsonRetiring :: "RetiringRecord \<Rightarrow> json" where
  "jsonRetiring r = JObj [(''digest'', JStr (Digest r)), (''retire_after'', JNum (RetireAfter r))]"

definition MarshalRetiring :: "RetiringRecord list \<Rightarrow> blob" where
  "MarshalRetiring records =
     (case records of
        [r] \<Rightarrow> Json (jsonRetiring r)
      | _ \<Rightarrow> Json (JArr (map jsonRetiring records)))"

definition RetiringObjectName :: "string \<Rightarrow> string \<Rightarrow> string" where
  "RetiringObjectName pre h = pre @ ''dane/retiring/'' @ ToLower (TrimSuffix h ''.'')"

section \<open>lookup.go\<close>

record PublishedTLSA =
  pubUsage :: nat
  pubSelector :: nat
  pubMatchingType :: nat
  pubCert :: string

record LookupResult =
  RRs :: "PublishedTLSA list"
  Authenticated :: bool

definition lrEmpty :: "LookupResult \<Rightarrow> bool" where
  "lrEmpty r = (RRs r = [])"

definition HasDANEEE :: "LookupResult \<Rightarrow> bool" where
  "HasDANEEE r = list_ex (\<lambda>rr. pubUsage rr = UsageDANEEE) (RRs r)"

definition isSPKI311 :: "PublishedTLSA \<Rightarrow> bool" where
  "isSPKI311 rr = (pubUsage rr = UsageDANEEE \<and> pubSelector rr = SelectorSPKI \<and>
     pubMatchingType rr = MatchingSHA256)"

definition ContainsSPKIDigest :: "LookupResult \<Rightarrow> string \<Rightarrow> bool" where
  "ContainsSPKIDigest r digest = list_ex (\<lambda>rr. isSPKI311 rr \<and> pubCert rr = ToLower digest) (RRs r)"

text \<open>What the DNS library returns from one exchange.\<close>

datatype dnsRR = TLSA_RR nat nat nat string | OtherRR string

record dnsMsg =
  Rcode :: nat
  AuthenticatedData :: bool
  Truncated :: bool
  Answer :: "dnsRR list"

definition RcodeSuccess :: nat where "RcodeSuccess = 0"
definition RcodeNameError :: nat where "RcodeNameError = 3"

text \<open>\<open>net.SplitHostPort\<close>, as far as whether it fails, and \<open>net.JoinHostPort\<close>.\<close>

definition lastColon :: "string \<Rightarrow> nat option" where
  "lastColon s =
     (if CHR '':'' \<in> set s
      then Some (length s - Suc (length (takeWhile (\<lambda>c. c \<noteq> CHR '':'') (rev s)))) else None)"

definition SplitHostPortOK :: "string \<Rightarrow> bool" where
  "SplitHostPortOK hp =
     (case lastColon hp of
        None \<Rightarrow> False
      | Some i \<Rightarrow>
          if HasPrefix hp ''['' then
            (let end = length (takeWhile (\<lambda>c. c \<noteq> CHR '']'') hp)
             in end < length hp \<and> Suc end = i \<and>
                CHR ''['' \<notin> set (drop 1 hp) \<and> CHR '']'' \<notin> set (drop (Suc end) hp))
          else CHR '':'' \<notin> set (take i hp) \<and> CHR ''['' \<notin> set hp \<and> CHR '']'' \<notin> set hp)"

definition JoinHostPort :: "string \<Rightarrow> string \<Rightarrow> string" where
  "JoinHostPort h port =
     (if CHR '':'' \<in> set h then ''['' @ h @ '']:'' @ port else h @ '':'' @ port)"

text \<open>
  \<open>conf\<close> is what \<open>dns.ClientConfigFromFile\<close> reads from /etc/resolv.conf: its servers and port.
\<close>

definition resolverAddrs :: "error + string list \<times> string \<Rightarrow> string list \<Rightarrow> error + string list" where
  "resolverAddrs conf resolvers =
     (if resolvers = [] then
        (case conf of
           Inl e \<Rightarrow> Inl (Msg ''no resolvers configured and reading /etc/resolv.conf failed'' # e)
         | Inr (servers, port) \<Rightarrow>
             (let addrs = map (\<lambda>s. JoinHostPort s port) servers
              in if addrs = [] then Inl [Msg ''no resolvers configured and /etc/resolv.conf lists none'']
                 else Inr addrs))
      else Inr (map (\<lambda>r. if SplitHostPortOK r then r else JoinHostPort r ''53'') resolvers))"

datatype dnsNet = Udp | Tcp

definition exchange :: "(dnsNet \<Rightarrow> string \<Rightarrow> ('s, dnsMsg) io) \<Rightarrow> string \<Rightarrow> ('s, dnsMsg) io" where
  "exchange exch server =
     bindIO (exch Udp server) (\<lambda>resp s.
       if Truncated resp then exch Tcp server s else (Inr resp, s))"

fun publishedOf :: "dnsRR list \<Rightarrow> PublishedTLSA list" where
  "publishedOf [] = []"
| "publishedOf (TLSA_RR u sel mt cert # rrs) =
     \<lparr>pubUsage = u, pubSelector = sel, pubMatchingType = mt, pubCert = ToLower cert\<rparr> # publishedOf rrs"
| "publishedOf (OtherRR x # rrs) = publishedOf rrs"

text \<open>
  The loop over the servers, with the last error so far. \<open>exch\<close> already carries the question,
  which names \<open>OwnerName mxHost\<close> and asks for TLSA records.
\<close>

fun lookupFrom ::
  "(dnsNet \<Rightarrow> string \<Rightarrow> ('s, dnsMsg) io) \<Rightarrow> string list \<Rightarrow> error option \<Rightarrow> ('s, LookupResult) io" where
  "lookupFrom exch [] lastErr s =
     (Inl (Msg ''tlsa lookup failed'' #
        (case lastErr of None \<Rightarrow> [Msg ''no DNS resolvers available''] | Some e \<Rightarrow> e)), s)"
| "lookupFrom exch (server # servers) lastErr s =
     (case exchange exch server s of
        (Inl err, s') \<Rightarrow> lookupFrom exch servers (Some err) s'
      | (Inr resp, s') \<Rightarrow>
          if Rcode resp = RcodeSuccess \<or> Rcode resp = RcodeNameError
          then (Inr \<lparr>RRs = publishedOf (Answer resp), Authenticated = AuthenticatedData resp\<rparr>, s')
          else lookupFrom exch servers (Some [Msg ''resolver returned an error code'']) s')"

definition NewResolverLookup ::
  "(string \<Rightarrow> dnsNet \<Rightarrow> string \<Rightarrow> ('s, dnsMsg) io) \<Rightarrow> error + string list \<times> string \<Rightarrow> string list \<Rightarrow>
   string \<Rightarrow> ('s, LookupResult) io" where
  "NewResolverLookup exch conf resolvers mxHost s =
     (case resolverAddrs conf resolvers of
        Inl e \<Rightarrow> (Inl e, s)
      | Inr servers \<Rightarrow> lookupFrom (exch (OwnerName mxHost)) servers None s)"

section \<open>Lemmas\<close>

lemma decRetiring_json:
  "int64_ok (RetireAfter r) \<Longrightarrow> decRetiring (jsonRetiring r) = Inr r"
  by (simp add: decRetiring_def jsonRetiring_def ToLower_cmp ToLower_cmp [symmetric])

lemma decRetirings_json:
  "\<forall>r \<in> set rs. int64_ok (RetireAfter r) \<Longrightarrow> decRetirings (map jsonRetiring rs) = Inr rs"
  by (induction rs) (simp_all add: decRetiring_json)

lemma Parse_MarshalRetiring:
  assumes "\<forall>r \<in> set rs. int64_ok (RetireAfter r)" and "\<forall>r \<in> set rs. Digest r \<noteq> []"
  shows "ParseRetiring (MarshalRetiring rs) = Inr rs"
proof (cases "\<exists>r. rs = [r]")
  case True
  then obtain r where "rs = [r]" by blast
  with assms decRetiring_json [of r] show ?thesis
    by (simp add: ParseRetiring_def MarshalRetiring_def) (simp add: jsonRetiring_def)
next
  case False
  then have "MarshalRetiring rs = Json (JArr (map jsonRetiring rs))"
    by (auto simp: MarshalRetiring_def split: list.splits)
  with decRetirings_json [OF assms(1)] assms(2) show ?thesis
    by (simp add: ParseRetiring_def filter_id_conv)
qed

lemma ParseRetiring_digests: "ParseRetiring raw = Inr rs \<Longrightarrow> r \<in> set rs \<Longrightarrow> Digest r \<noteq> []"
  by (auto simp: ParseRetiring_def split: sum.splits if_splits)

lemma tlsaCert_NewSPKIRecord [simp]: "tlsaCert (NewSPKIRecord h d ttl) = ToLower d"
  by (simp add: NewSPKIRecord_def)

lemma ContainsSPKIDigest_lower [simp]: "ContainsSPKIDigest r (ToLower d) = ContainsSPKIDigest r d"
  by (simp add: ContainsSPKIDigest_def)

lemma publishedOf_iff:
  "rr \<in> set (publishedOf rrs) \<longleftrightarrow>
     (\<exists>u sel mt cert. TLSA_RR u sel mt cert \<in> set rrs \<and>
        rr = \<lparr>pubUsage = u, pubSelector = sel, pubMatchingType = mt, pubCert = ToLower cert\<rparr>)"
  by (induction rrs rule: publishedOf.induct) auto

section \<open>Properties\<close>

text \<open>
  Markers written by \<open>MarshalRetiring\<close> are read back by \<open>ParseRetiring\<close> unchanged, one in
  the old single-object form and any other number as a list.
\<close>

theorem retiring_roundtrip:
  assumes "\<forall>r \<in> set rs. int64_ok (RetireAfter r) \<and> Digest r \<noteq> []"
  shows "ParseRetiring (MarshalRetiring rs) = Inr rs"
  using assms Parse_MarshalRetiring [of rs] by blast

theorem retiring_roundtrip_witness:
  "ParseRetiring (MarshalRetiring [\<lparr>Digest = ''ab'', RetireAfter = 9\<rparr>]) = Inr [\<lparr>Digest = ''ab'', RetireAfter = 9\<rparr>] \<and>
   ParseRetiring (MarshalRetiring [\<lparr>Digest = ''ab'', RetireAfter = 9\<rparr>, \<lparr>Digest = ''cd'', RetireAfter = - 1\<rparr>])
     = Inr [\<lparr>Digest = ''ab'', RetireAfter = 9\<rparr>, \<lparr>Digest = ''cd'', RetireAfter = - 1\<rparr>]"
  by (intro conjI retiring_roundtrip) (simp_all add: int64_ok_def)

text \<open>
  A lookup that answers did so from a resolver that answered definitively. Whatever it
  returns is the TLSA content of one NOERROR or NXDOMAIN response of a configured server; a
  server failure, SERVFAIL included, is never read as an empty answer.
\<close>

theorem lookup_definitive:
  assumes "lookupFrom exch servers lastErr s = (Inr res, s')"
  shows "\<exists>server \<in> set servers. \<exists>s0 resp. exchange exch server s0 = (Inr resp, s') \<and>
     (Rcode resp = RcodeSuccess \<or> Rcode resp = RcodeNameError) \<and>
     RRs res = publishedOf (Answer resp) \<and> Authenticated res = AuthenticatedData resp"
  using assms
proof (induction exch servers lastErr s rule: lookupFrom.induct)
  case (2 exch server servers lastErr s)
  obtain r s1 where e: "exchange exch server s = (r, s1)" by fastforce
  show ?case
  proof (cases "\<exists>resp. r = Inr resp \<and> (Rcode resp = RcodeSuccess \<or> Rcode resp = RcodeNameError)")
    case True
    then obtain resp where r: "r = Inr resp" "Rcode resp = RcodeSuccess \<or> Rcode resp = RcodeNameError" by blast
    with 2(3) e have "exchange exch server s = (Inr resp, s')" "RRs res = publishedOf (Answer resp)"
      "Authenticated res = AuthenticatedData resp" by auto
    with r(2) show ?thesis by (intro bexI [of _ server] exI [of _ s] exI [of _ resp]) simp_all
  next
    case False
    have "\<exists>server \<in> set servers. \<exists>s0 resp. exchange exch server s0 = (Inr resp, s') \<and>
     (Rcode resp = RcodeSuccess \<or> Rcode resp = RcodeNameError) \<and>
     RRs res = publishedOf (Answer resp) \<and> Authenticated res = AuthenticatedData resp"
    proof (cases r)
      case (Inl err)
      with 2(1) [OF e [symmetric] Inl] 2(3) e show ?thesis by simp
    next
      case (Inr resp)
      with 2(2) [OF e [symmetric] Inr] 2(3) e False show ?thesis by simp
    qed
    then show ?thesis by auto
  qed
qed simp

theorem lookup_definitive_witness:
  "\<exists>server \<in> set [''a:53'', ''b:53''].
     \<exists>s0 resp. exchange (\<lambda>net server s.
         if server = ''a:53'' then (Inr \<lparr>Rcode = 2, AuthenticatedData = False, Truncated = False, Answer = []\<rparr>, s)
         else (Inr \<lparr>Rcode = 0, AuthenticatedData = True, Truncated = False, Answer = [TLSA_RR 3 1 1 ''17'']\<rparr>, s))
       server s0 = (Inr resp, ()) \<and>
     (Rcode resp = RcodeSuccess \<or> Rcode resp = RcodeNameError) \<and>
     [\<lparr>pubUsage = 3, pubSelector = 1, pubMatchingType = 1, pubCert = ''17''\<rparr>] = publishedOf (Answer resp) \<and>
     True = AuthenticatedData resp"
  using lookup_definitive [where servers = "[''a:53'', ''b:53'']" and lastErr = None and s = "()" and s' = "()"
    and res = "\<lparr>RRs = [\<lparr>pubUsage = 3, pubSelector = 1, pubMatchingType = 1, pubCert = ''17''\<rparr>], Authenticated = True\<rparr>"
    and exch = "\<lambda>net server s.
         if server = ''a:53'' then (Inr \<lparr>Rcode = 2, AuthenticatedData = False, Truncated = False, Answer = []\<rparr>, s)
         else (Inr \<lparr>Rcode = 0, AuthenticatedData = True, Truncated = False, Answer = [TLSA_RR 3 1 1 ''17'']\<rparr>, s)"]
  by (simp add: exchange_def bindIO_def RcodeSuccess_def RcodeNameError_def ToLower_def lower_byte_def)

end
