(* ===== verification/DaneController.thy ===== *)
theory DaneController
  imports KeyStore Dane
begin

text \<open>
  dane_controller.go: the TLSA records every MX host should have published, derived from the
  live key, the staged key and the retiring markers, and the two uses made of them: the drift
  alarm and the gate before an automatic issuance. The mutex around the markers makes marking
  and cleaning up atomic to each other within the process; across nodes both run on the leader
  only, so the lemmas about markers take a store nobody else changes (\<open>atomic_store\<close>).
\<close>

section \<open>The code\<close>

record 's daneController =
  dcKeyStore :: "'s KeyStore"
  dcBackend :: "'s backend option"
  dcPrefix :: string
  dcMxHosts :: "string list"
  dcMxSet :: "string list"
  dcTTL :: nat
  dcSoak :: duration
  dcLookup :: "(string \<Rightarrow> ('s, LookupResult) io) option"
  dcHost :: "'s host"

definition newDANEController ::
  "'s host \<Rightarrow> 's KeyStore \<Rightarrow> 's backend option \<Rightarrow> string \<Rightarrow> string list \<Rightarrow> nat \<Rightarrow> duration \<Rightarrow> 's daneController" where
  "newDANEController H ks B pre mxHosts ttl soak =
     \<lparr>dcKeyStore = ks, dcBackend = B, dcPrefix = pre, dcMxHosts = mxHosts,
      dcMxSet = map (normalizeDomain (ToASCII H)) mxHosts, dcTTL = ttl, dcSoak = soak,
      dcLookup = None, dcHost = H\<rparr>"

definition isMX :: "'s daneController \<Rightarrow> string \<Rightarrow> bool" where
  "isMX d h = (normalizeDomain (ToASCII (dcHost d)) h \<in> set (dcMxSet d))"

text \<open>Markers that do not parse are treated as none: the object is there and says nothing usable.\<close>

definition retiringRead :: "'s daneController \<Rightarrow> string \<Rightarrow> ('s, RetiringRecord list) io" where
  "retiringRead d h s =
     (case dcBackend d of
        None \<Rightarrow> (Inr [], s)
      | Some B \<Rightarrow>
          (case GetObject B (RetiringObjectName (dcPrefix d) h) s of
             (Inl err, s') \<Rightarrow>
               if isNotExist err then (Inr [], s')
               else (Inl (Msg ''dane: read retiring markers'' # err), s')
           | (Inr raw, s') \<Rightarrow>
               (case ParseRetiring raw of Inl e \<Rightarrow> (Inr [], s') | Inr records \<Rightarrow> (Inr records, s'))))"

text \<open>The records of the retiring markers that are due and not already covered.\<close>

fun retiringRecords ::
  "'s daneController \<Rightarrow> string \<Rightarrow> time \<Rightarrow> string \<Rightarrow> string \<Rightarrow> RetiringRecord list \<Rightarrow> TLSARecord list" where
  "retiringRecords d h t live nxt [] = []"
| "retiringRecords d h t live nxt (rec # recs) =
     (if Expired t rec \<or> Digest rec = live \<or> Digest rec = nxt then retiringRecords d h t live nxt recs
      else (NewSPKIRecord h (Digest rec) (dcTTL d))
             \<lparr>tlsaNote := ''retiring: keep published until '' @ RFC3339 (dcHost d) (ofUnix (RetireAfter rec))\<rparr>
           # retiringRecords d h t live nxt recs)"

definition recordsForHost :: "'s daneController \<Rightarrow> string \<Rightarrow> ('s, TLSARecord list) io" where
  "recordsForHost d h s =
     (case LoadCertKey (dcKeyStore d) h s of
        (Inl err, s1) \<Rightarrow>
          if isNotExist err then (Inr [], s1) else (Inl (Msg ''dane: load live key'' # err), s1)
      | (Inr liveKey, s1) \<Rightarrow>
          (case SPKISHA256 (dcHost d) (Public liveKey) of
             Inl e \<Rightarrow> (Inl e, s1)
           | Inr liveDigest \<Rightarrow>
               (let liveRec = NewSPKIRecord h liveDigest (dcTTL d) in
                case LoadNextCertKey (dcKeyStore d) h s1 of
                  (nextRes, s2) \<Rightarrow>
                    (case (case nextRes of
                             Inr nextKey \<Rightarrow>
                               (case SPKISHA256 (dcHost d) (Public nextKey) of
                                  Inl e \<Rightarrow> Inl e
                                | Inr nextDigest \<Rightarrow>
                                    Inr (nextDigest,
                                      if nextDigest \<noteq> liveDigest
                                      then [(NewSPKIRecord h nextDigest (dcTTL d))
                                              \<lparr>tlsaNote := ''staged next key: pre-publish before activation''\<rparr>]
                                      else []))
                           | Inl err \<Rightarrow>
                               if isNotExist err then Inr ([], [])
                               else Inl (Msg ''dane: load next key'' # err)) of
                       Inl e \<Rightarrow> (Inl e, s2)
                     | Inr (nextDigest, nextRecs) \<Rightarrow>
                         (let t = now (dcHost d) s2 in
                          case retiringRead d h s2 of
                            (Inl e, s3) \<Rightarrow> (Inl e, s3)
                          | (Inr retiring, s3) \<Rightarrow>
                              (Inr (liveRec # nextRecs @ retiringRecords d h t liveDigest nextDigest retiring), s3))))))"

fun desiredFrom :: "'s daneController \<Rightarrow> string list \<Rightarrow> ('s, TLSARecord list) io" where
  "desiredFrom d [] s = (Inr [], s)"
| "desiredFrom d (h # hs) s =
     (case recordsForHost d h s of
        (Inl e, s1) \<Rightarrow> (Inl e, s1)
      | (Inr recs, s1) \<Rightarrow>
          (case desiredFrom d hs s1 of
             (Inl e, s2) \<Rightarrow> (Inl e, s2)
           | (Inr recs2, s2) \<Rightarrow> (Inr (recs @ recs2), s2)))"

definition DesiredRecords :: "'s daneController \<Rightarrow> ('s, TLSARecord list) io" where
  "DesiredRecords d = desiredFrom d (dcMxHosts d)"

definition writeRetiring :: "'s daneController \<Rightarrow> 's backend \<Rightarrow> string \<Rightarrow> RetiringRecord list \<Rightarrow> ('s, unit) io" where
  "writeRetiring d B h records =
     (let key = RetiringObjectName (dcPrefix d) h
      in if records = [] then RemoveObject B key
         else PutObject B key (MarshalRetiring records) (plainPut ''application/json''))"

text \<open>The markers still in their soak, and whether the digest is among them.\<close>

fun stillRetiring :: "time \<Rightarrow> string \<Rightarrow> RetiringRecord list \<Rightarrow> RetiringRecord list \<times> bool" where
  "stillRetiring t digest [] = ([], False)"
| "stillRetiring t digest (rec # recs) =
     (if Expired t rec then stillRetiring t digest recs
      else (case stillRetiring t digest recs of
              (kept, found) \<Rightarrow> (rec # kept, Digest rec = digest \<or> found)))"

definition markRetiring :: "'s daneController \<Rightarrow> string \<Rightarrow> ('s, unit) io" where
  "markRetiring d h s =
     (case dcBackend d of
        None \<Rightarrow> (Inr (), s)
      | Some B \<Rightarrow>
          (case LoadCertKey (dcKeyStore d) h s of
             (Inl err, s1) \<Rightarrow> (Inl (Msg ''load live key for retiring marker'' # err), s1)
           | (Inr liveKey, s1) \<Rightarrow>
               (case SPKISHA256 (dcHost d) (Public liveKey) of
                  Inl e \<Rightarrow> (Inl e, s1)
                | Inr digest \<Rightarrow>
                    (case retiringRead d h s1 of
                       (Inl e, s2) \<Rightarrow> (Inl e, s2)
                     | (Inr existing, s2) \<Rightarrow>
                         (let t = now (dcHost d) s2 in
                          case stillRetiring t digest existing of
                            (kept, found) \<Rightarrow>
                              if found then (Inr (), s2)
                              else writeRetiring d B h
                                     (kept @ [\<lparr>Digest = digest, RetireAfter = Unix (t + dcSoak d)\<rparr>]) s2)))))"

definition cleanupHost :: "'s daneController \<Rightarrow> 's backend \<Rightarrow> time \<Rightarrow> string \<Rightarrow> 's \<Rightarrow> 's" where
  "cleanupHost d B t h s =
     (case retiringRead d h s of
        (Inl e, s1) \<Rightarrow> s1
      | (Inr records, s1) \<Rightarrow>
          if records = [] then s1
          else
            (let kept = filter (\<lambda>rec. \<not> Expired t rec) records;
                 dropped = filter (Expired t) records
             in if dropped = [] then s1 else snd (writeRetiring d B h kept s1)))"

definition cleanupExpiredRetiring :: "'s daneController \<Rightarrow> 's \<Rightarrow> 's" where
  "cleanupExpiredRetiring d s =
     (case dcBackend d of
        None \<Rightarrow> s
      | Some B \<Rightarrow> (let t = now (dcHost d) s in fold (cleanupHost d B t) (dcMxHosts d) s))"

text \<open>The comparison of one host's desired records with what DNS answered.\<close>

definition publishedMatches :: "TLSARecord list \<Rightarrow> LookupResult \<Rightarrow> bool" where
  "publishedMatches desired published =
     (\<not> lrEmpty published \<and>
      list_all (\<lambda>rec. ContainsSPKIDigest published (tlsaCert rec)) desired \<and>
      list_all (\<lambda>rr. isSPKI311 rr \<longrightarrow> pubCert rr \<in> set (map tlsaCert desired)) (RRs published))"

fun verifyFrom ::
  "'s daneController \<Rightarrow> (string \<Rightarrow> ('s, LookupResult) io) \<Rightarrow> string list \<Rightarrow> (string \<times> bool) list \<Rightarrow> 's \<Rightarrow>
   (string \<times> bool) list \<times> 's" where
  "verifyFrom d lookupF [] status s = (status, s)"
| "verifyFrom d lookupF (h # hs) status s =
     (case recordsForHost d h s of
        (Inl e, s1) \<Rightarrow> verifyFrom d lookupF hs status s1
      | (Inr desired, s1) \<Rightarrow>
          if desired = [] then verifyFrom d lookupF hs status s1
          else
            (case lookupF h s1 of
               (Inl e, s2) \<Rightarrow> verifyFrom d lookupF hs status s2
             | (Inr published, s2) \<Rightarrow>
                 verifyFrom d lookupF hs (AList.update h (publishedMatches desired published) status) s2))"

definition verifyPublished :: "'s daneController option \<Rightarrow> 's \<Rightarrow> (string \<times> bool) list \<times> 's" where
  "verifyPublished dopt s =
     (case dopt of
        None \<Rightarrow> ([], s)
      | Some d \<Rightarrow>
          (case dcLookup d of
             None \<Rightarrow> ([], s)
           | Some lookupF \<Rightarrow> verifyFrom d lookupF (dcMxHosts d) [] s))"

text \<open>With a live key the lookup only decides whether to log a warning.\<close>

definition gateIssuance :: "'s daneController option \<Rightarrow> string \<Rightarrow> ('s, unit) io" where
  "gateIssuance dopt h s =
     (case dopt of
        None \<Rightarrow> (Inr (), s)
      | Some d \<Rightarrow>
          (case dcLookup d of
             None \<Rightarrow> (Inr (), s)
           | Some lookupF \<Rightarrow>
               if \<not> isMX d h then (Inr (), s)
               else
                 (case LoadCertKey (dcKeyStore d) h s of
                    (Inr liveKey, s1) \<Rightarrow> (Inr (), snd (lookupF h s1))
                  | (Inl kerr, s1) \<Rightarrow>
                      if isNotExist kerr then
                        (case lookupF h s1 of
                           (Inl err, s2) \<Rightarrow> (Inr (), s2)
                         | (Inr published, s2) \<Rightarrow>
                             if HasDANEEE published
                             then (Inl [Msg ''dane: TLSA records are published but no live key exists in storage''], s2)
                             else (Inr (), s2))
                      else (Inr (), s1))))"

section \<open>What the store asks to be published\<close>

text \<open>The digests an object store asks to be published for a host at time \<open>t\<close>.\<close>

definition keyDigests :: "'s host \<Rightarrow> objects \<Rightarrow> string \<Rightarrow> string set" where
  "keyDigests H v name =
     (case v name of
        None \<Rightarrow> {}
      | Some (pem, e) \<Rightarrow>
          (case parseKeyPEM pem of
             Inl _ \<Rightarrow> {}
           | Inr k \<Rightarrow> (case SPKISHA256 H (Public k) of Inl _ \<Rightarrow> {} | Inr dg \<Rightarrow> {ToLower dg})))"

definition markersOf :: "objects \<Rightarrow> string \<Rightarrow> RetiringRecord list" where
  "markersOf v name =
     (case v name of
        None \<Rightarrow> []
      | Some (raw, e) \<Rightarrow> (case ParseRetiring raw of Inl _ \<Rightarrow> [] | Inr rs \<Rightarrow> rs))"

definition desiredDigests :: "'s daneController \<Rightarrow> string \<Rightarrow> time \<Rightarrow> objects \<Rightarrow> string set" where
  "desiredDigests d h t v =
     (if v (certKeyName (dcKeyStore d) h) = None then {}
      else keyDigests (dcHost d) v (certKeyName (dcKeyStore d) h) \<union>
           keyDigests (dcHost d) v (nextCertKeyName (dcKeyStore d) h) \<union>
           {ToLower (Digest r) | r. r \<in> set (markersOf v (RetiringObjectName (dcPrefix d) h)) \<and> \<not> Expired t r})"

section \<open>Lemmas\<close>

lemma set_retiringRecords:
  "set (map tlsaCert (retiringRecords d h t live nxt rs)) =
     {ToLower (Digest r) | r. r \<in> set rs \<and> \<not> Expired t r \<and> Digest r \<noteq> live \<and> Digest r \<noteq> nxt}"
  by (induction rs) auto

lemma stillRetiring_kept: "fst (stillRetiring t dg rs) = filter (\<lambda>r. \<not> Expired t r) rs"
  by (induction rs) (auto split: prod.splits)

lemma stillRetiring_found:
  "snd (stillRetiring t dg rs) \<longleftrightarrow> (\<exists>r \<in> set rs. \<not> Expired t r \<and> Digest r = dg)"
  by (induction rs) (auto split: prod.splits)

lemma Expired_later: "t \<le> u \<Longrightarrow> Expired t r \<Longrightarrow> Expired u r"
  using Unix_mono [of t u] by (simp add: Expired_def)

lemma decInt_int64: "decInt nm kvs acc = Inr n \<Longrightarrow> int64_ok acc \<Longrightarrow> int64_ok n"
  by (induction nm kvs acc rule: decInt.induct) (auto split: if_splits json.splits)

lemma decRetiring_int64: "decRetiring j = Inr r \<Longrightarrow> int64_ok (RetireAfter r)"
  by (auto simp: decRetiring_def int64_ok_def [of 0] split: sum.splits dest!: decInt_int64)

lemma decRetirings_int64: "decRetirings js = Inr rs \<Longrightarrow> r \<in> set rs \<Longrightarrow> int64_ok (RetireAfter r)"
  by (induction js arbitrary: rs) (auto split: sum.splits dest: decRetiring_int64)

lemma ParseRetiring_int64: "ParseRetiring raw = Inr rs \<Longrightarrow> r \<in> set rs \<Longrightarrow> int64_ok (RetireAfter r)"
  by (auto simp: ParseRetiring_def split: sum.splits if_splits json.splits
      dest: decRetiring_int64 decRetirings_int64)

lemma markersOf_wf:
  "r \<in> set (markersOf v name) \<Longrightarrow> int64_ok (RetireAfter r) \<and> Digest r \<noteq> []"
  by (auto simp: markersOf_def split: option.splits sum.splits
      dest: ParseRetiring_int64 [OF sym] ParseRetiring_digests [OF sym])

lemma publishedMatches_iff:
  assumes "desired \<noteq> []" and "\<forall>rec \<in> set desired. tlsaCert rec = ToLower (tlsaCert rec)"
  shows "publishedMatches desired published \<longleftrightarrow>
     {pubCert rr | rr. rr \<in> set (RRs published) \<and> isSPKI311 rr} = set (map tlsaCert desired)"
  (is "?l \<longleftrightarrow> ?P = ?D")
proof
  assume l: ?l
  have "?D \<subseteq> ?P"
  proof
    fix x assume "x \<in> ?D"
    then obtain rec where r: "rec \<in> set desired" "x = tlsaCert rec" by auto
    with l have "ContainsSPKIDigest published (tlsaCert rec)" by (simp add: publishedMatches_def list_all_iff)
    with assms(2) r obtain rr where "rr \<in> set (RRs published)" "isSPKI311 rr" "pubCert rr = x"
      by (auto simp: ContainsSPKIDigest_def list_ex_iff)
    then show "x \<in> ?P" by blast
  qed
  moreover have "?P \<subseteq> ?D" using l by (auto simp: publishedMatches_def list_all_iff)
  ultimately show "?P = ?D" by blast
next
  assume eq: "?P = ?D"
  have "ContainsSPKIDigest published (tlsaCert rec)" if "rec \<in> set desired" for rec
  proof -
    from that have "tlsaCert rec \<in> ?P" unfolding eq by simp
    with assms(2) that show ?thesis by (force simp: ContainsSPKIDigest_def list_ex_iff)
  qed
  moreover have "RRs published \<noteq> []" using eq assms(1) by (cases desired) auto
  moreover have "pubCert rr \<in> ?D" if "rr \<in> set (RRs published)" "isSPKI311 rr" for rr
    using that unfolding eq [symmetric] by blast
  ultimately show ?l by (auto simp: publishedMatches_def list_all_iff lrEmpty_def)
qed

text \<open>A clock that no storage call turns back.\<close>

definition monoClock :: "'s host \<Rightarrow> 's backend \<Rightarrow> bool" where
  "monoClock H B =
     ((\<forall>k d opts s r s'. PutObject B k d opts s = (r, s') \<longrightarrow> now H s \<le> now H s') \<and>
      (\<forall>k s r s'. GetObject B k s = (r, s') \<longrightarrow> now H s \<le> now H s') \<and>
      (\<forall>k s r s'. RemoveObject B k s = (r, s') \<longrightarrow> now H s \<le> now H s'))"

lemma ksLoad_clock:
  assumes "monoClock H B" and "ksBackend k = B" and "ksLoad k n s = (r, s')"
  shows "now H s \<le> now H s'"
proof -
  obtain g s1 where "GetObject B n s = (g, s1)" by fastforce
  with assms show ?thesis by (auto simp: monoClock_def ksLoad_def split: sum.splits)
qed

lemma retiringRead_clock:
  assumes "monoClock H B" and "dcBackend d = Some B" and "retiringRead d h s = (r, s')"
  shows "now H s \<le> now H s'"
proof -
  obtain g s1 where "GetObject B (RetiringObjectName (dcPrefix d) h) s = (g, s1)" by fastforce
  with assms show ?thesis by (auto simp: monoClock_def retiringRead_def split: sum.splits if_splits)
qed

lemma writeRetiring_clock:
  assumes "monoClock H B" and "writeRetiring d B h rs s = (r, s')"
  shows "now H s \<le> now H s'"
  using assms by (auto simp: monoClock_def writeRetiring_def Let_def split: if_splits)

context atomic_store
begin

lemma ksLoad_view:
  assumes "ksBackend k = B" and "valid n" and "ksLoad k n s = (r, s')"
  shows "view s' = view s \<and>
    (case r of
       Inr key \<Rightarrow> (\<exists>pem e. view s n = Some (pem, e) \<and> parseKeyPEM pem = Inr key)
     | Inl err \<Rightarrow> isNotExist err \<longrightarrow> view s n = None)"
proof -
  obtain g s1 where g: "GetObject B n s = (g, s1)" by fastforce
  from get_effect [OF assms(2) g] assms(1,3) g show ?thesis
    by (auto simp: ksLoad_def getEffect_def split: sum.splits dest: parseKeyPEM_not_absent)
qed

lemma retiringRead_view:
  assumes "dcBackend d = Some B" and "valid (RetiringObjectName (dcPrefix d) h)"
    and "retiringRead d h s = (r, s')"
  shows "view s' = view s \<and> (\<forall>rs. r = Inr rs \<longrightarrow> rs = markersOf (view s) (RetiringObjectName (dcPrefix d) h))"
proof -
  obtain g s1 where g: "GetObject B (RetiringObjectName (dcPrefix d) h) s = (g, s1)" by fastforce
  from get_effect [OF assms(2) g] assms(1,3) g show ?thesis
    by (auto simp: retiringRead_def getEffect_def markersOf_def split: sum.splits if_splits)
qed

text \<open>Whatever a write of markers answers, the markers are then the old ones or the new ones.\<close>

lemma writeRetiring_markers:
  assumes v: "valid (RetiringObjectName (dcPrefix d) h)"
    and w: "writeRetiring d B h rs s = (r, s')"
    and wf: "\<forall>x \<in> set rs. int64_ok (RetireAfter x) \<and> Digest x \<noteq> []"
  shows "(markersOf (view s') (RetiringObjectName (dcPrefix d) h) = rs \<or>
          (\<not> isOk r \<and> view s' = view s)) \<and>
    (\<forall>n. n \<noteq> RetiringObjectName (dcPrefix d) h \<longrightarrow> view s' n = view s n)"
proof (cases "rs = []")
  case True
  with w have "RemoveObject B (RetiringObjectName (dcPrefix d) h) s = (r, s')"
    by (simp add: writeRetiring_def Let_def)
  from remove_effect [OF v this] True show ?thesis
    by (auto simp: removeEffect_def markersOf_def split: sum.splits)
next
  case False
  with w have "PutObject B (RetiringObjectName (dcPrefix d) h) (MarshalRetiring rs) (plainPut ''application/json'') s = (r, s')"
    by (simp add: writeRetiring_def Let_def)
  from put_effect [OF v this] Parse_MarshalRetiring [of rs] wf show ?thesis
    by (auto simp: putEffect_def markersOf_def split: sum.splits)
qed

lemma cleanupHost_keeps:
  assumes "dcBackend d = Some B" and v: "valid (RetiringObjectName (dcPrefix d) h)"
    and m: "rec \<in> set (markersOf (view s) n)" "\<not> Expired t rec"
  shows "rec \<in> set (markersOf (view (cleanupHost d B t h s)) n)"
proof -
  let ?k = "RetiringObjectName (dcPrefix d) h"
  obtain r s1 where rd: "retiringRead d h s = (r, s1)" by fastforce
  note R = retiringRead_view [OF assms(1) v rd]
  show ?thesis
  proof (cases "\<exists>rs. r = Inr rs \<and> filter (Expired t) rs \<noteq> []")
    case False
    with rd have "cleanupHost d B t h s = s1"
      by (auto simp: cleanupHost_def Let_def split: sum.splits)
    with R m show ?thesis by simp
  next
    case True
    then obtain rs where rs: "r = Inr rs" "filter (Expired t) rs \<noteq> []" by blast
    let ?kept = "filter (\<lambda>x. \<not> Expired t x) rs"
    obtain r2 s2 where w: "writeRetiring d B h ?kept s1 = (r2, s2)" by fastforce
    have ne: "rs \<noteq> []" using rs(2) by auto
    have eq: "rs = markersOf (view s) ?k" using R rs(1) by simp
    have "\<forall>x \<in> set ?kept. int64_ok (RetireAfter x) \<and> Digest x \<noteq> []"
      unfolding eq by (auto dest: markersOf_wf)
    from writeRetiring_markers [OF v w this]
    have W: "markersOf (view s2) ?k = ?kept \<or> view s2 = view s1" "\<forall>n. n \<noteq> ?k \<longrightarrow> view s2 n = view s1 n"
      by auto
    have "cleanupHost d B t h s = s2"
      using rd rs ne w by (simp add: cleanupHost_def Let_def)
    moreover have "rec \<in> set (markersOf (view s2) n)"
    proof (cases "n = ?k")
      case True
      with W(1) m eq R show ?thesis by auto
    next
      case False
      with W(2) m R show ?thesis by (simp add: markersOf_def)
    qed
    ultimately show ?thesis by simp
  qed
qed

lemma cleanup_fold_keeps:
  assumes "dcBackend d = Some B" and "\<forall>h \<in> set hs. valid (RetiringObjectName (dcPrefix d) h)"
    and "rec \<in> set (markersOf (view s) n)" "\<not> Expired t rec"
  shows "rec \<in> set (markersOf (view (fold (cleanupHost d B t) hs s)) n)"
  using assms
proof (induction hs arbitrary: s)
  case (Cons h hs)
  have "rec \<in> set (markersOf (view (cleanupHost d B t h s)) n)"
    using cleanupHost_keeps [OF Cons.prems(1) _ Cons.prems(3,4)] Cons.prems(2) by simp
  with Cons show ?case by simp
qed simp

lemma recordsForHost_desired:
  assumes B: "ksBackend (dcKeyStore d) = B" "dcBackend d = Some B"
    and v: "valid (certKeyName (dcKeyStore d) h)" "valid (nextCertKeyName (dcKeyStore d) h)"
      "valid (RetiringObjectName (dcPrefix d) h)"
    and clock: "monoClock (dcHost d) B"
    and run: "recordsForHost d h s = (Inr recs, s')"
  shows "view s' = view s \<and>
     (\<exists>t. now (dcHost d) s \<le> t \<and> t \<le> now (dcHost d) s' \<and>
        set (map tlsaCert recs) = desiredDigests d h t (view s))"
proof -
  obtain r1 s1 where l1: "LoadCertKey (dcKeyStore d) h s = (r1, s1)" by fastforce
  note V1 = ksLoad_view [OF B(1) v(1) l1 [unfolded LoadCertKey_def]]
  note T1 = ksLoad_clock [OF clock B(1) l1 [unfolded LoadCertKey_def]]
  show ?thesis
  proof (cases r1)
    case (Inl err)
    with run l1 have "isNotExist err" "recs = []" "s' = s1" by (auto simp: recordsForHost_def split: if_splits)
    with V1 T1 Inl show ?thesis by (auto simp: desiredDigests_def)
  next
    case (Inr k)
    with run l1 obtain dg where dg: "SPKISHA256 (dcHost d) (Public k) = Inr dg"
      by (auto simp: recordsForHost_def split: sum.splits)
    obtain r2 s2 where l2: "LoadNextCertKey (dcKeyStore d) h s1 = (r2, s2)" by fastforce
    note V2 = ksLoad_view [OF B(1) v(2) l2 [unfolded LoadNextCertKey_def]]
    note T2 = ksLoad_clock [OF clock B(1) l2 [unfolded LoadNextCertKey_def]]
    let ?t = "now (dcHost d) s2" and ?H = "dcHost d"
    let ?nk = "nextCertKeyName (dcKeyStore d) h" and ?rk = "RetiringObjectName (dcPrefix d) h"
    obtain r3 s3 where l3: "retiringRead d h s2 = (r3, s3)" by fastforce
    note V3 = retiringRead_view [OF B(2) v(3) l3]
    note T3 = retiringRead_clock [OF clock B(2) l3]
    from run l1 l2 l3 Inr dg obtain nd nrs rs where
      nrec: "recs = NewSPKIRecord h dg (dcTTL d) # nrs @ retiringRecords d h ?t dg nd rs" "r3 = Inr rs" "s' = s3"
      and nxt: "(\<exists>nk. r2 = Inr nk \<and> SPKISHA256 ?H (Public nk) = Inr nd \<and>
          set (map tlsaCert nrs) = (if nd = dg then {} else {ToLower nd})) \<or>
        (\<exists>err. r2 = Inl err \<and> isNotExist err \<and> nd = [] \<and> nrs = [])"
      by (auto simp: recordsForHost_def Let_def split: sum.splits if_splits)
    have rs: "rs = markersOf (view s) ?rk" using V1 V2 V3 nrec(2) by simp
    have live: "keyDigests ?H (view s) (certKeyName (dcKeyStore d) h) = {ToLower dg}"
      "view s (certKeyName (dcKeyStore d) h) \<noteq> None"
      using V1 Inr dg by (auto simp: keyDigests_def)
    have nx: "{ToLower dg} \<union> set (map tlsaCert nrs) =
        {ToLower dg} \<union> keyDigests ?H (view s) ?nk \<and>
      (nd = [] \<or> ToLower nd \<in> {ToLower dg} \<union> set (map tlsaCert nrs))"
      using nxt
    proof
      assume "\<exists>nk. r2 = Inr nk \<and> SPKISHA256 ?H (Public nk) = Inr nd \<and>
          set (map tlsaCert nrs) = (if nd = dg then {} else {ToLower nd})"
      then obtain nk where nk: "r2 = Inr nk" "SPKISHA256 ?H (Public nk) = Inr nd"
        and m: "set (map tlsaCert nrs) = (if nd = dg then {} else {ToLower nd})" by blast
      from nk V1 V2 have "keyDigests ?H (view s) ?nk = {ToLower nd}" by (auto simp: keyDigests_def)
      then show ?thesis unfolding m by auto
    next
      assume "\<exists>err. r2 = Inl err \<and> isNotExist err \<and> nd = [] \<and> nrs = []"
      with V1 V2 show ?thesis by (auto simp: keyDigests_def)
    qed
    have "{ToLower (Digest r) | r. r \<in> set rs \<and> \<not> Expired ?t r} \<subseteq>
        {ToLower dg} \<union> set (map tlsaCert nrs) \<union> set (map tlsaCert (retiringRecords d h ?t dg nd rs))"
      unfolding set_retiringRecords using nx markersOf_wf [of _ "view s" ?rk] rs by fastforce
    moreover have "set (map tlsaCert (retiringRecords d h ?t dg nd rs)) \<subseteq>
        {ToLower (Digest r) | r. r \<in> set rs \<and> \<not> Expired ?t r}"
      unfolding set_retiringRecords by blast
    ultimately have "set (map tlsaCert recs) = desiredDigests d h ?t (view s)"
      using nx live nrec(1) rs unfolding desiredDigests_def by auto
    moreover have "view s' = view s" using V1 V2 V3 nrec(3) by simp
    ultimately show ?thesis using T1 T2 T3 nrec(3) by (intro conjI exI [of _ ?t]) auto
  qed
qed

lemma markRetiring_effect:
  assumes B: "ksBackend (dcKeyStore d) = B" "dcBackend d = Some B"
    and v: "valid (certKeyName (dcKeyStore d) h)" "valid (RetiringObjectName (dcPrefix d) h)"
    and clock: "monoClock (dcHost d) B"
    and sha: "\<forall>x. Sha256Hex (dcHost d) x \<noteq> []"
    and yr: "int64_ok (Unix (now (dcHost d) s + dcSoak d))" "int64_ok (Unix (now (dcHost d) s' + dcSoak d))"
    and run: "markRetiring d h s = (r, s')"
  shows "(\<forall>rec \<in> set (markersOf (view s) (RetiringObjectName (dcPrefix d) h)).
            \<not> Expired (now (dcHost d) s') rec \<longrightarrow>
            rec \<in> set (markersOf (view s') (RetiringObjectName (dcPrefix d) h))) \<and>
     (isOk r \<longrightarrow> (\<exists>key pem e dg rec. view s (certKeyName (dcKeyStore d) h) = Some (pem, e) \<and>
        parseKeyPEM pem = Inr key \<and> SPKISHA256 (dcHost d) (Public key) = Inr dg \<and>
        rec \<in> set (markersOf (view s') (RetiringObjectName (dcPrefix d) h)) \<and> Digest rec = dg))"
proof -
  let ?H = "dcHost d" and ?rk = "RetiringObjectName (dcPrefix d) h"
  obtain r1 s1 where l1: "LoadCertKey (dcKeyStore d) h s = (r1, s1)" by fastforce
  note V1 = ksLoad_view [OF B(1) v(1) l1 [unfolded LoadCertKey_def]]
  obtain r2 s2 where l2: "retiringRead d h s1 = (r2, s2)" by fastforce
  note V2 = retiringRead_view [OF B(2) v(2) l2]
  show ?thesis
  proof (cases "\<exists>key dg rs. r1 = Inr key \<and> SPKISHA256 ?H (Public key) = Inr dg \<and> r2 = Inr rs")
    case False
    then have "\<not> isOk r" "s' = s1 \<or> s' = s2"
      using run B l1 l2 by (auto simp: markRetiring_def split: sum.splits)
    with V1 V2 show ?thesis by auto
  next
    case True
    then obtain key dg rs where k: "r1 = Inr key" "SPKISHA256 ?H (Public key) = Inr dg" "r2 = Inr rs" by blast
    have rs: "rs = markersOf (view s) ?rk" using V1 V2 k(3) by simp
    obtain pem e where pem: "view s (certKeyName (dcKeyStore d) h) = Some (pem, e)" "parseKeyPEM pem = Inr key"
      using V1 k(1) by auto
    let ?t = "now ?H s2" and ?new = "\<lparr>Digest = dg, RetireAfter = Unix (now ?H s2 + dcSoak d)\<rparr>"
    obtain kept found where st: "stillRetiring ?t dg rs = (kept, found)" by fastforce
    have kept: "kept = filter (\<lambda>x. \<not> Expired ?t x) rs" using stillRetiring_kept [of ?t dg rs] st by simp
    show ?thesis
    proof (cases found)
      case True
      then have s': "s' = s2" using run B l1 l2 k st by (simp add: markRetiring_def Let_def)
      obtain rec where "rec \<in> set rs" "Digest rec = dg"
        using stillRetiring_found [of ?t dg rs] st True by auto
      with s' rs V1 V2 pem k show ?thesis by auto
    next
      case False
      then have w: "writeRetiring d B h (kept @ [?new]) s2 = (r, s')"
        using run B l1 l2 k st by (simp add: markRetiring_def Let_def)
      note T = writeRetiring_clock [OF clock w]
      have "now ?H s \<le> now ?H s2"
        using ksLoad_clock [OF clock B(1) l1 [unfolded LoadCertKey_def]] retiringRead_clock [OF clock B(2) l2] by simp
      then have new: "int64_ok (RetireAfter ?new)"
        using yr T Unix_mono [of "now ?H s + dcSoak d" "now ?H s2 + dcSoak d"]
          Unix_mono [of "now ?H s2 + dcSoak d" "now ?H s' + dcSoak d"] by (simp add: int64_ok_def)
      have dg: "dg \<noteq> []" using k(2) sha by (auto simp: SPKISHA256_def split: sum.splits)
      have "\<forall>x \<in> set (kept @ [?new]). int64_ok (RetireAfter x) \<and> Digest x \<noteq> []"
        using dg new unfolding kept rs by (auto dest: markersOf_wf)
      note W = writeRetiring_markers [OF v(2) w this, THEN conjunct1]
      have keep: "rec \<in> set (markersOf (view s') ?rk)"
        if "rec \<in> set (markersOf (view s) ?rk)" "\<not> Expired (now ?H s') rec" for rec
        using W V1 V2 that Expired_later [OF T] by (auto simp: kept rs)
      have mk: "isOk r \<Longrightarrow> ?new \<in> set (markersOf (view s') ?rk)" using W by auto
      have "\<exists>key pem e dg rec. view s (certKeyName (dcKeyStore d) h) = Some (pem, e) \<and>
        parseKeyPEM pem = Inr key \<and> SPKISHA256 ?H (Public key) = Inr dg \<and>
        rec \<in> set (markersOf (view s') ?rk) \<and> Digest rec = dg" if "isOk r"
        using pem k(2) mk [OF that]
        by (intro exI [of _ key] exI [of _ pem] exI [of _ e] exI [of _ dg] exI [of _ ?new]) simp
      with keep show ?thesis by blast
    qed
  qed
qed

end

section \<open>Properties\<close>

lemma fs_monoClock: "monoClock fsHost (fsBackend c)"
  unfolding monoClock_def using fsPut_clock fsGet_clock fsRemove_clock by (fastforce simp: fsHost_def)

definition sampleDane :: "fs daneController" where
  "sampleDane = newDANEController fsHost (sampleKeyStore []) (Some (fsBackend sampleConfig)) [] [''m''] 60 Hour"

lemma sampleDane_simps [simp]:
  "ksBackend (dcKeyStore sampleDane) = fsBackend sampleConfig"
  "dcBackend sampleDane = Some (fsBackend sampleConfig)" "dcHost sampleDane = fsHost"
  "dcMxHosts sampleDane = [''m'']" "dcSoak sampleDane = Hour"
  by (simp_all add: sampleDane_def newDANEController_def sampleKeyStore_def NewKeyStore_def)

lemma sampleDane_valid:
  "fsValid sampleConfig (certKeyName (dcKeyStore sampleDane) ''m'')"
  "fsValid sampleConfig (nextCertKeyName (dcKeyStore sampleDane) ''m'')"
  "fsValid sampleConfig (RetiringObjectName (dcPrefix sampleDane) ''m'')"
  by code_simp+

text \<open>
  C22: the records \<open>recordsForHost\<close> answers are exactly what the store asks for at a moment during
  the call: the digest of the live key, of the staged key if there is one, and of every
  retiring marker whose soak has not elapsed, and no other; a host with no key has none.
\<close>

theorem desired_records_exact:
  assumes "atomic_store B view env valid"
    and "ksBackend (dcKeyStore d) = B" and "dcBackend d = Some B"
    and "valid (certKeyName (dcKeyStore d) h)" and "valid (nextCertKeyName (dcKeyStore d) h)"
    and "valid (RetiringObjectName (dcPrefix d) h)"
    and "monoClock (dcHost d) B"
    and "recordsForHost d h s = (Inr recs, s')"
  shows "view s' = view s \<and>
     (\<exists>t. now (dcHost d) s \<le> t \<and> t \<le> now (dcHost d) s' \<and>
        set (map tlsaCert recs) = desiredDigests d h t (view s))"
  using atomic_store.recordsForHost_desired [OF assms] .

definition sampleDaneDisk :: fs where
  "sampleDaneDisk = sampleDisk
     [(''keys/m'', marshalKeyPEM (sampleKey ''1'')),
      (''dane/retiring/m'', MarshalRetiring [\<lparr>Digest = ''0'', RetireAfter = 7\<rparr>, \<lparr>Digest = ''9'', RetireAfter = 0\<rparr>])]"

theorem desired_records_exact_witness:
  "\<exists>recs s' t. recordsForHost sampleDane ''m'' sampleDaneDisk = (Inr recs, s') \<and>
     map tlsaCert recs = [''h1'', ''0''] \<and>
     set (map tlsaCert recs) = desiredDigests sampleDane ''m'' t (fsView sampleConfig sampleDaneDisk)"
proof -
  have c: "(case fst (recordsForHost sampleDane ''m'' sampleDaneDisk) of
      Inl _ \<Rightarrow> False | Inr recs \<Rightarrow> map tlsaCert recs = [''h1'', ''0''])" by code_simp
  then obtain recs s' where r: "recordsForHost sampleDane ''m'' sampleDaneDisk = (Inr recs, s')"
    by (cases "recordsForHost sampleDane ''m'' sampleDaneDisk") (auto split: sum.splits)
  have m: "monoClock (dcHost sampleDane) (fsBackend sampleConfig)" by (simp add: fs_monoClock)
  from desired_records_exact [OF fsa.atomic_store_axioms sampleDane_simps(1,2) sampleDane_valid m r] c r
  show ?thesis by auto
qed

text \<open>
  Marking never drops a digest the fleet may still serve. Whatever \<open>markRetiring\<close> answers,
  every marker whose soak has not elapsed is still there with its own deadline; if it reports
  success, the live key's digest is among the markers.
\<close>

theorem mark_retiring_keeps:
  assumes "atomic_store B view env valid"
    and "ksBackend (dcKeyStore d) = B" and "dcBackend d = Some B"
    and "valid (certKeyName (dcKeyStore d) h)" and "valid (RetiringObjectName (dcPrefix d) h)"
    and "monoClock (dcHost d) B" and "\<forall>x. Sha256Hex (dcHost d) x \<noteq> []"
    and "markRetiring d h s = (r, s')"
    and "int64_ok (Unix (now (dcHost d) s + dcSoak d))" and "int64_ok (Unix (now (dcHost d) s' + dcSoak d))"
  shows "(\<forall>rec \<in> set (markersOf (view s) (RetiringObjectName (dcPrefix d) h)).
            \<not> Expired (now (dcHost d) s') rec \<longrightarrow>
            rec \<in> set (markersOf (view s') (RetiringObjectName (dcPrefix d) h))) \<and>
     (isOk r \<longrightarrow> (\<exists>key pem e dg rec. view s (certKeyName (dcKeyStore d) h) = Some (pem, e) \<and>
        parseKeyPEM pem = Inr key \<and> SPKISHA256 (dcHost d) (Public key) = Inr dg \<and>
        rec \<in> set (markersOf (view s') (RetiringObjectName (dcPrefix d) h)) \<and> Digest rec = dg))"
  using atomic_store.markRetiring_effect [OF assms(1-7,9,10,8)] .

theorem mark_retiring_keeps_witness:
  "\<exists>s'. markRetiring sampleDane ''m'' sampleDaneDisk = (Inr (), s') \<and>
     (\<forall>rec \<in> set (markersOf (fsView sampleConfig sampleDaneDisk) (RetiringObjectName (dcPrefix sampleDane) ''m'')).
        \<not> Expired (now fsHost s') rec \<longrightarrow>
        rec \<in> set (markersOf (fsView sampleConfig s') (RetiringObjectName (dcPrefix sampleDane) ''m'')))"
proof -
  define s' where "s' = snd (markRetiring sampleDane ''m'' sampleDaneDisk)"
  have "fst (markRetiring sampleDane ''m'' sampleDaneDisk) = Inr ()" by code_simp
  then have r: "markRetiring sampleDane ''m'' sampleDaneDisk = (Inr (), s')" by (simp add: s'_def prod_eq_iff)
  have m: "monoClock (dcHost sampleDane) (fsBackend sampleConfig)" by (simp add: fs_monoClock)
  have sha: "\<forall>x. Sha256Hex (dcHost sampleDane) x \<noteq> []" by (simp add: fsHost_def)
  have i: "int64_ok (Unix (now (dcHost sampleDane) sampleDaneDisk + dcSoak sampleDane))"
    "int64_ok (Unix (now (dcHost sampleDane) s' + dcSoak sampleDane))"
    unfolding s'_def by code_simp+
  from mark_retiring_keeps [OF fsa.atomic_store_axioms sampleDane_simps(1,2) sampleDane_valid(1,3) m sha r i] r
  show ?thesis by auto
qed

text \<open>
  Cleaning up drops only what has expired. After \<open>cleanupExpiredRetiring\<close>, storage failures
  included, every marker of every name whose soak had not elapsed when it started is still
  there.
\<close>

theorem cleanup_keeps_unexpired:
  assumes "atomic_store B view env valid" and "dcBackend d = Some B"
    and "\<forall>h \<in> set (dcMxHosts d). valid (RetiringObjectName (dcPrefix d) h)"
    and "rec \<in> set (markersOf (view s) name)" and "\<not> Expired (now (dcHost d) s) rec"
  shows "rec \<in> set (markersOf (view (cleanupExpiredRetiring d s)) name)"
  using atomic_store.cleanup_fold_keeps [OF assms(1-5)] assms(2)
  by (simp add: cleanupExpiredRetiring_def Let_def)

theorem cleanup_keeps_unexpired_witness:
  "\<lparr>Digest = ''0'', RetireAfter = 7\<rparr> \<in> set (markersOf
     (fsView sampleConfig (cleanupExpiredRetiring sampleDane sampleDaneDisk)) ''dane/retiring/m'')"
proof (rule cleanup_keeps_unexpired [OF fsa.atomic_store_axioms])
  show "\<lparr>Digest = ''0'', RetireAfter = 7\<rparr> \<in> set (markersOf (fsView sampleConfig sampleDaneDisk) ''dane/retiring/m'')"
    by code_simp
  show "\<not> Expired (now (dcHost sampleDane) sampleDaneDisk) \<lparr>Digest = ''0'', RetireAfter = 7\<rparr>" by code_simp
qed (use sampleDane_valid in simp_all)

text \<open>
  The drift check of a host reports a match exactly when the "3 1 1" digests published in DNS
  are the desired digests, no fewer and no more.
\<close>

theorem drift_check_exact:
  assumes "desired \<noteq> []" and "\<forall>rec \<in> set desired. tlsaCert rec = ToLower (tlsaCert rec)"
  shows "publishedMatches desired published \<longleftrightarrow>
     {pubCert rr | rr. rr \<in> set (RRs published) \<and> isSPKI311 rr} = set (map tlsaCert desired)"
  using publishedMatches_iff [OF assms] .

theorem drift_check_exact_witness:
  "publishedMatches [NewSPKIRecord ''m'' ''17'' 60]
     \<lparr>RRs = [\<lparr>pubUsage = 3, pubSelector = 1, pubMatchingType = 1, pubCert = ''17''\<rparr>], Authenticated = True\<rparr> \<longleftrightarrow>
   {pubCert rr | rr. rr \<in> set [\<lparr>pubUsage = 3, pubSelector = 1, pubMatchingType = 1, pubCert = ''17''\<rparr>] \<and> isSPKI311 rr}
     = {''17''}"
proof -
  let ?p = "\<lparr>RRs = [\<lparr>pubUsage = 3, pubSelector = 1, pubMatchingType = 1, pubCert = ''17''\<rparr>], Authenticated = True\<rparr>"
  have "ToLower ''17'' = ''17''" by code_simp
  with drift_check_exact [of "[NewSPKIRecord ''m'' ''17'' 60]" ?p] show ?thesis by simp
qed

text \<open>
  Automatic issuance is blocked exactly when it would break DANE: the host is an MX, storage
  answered that there is no live key, and DNS answered with a usage-3 record. Storage or DNS
  trouble never blocks.
\<close>

theorem gate_blocks_iff:
  "(\<exists>e. fst (gateIssuance (Some d) h s) = Inl e) \<longleftrightarrow>
     (\<exists>lookupF kerr s1 published s2. dcLookup d = Some lookupF \<and> isMX d h \<and>
        LoadCertKey (dcKeyStore d) h s = (Inl kerr, s1) \<and> isNotExist kerr \<and>
        lookupF h s1 = (Inr published, s2) \<and> HasDANEEE published)"
  by (auto simp: gateIssuance_def split: option.splits prod.splits sum.splits)

end
