(* ===== verification/CertCache.thy ===== *)
theory CertCache
  imports KeyStore Dane
begin

text \<open>
  cert_cache.go and the file half of local_copy.go: the certificates a node serves from memory,
  the durable chains behind them, the chains it paid for and could not write (\<open>pending\<close>), and
  its own disk copy. The node's memory is the record \<open>cacheMem\<close>, which the manager extends;
  an operation acts on the pair of the outside world and the node. Each mutex of the cache
  guards one map access, so every map operation is atomic.
\<close>

section \<open>Pairing a chain with a key\<close>

definition certBlocks :: "pem_block list \<Rightarrow> der list" where
  "certBlocks bs = map pemBytes (filter (\<lambda>b. pemType b = ''CERTIFICATE'') bs)"

definition verifyKeyMatchesLeaf :: "signer \<Rightarrow> x509 \<Rightarrow> error + unit" where
  "verifyKeyMatchesLeaf key leaf =
     (if Public key \<noteq> PublicKey leaf then Inl [ErrKeyCertMismatch] else Inr ())"

definition buildCertificate :: "blob \<Rightarrow> signer \<Rightarrow> error + certificate" where
  "buildCertificate chainPEM key =
     (let ders = certBlocks (pemBlocks chainPEM) in
      case ders of
        [] \<Rightarrow> Inl [Msg ''no CERTIFICATE blocks in chain'']
      | d0 # _ \<Rightarrow>
          (case ParseCertificate d0 of
             Inl e \<Rightarrow> Inl (Msg ''parse leaf certificate'' # e)
           | Inr leaf \<Rightarrow>
               (case verifyKeyMatchesLeaf key leaf of
                  Inl e \<Rightarrow> Inl e
                | Inr _ \<Rightarrow> Inr \<lparr>Certificate = ders, PrivateKey = SignerKey key, Leaf = Some leaf\<rparr>)))"

fun leafNotAfterBlocks :: "pem_block list \<Rightarrow> error + time" where
  "leafNotAfterBlocks [] = Inl [Msg ''no CERTIFICATE block in chain'']"
| "leafNotAfterBlocks (b # bs) =
     (if pemType b \<noteq> ''CERTIFICATE'' then leafNotAfterBlocks bs
      else (case ParseCertificate (pemBytes b) of Inl e \<Rightarrow> Inl e | Inr leaf \<Rightarrow> Inr (NotAfter leaf)))"

definition leafNotAfterPEM :: "blob \<Rightarrow> error + time" where
  "leafNotAfterPEM chainPEM = leafNotAfterBlocks (pemBlocks chainPEM)"

definition encodeChainPEM :: "der list \<Rightarrow> pem_block list" where
  "encodeChainPEM ders = map (\<lambda>d. \<lparr>pemType = ''CERTIFICATE'', pemBytes = d\<rparr>) ders"

section \<open>The local copy\<close>

text \<open>The directory is on the node's own disk, a \<^typ>\<open>fs\<close> of its own.\<close>

record localCopy =
  lcDir :: string

definition newLocalCopy :: "string \<Rightarrow> (fs, localCopy) io" where
  "newLocalCopy dir =
     bindIO (sysErr ''tls: local certificate directory'') (\<lambda>_.
     bindIO (\<lambda>s. case lookupPath s dir of
                   LAbsent \<Rightarrow> bindIO (mkdirAll dir) (\<lambda>_. sysErr ''tls: local certificate directory'') s
                 | LNotDir \<Rightarrow> (Inl [Msg ''tls: local certificate directory''], s)
                 | LFile _ \<Rightarrow> (Inl [Msg ''tls: local certificate directory is not a directory''], s)
                 | LDir \<Rightarrow> (Inr (), s)) (\<lambda>_.
     bindIO (sysErr ''tls: local certificate directory is not writable'') (\<lambda>_ s.
       (Inr \<lparr>lcDir = dir\<rparr>, s))))"

definition lcPath :: "localCopy \<Rightarrow> string \<Rightarrow> error + string" where
  "lcPath l name =
     (if name = [] \<or> ContainsByte name CHR ''/'' \<or> ContainsByte name CHR 0x5C \<or> HasPrefix name ''.''
      then Inl [Msg ''tls: not a name the local copy can file'']
      else Inr (JoinPath (lcDir l) (name @ ''.pem'')))"

definition copyOf :: "signer \<Rightarrow> der list \<Rightarrow> blob" where
  "copyOf key ders = Pem (pemBlocks (marshalKeyPEM key) @ encodeChainPEM ders)"

definition readFile :: "string \<Rightarrow> (fs, blob) io" where
  "readFile p =
     bindIO (sysErr ''read failed'') (\<lambda>_ s.
       case lookupPath s p of
         LFile f \<Rightarrow> (Inr (fData f), s)
       | LAbsent \<Rightarrow> (Inl [ErrNotExist], s)
       | _ \<Rightarrow> (Inl [Msg ''read failed''], s))"

definition lcSave :: "localCopy \<Rightarrow> string \<Rightarrow> certificate \<Rightarrow> (fs, unit) io" where
  "lcSave l name cert s =
     (case lcPath l name of
        Inl e \<Rightarrow> (Inl e, s)
      | Inr path \<Rightarrow>
          (case PrivateKey cert of
             NonSigner _ \<Rightarrow> (Inl [Msg ''tls: private key is not a crypto.Signer''], s)
           | SignerKey key \<Rightarrow>
               (let data = copyOf key (Certificate cert) in
                case readFile path s of
                  (current, s1) \<Rightarrow>
                    if current = Inr data then (Inr (), s1)
                    else
                      bindIO (writeTemp data) (\<lambda>f.
                      bindIO (renameFile path f) (\<lambda>_ s'. (Inr (), snd (sys s')))) s1)))"

text \<open>The scan of the file: the one private key, if any, and the certificates.\<close>

fun splitCopy :: "pem_block list \<Rightarrow> pem_block option \<Rightarrow> pem_block list \<Rightarrow> error + pem_block option \<times> pem_block list" where
  "splitCopy [] key chain = Inr (key, chain)"
| "splitCopy (b # bs) key chain =
     (if pemType b = ''PRIVATE KEY'' then
        (if key \<noteq> None then Inl [Msg ''more than one private key in the file''] else splitCopy bs (Some b) chain)
      else if pemType b = ''CERTIFICATE'' then splitCopy bs key (chain @ [b])
      else splitCopy bs key chain)"

definition parseCopy :: "string \<Rightarrow> time \<Rightarrow> blob \<Rightarrow> error + certificate" where
  "parseCopy name t data =
     (case splitCopy (pemBlocks data) None [] of
        Inl e \<Rightarrow> Inl e
      | Inr (None, chain) \<Rightarrow> Inl [Msg ''no private key in the file'']
      | Inr (Some k, chain) \<Rightarrow>
          (case parseKeyPEM (Pem [k]) of
             Inl e \<Rightarrow> Inl e
           | Inr key \<Rightarrow>
               (case buildCertificate (Pem chain) key of
                  Inl e \<Rightarrow> Inl e
                | Inr cert \<Rightarrow>
                    (case Leaf cert of
                       None \<Rightarrow> Inl [Msg ''no leaf'']
                     | Some leaf \<Rightarrow>
                         if \<not> VerifyHostname leaf (CertDomain name) then Inl [Msg ''x509: hostname mismatch'']
                         else if \<not> t < NotAfter leaf then Inl [Msg ''the certificate expired'']
                         else Inr cert))))"

definition lcLoad :: "localCopy \<Rightarrow> string \<Rightarrow> time \<Rightarrow> (fs, certificate) io" where
  "lcLoad l name t s =
     (case lcPath l name of
        Inl e \<Rightarrow> (Inl e, s)
      | Inr path \<Rightarrow>
          (case readFile path s of
             (Inl e, s') \<Rightarrow> (Inl e, s')
           | (Inr data, s') \<Rightarrow> (parseCopy name t data, s')))"

section \<open>The cache\<close>

record pendingPersist =
  chainPEM :: blob
  ppNotAfter :: time

definition persistAttempts :: nat where "persistAttempts = 3"
definition persistBackoff :: duration where "persistBackoff = Second"
definition certMissNegativeTTL :: duration where "certMissNegativeTTL = 3 * Second"

record 's certCache =
  ccBackend :: "'s backend"
  ccPrefix :: string
  ccKeyFor :: "string \<Rightarrow> ('s, signer) io"
  ccLocal :: "localCopy option"
  ccLocalFor :: "string \<Rightarrow> bool"
  ccHost :: "'s host"

record cacheMem =
  ccMem :: "string \<Rightarrow> certificate option"
  ccNeg :: "string \<Rightarrow> time option"
  ccPending :: "(string \<times> pendingPersist) list"
  ccFromLocal :: "string list"
  ccDisk :: fs

definition newCertCache ::
  "'s host \<Rightarrow> 's backend \<Rightarrow> string \<Rightarrow> (string \<Rightarrow> ('s, signer) io) \<Rightarrow> 's certCache" where
  "newCertCache H B basePrefix keyFor =
     \<lparr>ccBackend = B, ccPrefix = basePrefix, ccKeyFor = keyFor, ccLocal = None,
      ccLocalFor = (\<lambda>_. False), ccHost = H\<rparr>"

definition newCacheMem :: "fs \<Rightarrow> cacheMem" where
  "newCacheMem disk = \<lparr>ccMem = Map.empty, ccNeg = Map.empty, ccPending = [], ccFromLocal = [], ccDisk = disk\<rparr>"

definition chainKey :: "'s certCache \<Rightarrow> string \<Rightarrow> string" where
  "chainKey c domain = Chain (ccPrefix c) domain"

definition ccGet :: "string \<Rightarrow> 'm cacheMem_scheme \<Rightarrow> certificate option" where
  "ccGet domain n = ccMem n (ToLower domain)"

definition ccSet :: "string \<Rightarrow> certificate \<Rightarrow> 'm cacheMem_scheme \<Rightarrow> 'm cacheMem_scheme" where
  "ccSet domain cert n =
     n\<lparr>ccMem := (ccMem n)(ToLower domain \<mapsto> cert), ccNeg := (ccNeg n)(ToLower domain := None)\<rparr>"

definition recentMiss :: "time \<Rightarrow> string \<Rightarrow> 'm cacheMem_scheme \<Rightarrow> bool" where
  "recentMiss t domain n =
     (case ccNeg n (ToLower domain) of None \<Rightarrow> False | Some t0 \<Rightarrow> t - t0 < certMissNegativeTTL)"

definition noteMiss :: "time \<Rightarrow> string \<Rightarrow> 'm cacheMem_scheme \<Rightarrow> 'm cacheMem_scheme" where
  "noteMiss t domain n = n\<lparr>ccNeg := (ccNeg n)(ToLower domain \<mapsto> t)\<rparr>"

definition leafNotAfter :: "string \<Rightarrow> 'm cacheMem_scheme \<Rightarrow> time option" where
  "leafNotAfter domain n =
     (case ccGet domain n of
        None \<Rightarrow> None
      | Some cert \<Rightarrow> (case Leaf cert of None \<Rightarrow> None | Some leaf \<Rightarrow> Some (NotAfter leaf)))"

text \<open>\<open>hold\<close> is called with a certificate \<open>buildCertificate\<close> made, whose leaf is set.\<close>

definition hold :: "string \<Rightarrow> certificate \<Rightarrow> blob \<Rightarrow> 'm cacheMem_scheme \<Rightarrow> 'm cacheMem_scheme" where
  "hold domain cert chain n =
     (ccSet domain cert n)\<lparr>ccPending := AList.update (ToLower domain)
        \<lparr>chainPEM = chain,
         ppNotAfter = (case Leaf cert of None \<Rightarrow> zeroTime | Some leaf \<Rightarrow> NotAfter leaf)\<rparr> (ccPending n)\<rparr>"

definition dropPending :: "string \<Rightarrow> 'm cacheMem_scheme \<Rightarrow> 'm cacheMem_scheme" where
  "dropPending domain n = n\<lparr>ccPending := AList.delete (ToLower domain) (ccPending n)\<rparr>"

definition pendingDomains :: "'m cacheMem_scheme \<Rightarrow> string list" where
  "pendingDomains n = map fst (ccPending n)"

definition isPending :: "string \<Rightarrow> 'm cacheMem_scheme \<Rightarrow> bool" where
  "isPending domain n = (map_of (ccPending n) (ToLower domain) \<noteq> None)"

definition heldChainFor :: "string \<Rightarrow> signer \<Rightarrow> 'm cacheMem_scheme \<Rightarrow> (blob \<times> certificate) option" where
  "heldChainFor domain key n =
     (case map_of (ccPending n) (ToLower domain) of
        None \<Rightarrow> None
      | Some p \<Rightarrow>
          (case buildCertificate (chainPEM p) key of
             Inl _ \<Rightarrow> None
           | Inr cert \<Rightarrow> Some (chainPEM p, cert)))"

definition confirmed :: "'s certCache \<Rightarrow> string \<Rightarrow> certificate \<Rightarrow> 'm cacheMem_scheme \<Rightarrow> 'm cacheMem_scheme" where
  "confirmed c domain cert n =
     (let key = ToLower domain; n1 = n\<lparr>ccFromLocal := removeAll key (ccFromLocal n)\<rparr> in
      case ccLocal c of
        None \<Rightarrow> n1
      | Some l \<Rightarrow> if \<not> ccLocalFor c key then n1 else n1\<lparr>ccDisk := snd (lcSave l key cert (ccDisk n1))\<rparr>)"

definition setFromLocal :: "string \<Rightarrow> certificate \<Rightarrow> 'm cacheMem_scheme \<Rightarrow> 'm cacheMem_scheme" where
  "setFromLocal domain cert n =
     (ccSet domain cert n)\<lparr>ccFromLocal := List.insert (ToLower domain) (ccFromLocal n)\<rparr>"

definition servedFromLocal :: "'m cacheMem_scheme \<Rightarrow> string list" where
  "servedFromLocal n = ccFromLocal n"

text \<open>
  \<open>persist\<close>: attempt number \<open>a\<close> of \<open>a + left\<close>. A failed attempt that is not the last waits
  \<open>a\<close> times the backoff, unless the context ends first.
\<close>

fun persistLoop :: "'s certCache \<Rightarrow> string \<Rightarrow> blob \<Rightarrow> nat \<Rightarrow> nat \<Rightarrow> ('s, unit) io" where
  "persistLoop c domain chain a left s =
     (case PutObject (ccBackend c) (chainKey c domain) chain (plainPut ''application/x-pem-file'') s of
        (Inr _, s1) \<Rightarrow> (Inr (), s1)
      | (Inl err, s1) \<Rightarrow>
          (case left of
             0 \<Rightarrow> (Inl [Msg ''persist chain'', ErrPersistFailed], s1)
           | Suc k \<Rightarrow>
               (case WaitFor (ccHost c) (int a * persistBackoff) s1 of
                  (True, s2) \<Rightarrow> persistLoop c domain chain (Suc a) k s2
                | (False, s2) \<Rightarrow> (Inl [Msg ''persist chain'', ErrPersistFailed], s2))))"

declare persistLoop.simps [simp del]

definition persist :: "'s certCache \<Rightarrow> string \<Rightarrow> blob \<Rightarrow> nat \<Rightarrow> ('s, unit) io" where
  "persist c domain chain attempts = persistLoop c domain chain 1 (attempts - 1)"

text \<open>The three returns of \<open>Store\<close>: (nil, err), (cert, err) and (cert, nil).\<close>

datatype storeResult = StoreBad error | StoreUnwritten certificate error | StoreDone certificate

definition ccStore ::
  "'s certCache \<Rightarrow> string \<Rightarrow> blob \<Rightarrow> signer \<Rightarrow> 's \<times> 'm cacheMem_scheme \<Rightarrow> storeResult \<times> 's \<times> 'm cacheMem_scheme" where
  "ccStore c domain chain key w =
     (case w of
        (s, n) \<Rightarrow>
          (case buildCertificate chain key of
             Inl e \<Rightarrow> (StoreBad e, s, n)
           | Inr cert \<Rightarrow>
               (case persist c domain chain persistAttempts s of
                  (Inl e, s1) \<Rightarrow> (StoreUnwritten cert e, s1, n)
                | (Inr _, s1) \<Rightarrow>
                    (StoreDone cert, s1, confirmed c domain cert (dropPending domain (ccSet domain cert n))))))"

definition loadChain :: "'s certCache \<Rightarrow> string \<Rightarrow> ('s, blob) io" where
  "loadChain c domain s =
     (case GetObject (ccBackend c) (chainKey c domain) s of
        (Inl err, s1) \<Rightarrow> (Inl (readFailure err), s1)
      | (Inr data, s1) \<Rightarrow> (Inr data, s1))"

definition storedNotAfter :: "'s certCache \<Rightarrow> string \<Rightarrow> ('s, time) io" where
  "storedNotAfter c domain =
     bindIO (loadChain c domain) (\<lambda>chain s.
       (case leafNotAfterPEM chain of
          Inl e \<Rightarrow> (Inl [ErrStoredChainUnparseable], s)
        | Inr t \<Rightarrow> (Inr t, s)))"

definition ccRefresh ::
  "'s certCache \<Rightarrow> string \<Rightarrow> ('s \<times> 'm cacheMem_scheme, certificate) io" where
  "ccRefresh c domain w =
     (case w of
        (s, n) \<Rightarrow>
          (case loadChain c domain s of
             (Inl e, s1) \<Rightarrow> (Inl e, s1, n)
           | (Inr chain, s1) \<Rightarrow>
               (case ccKeyFor c domain s1 of
                  (Inl e, s2) \<Rightarrow> (Inl (Msg ''load key'' # e), s2, n)
                | (Inr key, s2) \<Rightarrow>
                    (case buildCertificate chain key of
                       Inl e \<Rightarrow> (Inl e, s2, n)
                     | Inr cert \<Rightarrow> (Inr cert, s2, confirmed c domain cert (ccSet domain cert n))))))"

definition absentFromStorage :: "error \<Rightarrow> bool" where
  "absentFromStorage err = isNotExist err"

fun leafSPKI :: "'s host \<Rightarrow> pem_block list \<Rightarrow> error + string" where
  "leafSPKI H [] = Inl [Msg ''no CERTIFICATE block in stored chain'']"
| "leafSPKI H (b # bs) =
     (if pemType b = ''CERTIFICATE'' then
        (case ParseCertificate (pemBytes b) of
           Inl e \<Rightarrow> Inl (Msg ''parse stored leaf'' # e)
         | Inr cert \<Rightarrow> SPKISHA256 H (PublicKey cert))
      else leafSPKI H bs)"

definition storedLeafSPKI :: "'s certCache \<Rightarrow> string \<Rightarrow> ('s, string) io" where
  "storedLeafSPKI c domain =
     bindIO (loadChain c domain) (\<lambda>chain s. (leafSPKI (ccHost c) (pemBlocks chain), s))"

section \<open>Lemmas\<close>

text \<open>What a certificate that is served must be: its leaf heads the chain, its key fits the leaf.\<close>

definition certOK :: "certificate \<Rightarrow> bool" where
  "certOK cert =
     (case Leaf cert of
        None \<Rightarrow> False
      | Some leaf \<Rightarrow>
          (case PrivateKey cert of SignerKey key \<Rightarrow> Public key = PublicKey leaf | NonSigner _ \<Rightarrow> False) \<and>
          (case Certificate cert of [] \<Rightarrow> False | d # _ \<Rightarrow> d = CertDER leaf))"

definition memOK :: "'m cacheMem_scheme \<Rightarrow> bool" where
  "memOK n = (\<forall>d cert. ccMem n d = Some cert \<longrightarrow> certOK cert)"

lemma buildCertificate_iff:
  "buildCertificate chain key = Inr cert \<longleftrightarrow>
     certOK cert \<and> PrivateKey cert = SignerKey key \<and> Certificate cert = certBlocks (pemBlocks chain)"
  by (cases cert)
    (auto simp: buildCertificate_def certOK_def verifyKeyMatchesLeaf_def Let_def
      split: list.splits sum.splits option.splits if_splits)

lemma buildCertificate_not_absent: "buildCertificate chain key = Inl e \<Longrightarrow> \<not> isNotExist e"
  by (auto simp: buildCertificate_def verifyKeyMatchesLeaf_def ParseCertificate_def Let_def
      split: list.splits sum.splits if_splits der.splits)

lemma leafNotAfterPEM_certBlocks:
  "leafNotAfterPEM chain =
     (case certBlocks (pemBlocks chain) of
        [] \<Rightarrow> Inl [Msg ''no CERTIFICATE block in chain'']
      | d # _ \<Rightarrow> (case ParseCertificate d of Inl e \<Rightarrow> Inl e | Inr leaf \<Rightarrow> Inr (NotAfter leaf)))"
proof -
  have "leafNotAfterBlocks bs =
     (case certBlocks bs of
        [] \<Rightarrow> Inl [Msg ''no CERTIFICATE block in chain'']
      | d # _ \<Rightarrow> (case ParseCertificate d of Inl e \<Rightarrow> Inl e | Inr leaf \<Rightarrow> Inr (NotAfter leaf)))" for bs
    by (induction bs) (auto simp: certBlocks_def)
  then show ?thesis by (simp add: leafNotAfterPEM_def)
qed

lemma certBlocks_encode [simp]: "certBlocks (encodeChainPEM ders) = ders"
  by (induction ders) (auto simp: certBlocks_def encodeChainPEM_def)

lemma splitCopy_encode:
  "splitCopy (encodeChainPEM ders) key chain = Inr (key, chain @ encodeChainPEM ders)"
  by (induction ders arbitrary: chain) (auto simp: encodeChainPEM_def)

lemma parseCopy_copyOf:
  assumes "certOK cert" and "Leaf cert = Some leaf" and "PrivateKey cert = SignerKey key"
    and "VerifyHostname leaf (CertDomain name)" and "t < NotAfter leaf"
  shows "parseCopy name t (copyOf key (Certificate cert)) = Inr cert"
proof -
  let ?k = "\<lparr>pemType = ''PRIVATE KEY'', pemBytes = KeyDER (SignerKey key)\<rparr>"
  have "splitCopy (pemBlocks (copyOf key (Certificate cert))) None [] = Inr (Some ?k, encodeChainPEM (Certificate cert))"
    by (simp add: copyOf_def marshalKeyPEM_def splitCopy_encode)
  moreover have "parseKeyPEM (Pem [?k]) = Inr key"
    using parse_marshalKeyPEM by (simp add: marshalKeyPEM_def)
  moreover have "buildCertificate (Pem (encodeChainPEM (Certificate cert))) key = Inr cert"
    using assms(1,3) by (simp add: buildCertificate_iff)
  ultimately show ?thesis using assms by (simp add: parseCopy_def)
qed

lemma parseCopy_sound:
  "parseCopy name t d = Inr cert \<Longrightarrow>
     certOK cert \<and> (\<exists>leaf. Leaf cert = Some leaf \<and> VerifyHostname leaf (CertDomain name) \<and> t < NotAfter leaf)"
  by (auto simp: parseCopy_def buildCertificate_iff split: sum.splits option.splits if_splits)

lemma readFile_ok: "readFile p s = (Inr d, s') \<Longrightarrow> \<exists>f. map_of (fsFiles s) p = Some f \<and> fData f = d \<and> fsFiles s' = fsFiles s"
  by (auto simp: readFile_def bindIO_Inr lookupPath_def split: lookup.splits option.splits if_splits
      dest!: sysErr_files)

lemma readFile_files: "readFile p s = (r, s') \<Longrightarrow> fsFiles s' = fsFiles s"
  by (auto simp: readFile_def bindIO_def split: prod.splits sum.splits lookup.splits dest!: sysErr_files)

lemma lcSave_ok:
  assumes "lcSave l name cert s = (Inr u, s')"
  shows "\<exists>path f key. lcPath l name = Inr path \<and> PrivateKey cert = SignerKey key \<and>
     map_of (fsFiles s') path = Some f \<and> fData f = copyOf key (Certificate cert)"
proof -
  obtain path key where p: "lcPath l name = Inr path" "PrivateKey cert = SignerKey key"
    using assms by (auto simp: lcSave_def split: sum.splits privkey.splits)
  let ?d = "copyOf key (Certificate cert)"
  obtain cur s1 where r: "readFile path s = (cur, s1)" by fastforce
  show ?thesis
  proof (cases "cur = Inr ?d")
    case True
    with readFile_ok [of path s ?d s1] r p assms show ?thesis by (auto simp: lcSave_def)
  next
    case False
    with assms p r obtain f s2 s3 where w: "writeTemp ?d s1 = (Inr f, s2)"
      and m: "renameFile path f s2 = (Inr (), s3)" and s': "s' = snd (sys s3)"
      by (auto simp: lcSave_def bindIO_Inr)
    from m have "map_of (fsFiles s3) path = Some f"
      by (auto simp: renameFile_def install_def split: prod.splits sum.splits lookup.splits)
    with s' writeTemp_ok [OF w] p show ?thesis by simp
  qed
qed

lemma confirmed_mem [simp]:
  "ccMem (confirmed c d cert n) = ccMem n" "ccPending (confirmed c d cert n) = ccPending n"
  by (auto simp: confirmed_def Let_def split: option.splits)

lemma confirmed_fromLocal [simp]:
  "ccFromLocal (confirmed c d cert n) = removeAll (ToLower d) (ccFromLocal n)"
  by (auto simp: confirmed_def Let_def split: option.splits)

lemma ccSet_simps [simp]:
  "ccMem (ccSet d cert n) = (ccMem n)(ToLower d \<mapsto> cert)" "ccPending (ccSet d cert n) = ccPending n"
  "ccFromLocal (ccSet d cert n) = ccFromLocal n"
  by (simp_all add: ccSet_def)

lemma dropPending_simps [simp]:
  "ccMem (dropPending d n) = ccMem n" "ccPending (dropPending d n) = AList.delete (ToLower d) (ccPending n)"
  "ccFromLocal (dropPending d n) = ccFromLocal n"
  by (simp_all add: dropPending_def)

lemma ccRefresh_cases:
  assumes "ccRefresh c d (s, n) = (r, s', n')"
  obtains (ok) cert chain key s1 where "r = Inr cert" "n' = confirmed c d cert (ccSet d cert n)"
      "loadChain c d s = (Inr chain, s1)" "certOK cert" "Certificate cert = certBlocks (pemBlocks chain)"
      "PrivateKey cert = SignerKey key" "ccKeyFor c d s1 = (Inr key, s')"
  | (err) e where "r = Inl e" "n' = n"
proof -
  obtain rl s1 where l: "loadChain c d s = (rl, s1)" by fastforce
  show thesis
  proof (cases rl)
    case (Inl e)
    with l assms err show ?thesis by (auto simp: ccRefresh_def)
  next
    case (Inr chain)
    obtain rk s2 where k: "ccKeyFor c d s1 = (rk, s2)" by fastforce
    show ?thesis
    proof (cases rk)
      case (Inl e)
      with k l Inr assms err show ?thesis by (auto simp: ccRefresh_def)
    next
      case key: (Inr key)
      show ?thesis
      proof (cases "buildCertificate chain key")
        case (Inl e)
        with key k l Inr assms have "r = Inl e" "n' = n" by (auto simp: ccRefresh_def)
        then show ?thesis by (rule err)
      next
        case (Inr cert)
        note b = Inr [unfolded buildCertificate_iff]
        have "r = Inr cert" "s' = s2" "n' = confirmed c d cert (ccSet d cert n)"
          using Inr key k l \<open>rl = Inr chain\<close> assms by (simp_all add: ccRefresh_def)
        then show ?thesis using ok [of cert chain s1 key] b key k l \<open>rl = Inr chain\<close> by simp
      qed
    qed
  qed
qed

lemma ccRefresh_absent:
  assumes "ccRefresh c d (s, n) = (Inl e, s', n')" and "isNotExist e"
    and "\<And>s e s'. ccKeyFor c d s = (Inl e, s') \<Longrightarrow> \<not> isNotExist e"
  shows "\<exists>err. GetObject (ccBackend c) (chainKey c d) s = (Inl err, s') \<and> isNotExist err"
  using assms
  by (auto simp: ccRefresh_def loadChain_def split: prod.splits sum.splits
      dest: buildCertificate_not_absent)

text \<open>
  "There is none" is also what a refresh answers when the chain is stored and only the key object
  is missing: the error of the key is wrapped and \<open>absentFromStorage\<close> looks through the wrapping.
\<close>

lemma missing_key_reads_as_absent:
  assumes "loadChain c d s = (Inr chain, s1)" and "ccKeyFor c d s1 = (Inl e, s2)" and "isNotExist e"
  shows "\<exists>e'. ccRefresh c d (s, n) = (Inl e', s2, n) \<and> absentFromStorage e'"
  using assms by (simp add: ccRefresh_def absentFromStorage_def)

lemma memOK_set: "memOK n \<Longrightarrow> certOK cert \<Longrightarrow> memOK (ccSet d cert n)"
  by (auto simp: memOK_def)

lemma memOK_cong: "ccMem n' = ccMem n \<Longrightarrow> memOK n' = memOK n"
  by (simp add: memOK_def)

lemma memOK_refresh:
  assumes "memOK n" and "ccRefresh c d (s, n) = (r, s', n')"
  shows "memOK n'"
  using assms(2)
proof (cases rule: ccRefresh_cases)
  case (ok cert chain key s1)
  with memOK_set [OF assms(1) ok(4), of d] show ?thesis by (simp add: memOK_def)
next
  case err
  with assms(1) show ?thesis by simp
qed

lemma memOK_store:
  assumes "memOK n" and "ccStore c d chain key (s, n) = (r, s', n')"
  shows "memOK n' \<and> (\<forall>cert e. r = StoreUnwritten cert e \<longrightarrow> certOK cert)"
proof (cases "buildCertificate chain key")
  case (Inl e)
  with assms show ?thesis by (auto simp: ccStore_def)
next
  case (Inr cert)
  then have ok: "certOK cert" by (simp add: buildCertificate_iff)
  from memOK_set [OF assms(1) this] assms Inr ok show ?thesis
    by (auto simp: ccStore_def memOK_def split: prod.splits sum.splits if_splits)
qed

lemma memOK_hold: "memOK n \<Longrightarrow> certOK cert \<Longrightarrow> memOK (hold d cert chain n)"
  using memOK_set [of n cert d] by (simp add: hold_def memOK_def)

lemma memOK_setFromLocal: "memOK n \<Longrightarrow> certOK cert \<Longrightarrow> memOK (setFromLocal d cert n)"
  using memOK_set [of n cert d] by (simp add: setFromLocal_def memOK_def)

lemma memOK_neg_pending [simp]: "memOK (noteMiss t d n) = memOK n" "memOK (dropPending d n) = memOK n"
  by (simp_all add: memOK_def noteMiss_def)

lemma memOK_new [simp]: "memOK (newCacheMem disk)"
  by (simp add: memOK_def newCacheMem_def)

lemma persistLoop_err: "persistLoop c d chain a left s = (Inl e, s') \<Longrightarrow> errIs e ErrPersistFailed"
proof (induction left arbitrary: a s)
  case 0
  then show ?case by (subst (asm) persistLoop.simps) (auto split: prod.splits sum.splits)
next
  case (Suc k)
  then show ?case by (subst (asm) persistLoop.simps) (auto split: prod.splits sum.splits bool.splits)
qed

context backend_contract
begin

text \<open>A persist that reports success left the chain in storage.\<close>

lemma persistLoop_ok:
  assumes "ccBackend c = B" and "valid (chainKey c d)" and "persistLoop c d chain a left s = (Inr u, s')"
  shows "\<exists>e. view s' (chainKey c d) = Some (chain, e)"
  using assms(3)
proof (induction left arbitrary: a s)
  case 0
  then show ?case using assms(1) put_ok [OF assms(2)]
    by (subst (asm) persistLoop.simps) (auto split: prod.splits sum.splits)
next
  case (Suc k)
  obtain r1 s1 where p: "PutObject B (chainKey c d) chain (plainPut ''application/x-pem-file'') s = (r1, s1)"
    by fastforce
  show ?case
  proof (cases r1)
    case (Inr v)
    with Suc.prems p assms(1) put_ok [OF assms(2)] show ?thesis
      by (subst (asm) persistLoop.simps) auto
  next
    case (Inl e)
    with Suc.prems p assms(1) obtain s2 where "persistLoop c d chain (Suc a) k s2 = (Inr u, s')"
      by (subst (asm) persistLoop.simps) (auto split: prod.splits bool.splits)
    with Suc.IH show ?thesis by blast
  qed
qed

end

section \<open>Properties\<close>

text \<open>The operations that put a certificate into memory, as one step each.\<close>

inductive memStep :: "'s certCache \<Rightarrow> 's \<times> 'm cacheMem_scheme \<Rightarrow> 's \<times> 'm cacheMem_scheme \<Rightarrow> bool" for c where
  refresh: "ccRefresh c d (s, n) = (r, s', n') \<Longrightarrow> memStep c (s, n) (s', n')"
| store: "ccStore c d chain key (s, n) = (r, s', n') \<Longrightarrow> memStep c (s, n) (s', n')"
| held: "ccStore c d chain key (s, n) = (StoreUnwritten cert e, s', n') \<Longrightarrow>
     memStep c (s, n) (s', hold d cert chain n')"
| heldAgain: "heldChainFor d key n = Some (chain, cert) \<Longrightarrow> memStep c (s, n) (s, hold d cert chain n)"
| local: "lcLoad l d t (ccDisk n) = (Inr cert, disk) \<Longrightarrow>
     memStep c (s, n) (s, setFromLocal d cert (n\<lparr>ccDisk := disk\<rparr>))"
| miss: "memStep c (s, n) (s, noteMiss t d n)"
| drop: "memStep c (s, n) (s, dropPending d n)"
| world: "memStep c (s, n) (s', n)"

lemma memStep_preserves: "memStep c w w' \<Longrightarrow> memOK (snd w) \<Longrightarrow> memOK (snd w')"
proof (induction rule: memStep.induct)
  case (held d chain key s n cert e s' n')
  with memOK_store [OF _ held(1)] memOK_hold show ?case by auto
next
  case (heldAgain d key n chain cert s)
  then have "certOK cert"
    by (auto simp: heldChainFor_def buildCertificate_iff split: option.splits sum.splits)
  with heldAgain memOK_hold show ?case by auto
next
  case (local l d t n cert disk s)
  then have "certOK cert" by (auto simp: lcLoad_def split: sum.splits prod.splits dest: parseCopy_sound)
  moreover have "memOK (n\<lparr>ccDisk := disk\<rparr>)" using local by (simp add: memOK_def)
  ultimately show ?case using memOK_setFromLocal by auto
qed (auto dest: memOK_refresh memOK_store)

text \<open>
  A node never serves a certificate it cannot sign for. Starting from an empty cache, whatever
  sequence of refreshes, stores, held chains and local copies filled its memory, and whatever
  storage answered in between, the private key of every certificate in memory is the one its
  leaf certifies, and the leaf heads the chain.
\<close>

theorem served_key_matches_leaf:
  assumes "(memStep c)\<^sup>*\<^sup>* (s0, newCacheMem disk) (s, n)" and "ccGet domain n = Some cert"
  shows "certOK cert"
proof -
  have "memOK (snd (s, n))"
    using assms(1) by (induction rule: rtranclp_induct) (auto intro: memStep_preserves)
  with assms(2) show ?thesis by (simp add: memOK_def ccGet_def)
qed

definition sampleLeaf :: x509 where
  "sampleLeaf = \<lparr>PublicKey = Public (sampleKey ''x''), NotBefore = 0, NotAfter = 100, DNSNames = [''a''],
     IssuerCN = ''ca'', Serial = 1\<rparr>"

definition sampleChain :: blob where
  "sampleChain = Pem (encodeChainPEM [CertDER sampleLeaf])"

definition sampleCache :: "fs certCache" where
  "sampleCache = newCertCache fsHost (fsBackend sampleConfig) [] (LoadCertKey (sampleKeyStore []))"

theorem served_key_matches_leaf_witness:
  "\<exists>s n cert. (memStep sampleCache)\<^sup>*\<^sup>*
       (sampleDisk [(''keys/a'', marshalKeyPEM (sampleKey ''x'')), (''certs/a'', sampleChain)], newCacheMem (sampleDisk [])) (s, n) \<and>
     ccGet ''a'' n = Some cert \<and> certOK cert"
proof -
  let ?s = "sampleDisk [(''keys/a'', marshalKeyPEM (sampleKey ''x'')), (''certs/a'', sampleChain)]"
  let ?n = "newCacheMem (sampleDisk [])"
  obtain r s' n' where r: "ccRefresh sampleCache ''a'' (?s, ?n) = (r, s', n')" by (metis prod.collapse)
  have "isOk (fst (ccRefresh sampleCache ''a'' (?s, ?n)))" by code_simp
  with r obtain cert where "n' = confirmed sampleCache ''a'' cert (ccSet ''a'' cert ?n)"
    by (auto elim!: ccRefresh_cases)
  then have g: "ccGet ''a'' n' = Some cert" by (simp add: ccGet_def)
  have st: "(memStep sampleCache)\<^sup>*\<^sup>* (?s, ?n) (s', n')" using memStep.refresh [OF r] by blast
  from st g served_key_matches_leaf [OF st g] show ?thesis by blast
qed

text \<open>
  A refresh that fails, whatever the reason, leaves everything the node serves, holds and
  remembers as it was, so the last good certificate stays in use.
\<close>

theorem failed_refresh_changes_nothing:
  assumes "ccRefresh c d (s, n) = (Inl e, s', n')"
  shows "n' = n"
  using assms by (cases rule: ccRefresh_cases) auto

theorem failed_refresh_changes_nothing_witness:
  "\<exists>e s'. ccRefresh sampleCache ''a'' (sampleDisk [(''keys/a'', marshalKeyPEM (sampleKey ''y'')), (''certs/a'', sampleChain)],
      newCacheMem (sampleDisk [])) = (Inl e, s', newCacheMem (sampleDisk []))"
proof -
  let ?w = "(sampleDisk [(''keys/a'', marshalKeyPEM (sampleKey ''y'')), (''certs/a'', sampleChain)], newCacheMem (sampleDisk []))"
  have f: "fst (ccRefresh sampleCache ''a'' ?w) = Inl [ErrKeyCertMismatch]" by code_simp
  obtain r s' n' where r: "ccRefresh sampleCache ''a'' ?w = (r, s', n')" by (metis prod.collapse)
  with f have "ccRefresh sampleCache ''a'' ?w = (Inl [ErrKeyCertMismatch], s', n')" by simp
  with failed_refresh_changes_nothing [OF this] show ?thesis by blast
qed

text \<open>
  A successful store is durable and clean: the chain is in storage, the certificate is in
  memory, and the name is no longer pending; an unsuccessful one installs nothing.
\<close>

theorem store_outcomes:
  assumes "backend_contract B view env valid" and "ccBackend c = B" and "valid (chainKey c d)"
    and "ccStore c d chain key (s, n) = (r, s', n')"
  shows "case r of
      StoreDone cert \<Rightarrow> (\<exists>e. view s' (chainKey c d) = Some (chain, e)) \<and> ccGet d n' = Some cert \<and>
        \<not> isPending d n' \<and> buildCertificate chain key = Inr cert
    | StoreUnwritten cert e \<Rightarrow> n' = n \<and> buildCertificate chain key = Inr cert \<and> errIs e ErrPersistFailed
    | StoreBad e \<Rightarrow> n' = n \<and> s' = s"
proof (cases "buildCertificate chain key")
  case (Inl e)
  with assms(4) show ?thesis by (auto simp: ccStore_def)
next
  case (Inr cert)
  obtain p s1 where p: "persist c d chain persistAttempts s = (p, s1)" by fastforce
  show ?thesis
  proof (cases p)
    case p1: (Inl e)
    have "errIs e ErrPersistFailed"
      using p p1 persistLoop_err [of c d chain 1 "persistAttempts - 1" s e s1] by (simp add: persist_def)
    with p1 p Inr assms(4) show ?thesis by (auto simp: ccStore_def)
  next
    case p1: (Inr u)
    from backend_contract.persistLoop_ok [OF assms(1-3)] p p1
    have "\<exists>e. view s1 (chainKey c d) = Some (chain, e)" unfolding persist_def by blast
    with p1 p Inr assms(4) show ?thesis by (auto simp: ccStore_def ccGet_def isPending_def)
  qed
qed

theorem store_outcomes_witness:
  "\<exists>cert s' n' e. ccStore sampleCache ''a'' sampleChain (sampleKey ''x'') (sampleDisk [], newCacheMem (sampleDisk []))
       = (StoreDone cert, s', n') \<and>
     fsView sampleConfig s' (chainKey sampleCache ''a'') = Some (sampleChain, e) \<and> ccGet ''a'' n' = Some cert"
proof -
  let ?w = "(sampleDisk [], newCacheMem (sampleDisk []))"
  have f: "case fst (ccStore sampleCache ''a'' sampleChain (sampleKey ''x'') ?w) of StoreDone _ \<Rightarrow> True | _ \<Rightarrow> False"
    by code_simp
  obtain r s' n' where r: "ccStore sampleCache ''a'' sampleChain (sampleKey ''x'') ?w = (r, s', n')"
    by (metis prod.collapse)
  with f obtain cert where c: "r = StoreDone cert" by (auto split: storeResult.splits)
  have v: "fsValid sampleConfig (chainKey sampleCache ''a'')" by code_simp
  have b: "ccBackend sampleCache = fsBackend sampleConfig" by (simp add: sampleCache_def newCertCache_def)
  from store_outcomes [OF fsb.backend_contract_axioms b v r] c r show ?thesis by auto
qed

text \<open>
  C32: what \<open>save\<close> wrote, \<open>load\<close> reads back: after a successful save of a well-formed certificate,
  reading the file again yields that very certificate, as long as it covers the name and has
  not expired.
\<close>

theorem local_copy_roundtrip:
  assumes "lcSave l name cert disk = (Inr u, disk')" and "certOK cert" and "Leaf cert = Some leaf"
    and "VerifyHostname leaf (CertDomain name)" and "t < NotAfter leaf"
    and "lcPath l name = Inr path" and "readFile path disk' = (Inr d, disk'')"
  shows "lcLoad l name t disk' = (Inr cert, disk'')"
proof -
  from lcSave_ok [OF assms(1)] assms(6) readFile_ok [OF assms(7)] obtain key
    where "d = copyOf key (Certificate cert)" "PrivateKey cert = SignerKey key" by auto
  with parseCopy_copyOf [OF assms(2,3) _ assms(4,5)] assms(6,7) show ?thesis by (simp add: lcLoad_def)
qed

theorem local_copy_roundtrip_witness:
  "\<exists>disk' disk''. lcSave \<lparr>lcDir = ''/c''\<rparr> ''a'' \<lparr>Certificate = [CertDER sampleLeaf], PrivateKey = SignerKey (sampleKey ''x''), Leaf = Some sampleLeaf\<rparr>
       (sampleDisk []) = (Inr (), disk') \<and>
     lcLoad \<lparr>lcDir = ''/c''\<rparr> ''a'' 5 disk' =
       (Inr \<lparr>Certificate = [CertDER sampleLeaf], PrivateKey = SignerKey (sampleKey ''x''), Leaf = Some sampleLeaf\<rparr>, disk'')"
proof -
  let ?c = "\<lparr>Certificate = [CertDER sampleLeaf], PrivateKey = SignerKey (sampleKey ''x''), Leaf = Some sampleLeaf\<rparr>"
  let ?l = "\<lparr>lcDir = ''/c''\<rparr>"
  define disk' where "disk' = snd (lcSave ?l ''a'' ?c (sampleDisk []))"
  have "fst (lcSave ?l ''a'' ?c (sampleDisk [])) = Inr ()" by code_simp
  then have s: "lcSave ?l ''a'' ?c (sampleDisk []) = (Inr (), disk')" by (simp add: disk'_def prod_eq_iff)
  have p: "lcPath ?l ''a'' = Inr ''/c/a.pem''" by code_simp
  have "isOk (fst (readFile ''/c/a.pem'' disk'))" unfolding disk'_def by code_simp
  then obtain d disk'' where r: "readFile ''/c/a.pem'' disk' = (Inr d, disk'')"
    by (cases "readFile ''/c/a.pem'' disk'") (auto elim: isOk_E)
  have o: "certOK ?c" by code_simp
  have h: "VerifyHostname sampleLeaf (CertDomain ''a'')" by code_simp
  have t: "5 < NotAfter sampleLeaf" by (simp add: sampleLeaf_def)
  from local_copy_roundtrip [OF s o _ h t p r] s show ?thesis by auto
qed

text \<open>
  The local copy files nothing outside its directory and serves nothing doubtful: a certificate
  \<open>load\<close> returns has its key fitting its leaf, covers the name's host and has not expired.
\<close>

theorem local_copy_load_sound:
  assumes "lcLoad l name t disk = (Inr cert, disk')"
  shows "certOK cert \<and> (\<exists>leaf. Leaf cert = Some leaf \<and> VerifyHostname leaf (CertDomain name) \<and> t < NotAfter leaf) \<and>
     CHR ''/'' \<notin> set name \<and> name \<noteq> ''..'' \<and> lcPath l name = Inr (JoinPath (lcDir l) (name @ ''.pem''))"
  using assms
  by (auto simp: lcLoad_def lcPath_def ContainsByte_def split: sum.splits prod.splits if_splits dest: parseCopy_sound)

theorem local_copy_load_sound_witness:
  "\<exists>cert disk'. lcLoad \<lparr>lcDir = ''/d''\<rparr> ''a'' 5 (sampleDisk [(''a.pem'',
       copyOf (sampleKey ''x'') [CertDER sampleLeaf])])
     = (Inr cert, disk') \<and> certOK cert"
proof -
  let ?s = "sampleDisk [(''a.pem'', copyOf (sampleKey ''x'') [CertDER sampleLeaf])]"
  have "isOk (fst (lcLoad \<lparr>lcDir = ''/d''\<rparr> ''a'' 5 ?s))" by code_simp
  then obtain cert disk' where l: "lcLoad \<lparr>lcDir = ''/d''\<rparr> ''a'' 5 ?s = (Inr cert, disk')"
    by (cases "lcLoad \<lparr>lcDir = ''/d''\<rparr> ''a'' 5 ?s") (auto elim: isOk_E)
  with local_copy_load_sound [OF l] show ?thesis by blast
qed

end
