(* ===== verification/Challenge.thy ===== *)
theory Challenge
  imports CertCache
begin

text \<open>
  challenge.go: the ACME challenge responses a node serves, mirrored to storage so that whichever
  node the CA reaches can answer. The node's tables are the record \<open>chMem\<close>; the table of
  recent misses is an association list because its size is bounded.
\<close>

section \<open>The code\<close>

record 's ChallengeServer =
  csBackend :: "'s backend option"
  csPrefix :: string
  csHost :: "'s host"

record chMem =
  chAlpn :: "string \<Rightarrow> certificate option"
  chHttp :: "string \<Rightarrow> string option"
  chMisses :: "(string \<times> time) list"

definition tokenMissTTL :: duration where "tokenMissTTL = 10 * Second"
definition tokenMissCap :: nat where "tokenMissCap = 4096"
definition maxTokenLength :: nat where "maxTokenLength = 128"

definition newChMem :: chMem where
  "newChMem = \<lparr>chAlpn = Map.empty, chHttp = Map.empty, chMisses = []\<rparr>"

definition tokenChar :: "char \<Rightarrow> bool" where
  "tokenChar c =
     (let n = (of_char c :: nat) in
      (65 \<le> n \<and> n \<le> 90) \<or> (97 \<le> n \<and> n \<le> 122) \<or> (48 \<le> n \<and> n \<le> 57) \<or>
      c = CHR ''-'' \<or> c = CHR ''_'')"

definition validToken :: "string \<Rightarrow> bool" where
  "validToken s = (if s = [] \<or> length s > maxTokenLength then False else list_all tokenChar s)"

definition alpnKey :: "'s ChallengeServer \<Rightarrow> string \<Rightarrow> string" where
  "alpnKey c domain = csPrefix c @ ''challenges/alpn/'' @ ToLower domain"

definition httpKey :: "'s ChallengeServer \<Rightarrow> string \<Rightarrow> string" where
  "httpKey c token = csPrefix c @ ''challenges/http/'' @ token"

definition encodeChallengeCert :: "certificate \<Rightarrow> error + blob" where
  "encodeChallengeCert cert =
     (case Certificate cert of
        [] \<Rightarrow> Inl [Msg ''token certificate has no DER'']
      | d # _ \<Rightarrow>
          (case PrivateKey cert of
             NonSigner _ \<Rightarrow> Inl [Msg ''token certificate key is not a crypto.Signer'']
           | SignerKey k \<Rightarrow>
               Inr (Pem [\<lparr>pemType = ''CERTIFICATE'', pemBytes = d\<rparr>,
                         \<lparr>pemType = ''PRIVATE KEY'', pemBytes = KeyDER (SignerKey k)\<rparr>])))"

text \<open>The scan keeps the last certificate and the last key it meets.\<close>

fun scanChallenge :: "pem_block list \<Rightarrow> der option \<Rightarrow> der option \<Rightarrow> der option \<times> der option" where
  "scanChallenge [] cert key = (cert, key)"
| "scanChallenge (b # bs) cert key =
     (if pemType b = ''CERTIFICATE'' then scanChallenge bs (Some (pemBytes b)) key
      else if pemType b = ''PRIVATE KEY'' then scanChallenge bs cert (Some (pemBytes b))
      else scanChallenge bs cert key)"

definition decodeChallengeCert :: "blob \<Rightarrow> error + certificate" where
  "decodeChallengeCert data =
     (case scanChallenge (pemBlocks data) None None of
        (Some certDER, Some keyDER) \<Rightarrow>
          (case ParsePKCS8PrivateKey keyDER of
             Inl e \<Rightarrow> Inl e
           | Inr key \<Rightarrow> Inr \<lparr>Certificate = [certDER], PrivateKey = key, Leaf = None\<rparr>)
      | _ \<Rightarrow> Inl [Msg ''challenge cert PEM missing certificate or key''])"

definition removeFromStorage :: "'s ChallengeServer \<Rightarrow> string \<Rightarrow> 's \<Rightarrow> 's" where
  "removeFromStorage c key s = (case csBackend c of None \<Rightarrow> s | Some B \<Rightarrow> snd (RemoveObject B key s))"

definition PutALPN :: "'s ChallengeServer \<Rightarrow> string \<Rightarrow> certificate \<Rightarrow> ('s \<times> chMem, unit) io" where
  "PutALPN c domain0 cert w =
     (case w of
        (s, m) \<Rightarrow>
          (let domain = ToLower domain0; m1 = m\<lparr>chAlpn := (chAlpn m)(domain \<mapsto> cert)\<rparr> in
           case csBackend c of
             None \<Rightarrow> (Inr (), s, m1)
           | Some B \<Rightarrow>
               (case encodeChallengeCert cert of
                  Inl e \<Rightarrow> (Inl (Msg ''encode tls-alpn-01 token'' # e), s, m1)
                | Inr pem \<Rightarrow>
                    (case PutObject B (alpnKey c domain) pem (plainPut ''application/x-pem-file'') s of
                       (Inl e, s1) \<Rightarrow>
                         (Inl (Msg ''mirror tls-alpn-01 token to storage'' # e), s1,
                          m1\<lparr>chAlpn := (chAlpn m1)(domain := None)\<rparr>)
                     | (Inr _, s1) \<Rightarrow> (Inr (), s1, m1)))))"

definition DeleteALPN :: "'s ChallengeServer \<Rightarrow> string \<Rightarrow> 's \<times> chMem \<Rightarrow> 's \<times> chMem" where
  "DeleteALPN c domain0 w =
     (case w of
        (s, m) \<Rightarrow>
          (let domain = ToLower domain0
           in (removeFromStorage c (alpnKey c domain) s, m\<lparr>chAlpn := (chAlpn m)(domain := None)\<rparr>)))"

definition GetALPN :: "'s ChallengeServer \<Rightarrow> string \<Rightarrow> 's \<times> chMem \<Rightarrow> certificate option \<times> 's \<times> chMem" where
  "GetALPN c domain0 w =
     (case w of
        (s, m) \<Rightarrow>
          (let domain = ToLower domain0 in
           case chAlpn m domain of
             Some cert \<Rightarrow> (Some cert, s, m)
           | None \<Rightarrow>
               (case csBackend c of
                  None \<Rightarrow> (None, s, m)
                | Some B \<Rightarrow>
                    (case GetObject B (alpnKey c domain) s of
                       (Inl e, s1) \<Rightarrow> (None, s1, m)
                     | (Inr data, s1) \<Rightarrow>
                         (case decodeChallengeCert data of
                            Inl e \<Rightarrow> (None, s1, m)
                          | Inr cert \<Rightarrow> (Some cert, s1, m))))))"

definition PutHTTP :: "'s ChallengeServer \<Rightarrow> string \<Rightarrow> string \<Rightarrow> ('s \<times> chMem, unit) io" where
  "PutHTTP c token keyAuth w =
     (case w of
        (s, m) \<Rightarrow>
          (let m1 = m\<lparr>chHttp := (chHttp m)(token \<mapsto> keyAuth), chMisses := AList.delete token (chMisses m)\<rparr> in
           case csBackend c of
             None \<Rightarrow> (Inr (), s, m1)
           | Some B \<Rightarrow>
               (case PutObject B (httpKey c token) (Text keyAuth) (plainPut ''text/plain'') s of
                  (Inl e, s1) \<Rightarrow>
                    (Inl (Msg ''mirror http-01 token to storage'' # e), s1,
                     m1\<lparr>chHttp := (chHttp m1)(token := None)\<rparr>)
                | (Inr _, s1) \<Rightarrow> (Inr (), s1, m1))))"

definition DeleteHTTP :: "'s ChallengeServer \<Rightarrow> string \<Rightarrow> 's \<times> chMem \<Rightarrow> 's \<times> chMem" where
  "DeleteHTTP c token w =
     (case w of
        (s, m) \<Rightarrow> (removeFromStorage c (httpKey c token) s, m\<lparr>chHttp := (chHttp m)(token := None)\<rparr>))"

definition recentTokenMiss :: "time \<Rightarrow> string \<Rightarrow> chMem \<Rightarrow> bool" where
  "recentTokenMiss t token m =
     (case map_of (chMisses m) token of None \<Rightarrow> False | Some at \<Rightarrow> t - at < tokenMissTTL)"

definition noteTokenMiss :: "time \<Rightarrow> string \<Rightarrow> chMem \<Rightarrow> chMem" where
  "noteTokenMiss t token m =
     (let misses = (if length (chMisses m) \<ge> tokenMissCap then [] else chMisses m)
      in m\<lparr>chMisses := AList.update token t misses\<rparr>)"

text \<open>The handler's answer: 404, or a text/plain body.\<close>

datatype httpResponse = NotFound | OkText blob

definition acmePath :: string where
  "acmePath = ''/.well-known/acme-challenge/''"

definition HTTPHandler :: "'s ChallengeServer \<Rightarrow> string \<Rightarrow> 's \<times> chMem \<Rightarrow> httpResponse \<times> 's \<times> chMem" where
  "HTTPHandler c urlPath w =
     (case w of
        (s, m) \<Rightarrow>
          if \<not> HasPrefix urlPath acmePath then (NotFound, s, m)
          else
            (let token = TrimPrefix urlPath acmePath in
             if \<not> validToken token then (NotFound, s, m)
             else
               (case chHttp m token of
                  Some keyAuth \<Rightarrow> (OkText (Text keyAuth), s, m)
                | None \<Rightarrow>
                    (case csBackend c of
                       None \<Rightarrow> (NotFound, s, m)
                     | Some B \<Rightarrow>
                         if recentTokenMiss (now (csHost c) s) token m then (NotFound, s, m)
                         else
                           (case GetObject B (httpKey c token) s of
                              (Inr data, s1) \<Rightarrow> (OkText data, s1, m)
                            | (Inl e, s1) \<Rightarrow> (NotFound, s1, noteTokenMiss (now (csHost c) s1) token m))))))"

section \<open>Lemmas\<close>

lemma validToken_chars:
  assumes "validToken t"
  shows "t \<noteq> []" and "length t \<le> maxTokenLength" and "CHR ''/'' \<notin> set t" and "CHR ''.'' \<notin> set t"
proof -
  have "\<not> tokenChar CHR ''/''" "\<not> tokenChar CHR ''.''" by code_simp+
  with assms show "t \<noteq> []" "length t \<le> maxTokenLength" "CHR ''/'' \<notin> set t" "CHR ''.'' \<notin> set t"
    by (auto simp: validToken_def list_all_iff split: if_splits)
qed

lemma encode_decode_challenge:
  "encodeChallengeCert cert = Inr pem \<Longrightarrow>
     decodeChallengeCert pem = Inr \<lparr>Certificate = [hd (Certificate cert)], PrivateKey = PrivateKey cert, Leaf = None\<rparr>"
  by (auto simp: encodeChallengeCert_def decodeChallengeCert_def ParsePKCS8PrivateKey_def
      split: list.splits privkey.splits)

lemma length_update_le: "length (AList.update k v al) \<le> Suc (length al)"
  by (induction al) auto

lemma noteTokenMiss_bound:
  "length (chMisses m) \<le> tokenMissCap \<Longrightarrow> length (chMisses (noteTokenMiss t k m)) \<le> tokenMissCap"
  using length_update_le [of k t "chMisses m"]
  by (auto simp: noteTokenMiss_def Let_def tokenMissCap_def)

lemma length_delete_le: "length (AList.delete k al) \<le> length al"
  by (induction al) auto

section \<open>Properties\<close>

text \<open>
  C33: the HTTP handler reads nothing from storage but challenge tokens. Two backends that agree on
  the objects under challenges/http/ whose name is one plain path segment cannot be told apart by
  any request, so no request path can reach a private key.
\<close>

theorem http_reads_only_tokens:
  assumes "csBackend c = Some B" and "csBackend c' = Some B'"
    and "csPrefix c' = csPrefix c" and "csHost c' = csHost c"
    and "\<forall>token. token \<noteq> [] \<and> CHR ''/'' \<notin> set token \<and> CHR ''.'' \<notin> set token \<and> length token \<le> maxTokenLength \<longrightarrow>
           GetObject B (csPrefix c @ ''challenges/http/'' @ token) = GetObject B' (csPrefix c @ ''challenges/http/'' @ token)"
  shows "HTTPHandler c urlPath w = HTTPHandler c' urlPath w"
proof -
  obtain s m where w: "w = (s, m)" by fastforce
  let ?t = "TrimPrefix urlPath acmePath"
  show ?thesis
  proof (cases "HasPrefix urlPath acmePath \<and> validToken ?t")
    case True
    then have "GetObject B (httpKey c ?t) = GetObject B' (httpKey c' ?t)"
      using assms(3,5) validToken_chars [of ?t] by (simp add: httpKey_def)
    then show ?thesis using True assms(1,2,4)
      by (auto simp: HTTPHandler_def w Let_def split: option.splits prod.splits sum.splits)
  next
    case False
    then show ?thesis by (auto simp: HTTPHandler_def w Let_def)
  qed
qed

theorem http_reads_only_tokens_witness:
  "HTTPHandler \<lparr>csBackend = Some (fsBackend sampleConfig), csPrefix = [], csHost = fsHost\<rparr> ''/.well-known/acme-challenge/../../keys/a''
     (sampleDisk [(''keys/a'', Text ''secret'')], newChMem) =
   HTTPHandler \<lparr>csBackend = Some ((fsBackend sampleConfig)\<lparr>GetObject := \<lambda>k s.
       if HasPrefix k ''challenges/http/'' then GetObject (fsBackend sampleConfig) k s else (Inl [ErrNotExist], s)\<rparr>),
     csPrefix = [], csHost = fsHost\<rparr> ''/.well-known/acme-challenge/../../keys/a''
     (sampleDisk [(''keys/a'', Text ''secret'')], newChMem)"
  by (rule http_reads_only_tokens [where B = "fsBackend sampleConfig" and
      B' = "(fsBackend sampleConfig)\<lparr>GetObject := \<lambda>k s.
       if HasPrefix k ''challenges/http/'' then GetObject (fsBackend sampleConfig) k s else (Inl [ErrNotExist], s)\<rparr>"])
    simp_all

text \<open>The operations on the challenge tables, as one step each.\<close>

inductive chStep :: "'s ChallengeServer \<Rightarrow> 's \<times> chMem \<Rightarrow> 's \<times> chMem \<Rightarrow> bool" for c where
  chPutALPN: "PutALPN c d cert w = (r, w') \<Longrightarrow> chStep c w w'"
| chDeleteALPN: "chStep c w (DeleteALPN c d w)"
| chGetALPN: "GetALPN c d w = (r, w') \<Longrightarrow> chStep c w w'"
| chPutHTTP: "PutHTTP c token k w = (r, w') \<Longrightarrow> chStep c w w'"
| chDeleteHTTP: "chStep c w (DeleteHTTP c token w)"
| chRequest: "HTTPHandler c urlPath w = (r, w') \<Longrightarrow> chStep c w w'"

lemma chStep_bound:
  "chStep c w w' \<Longrightarrow> length (chMisses (snd w)) \<le> tokenMissCap \<Longrightarrow> length (chMisses (snd w')) \<le> tokenMissCap"
proof (induction rule: chStep.induct)
  case (chPutHTTP token k w r w')
  with length_delete_le [of token "chMisses (snd w)"] show ?case
    by (auto simp: PutHTTP_def Let_def split: prod.splits option.splits sum.splits)
next
  case (chRequest urlPath w r w')
  then show ?case
    by (auto simp: HTTPHandler_def Let_def noteTokenMiss_bound
        split: prod.splits option.splits sum.splits if_splits)
qed (auto simp: PutALPN_def DeleteALPN_def GetALPN_def DeleteHTTP_def Let_def
    split: prod.splits option.splits sum.splits)

text \<open>
  The table of unknown tokens stays bounded: whatever requests and challenges a node sees, it
  remembers at most \<open>tokenMissCap\<close> of them.
\<close>

theorem miss_table_bounded:
  assumes "(chStep c)\<^sup>*\<^sup>* (s0, newChMem) (s, m)"
  shows "length (chMisses m) \<le> tokenMissCap"
proof -
  have "length (chMisses (snd (s, m))) \<le> tokenMissCap"
    using assms by (induction rule: rtranclp_induct) (auto simp: newChMem_def intro: chStep_bound)
  then show ?thesis by simp
qed

theorem miss_table_bounded_witness:
  "\<exists>s m. (chStep \<lparr>csBackend = Some (fsBackend sampleConfig), csPrefix = [], csHost = fsHost\<rparr>)\<^sup>*\<^sup>*
      (sampleDisk [], newChMem) (s, m) \<and> chMisses m \<noteq> [] \<and> length (chMisses m) \<le> tokenMissCap"
proof -
  let ?c = "\<lparr>csBackend = Some (fsBackend sampleConfig), csPrefix = [], csHost = fsHost\<rparr>"
  let ?p = "''/.well-known/acme-challenge/abc''"
  obtain r s m where h: "HTTPHandler ?c ?p (sampleDisk [], newChMem) = (r, s, m)" by (metis prod.collapse)
  have "chMisses (snd (snd (HTTPHandler ?c ?p (sampleDisk [], newChMem)))) \<noteq> []" by code_simp
  with h have ne: "chMisses m \<noteq> []" by simp
  have st: "(chStep ?c)\<^sup>*\<^sup>* (sampleDisk [], newChMem) (s, m)" using chStep.chRequest [OF h] by blast
  from st ne miss_table_bounded [OF st] show ?thesis by blast
qed

text \<open>
  Any node can answer a TLS-ALPN-01 challenge another node presented: after a successful
  \<open>PutALPN\<close>, a node with empty tables whose read of storage succeeds serves the token
  certificate's DER with its own key.
\<close>

theorem alpn_token_shared:
  assumes "atomic_store B view env valid" and "csBackend c = Some B"
    and "csBackend c' = Some B" and "csPrefix c' = csPrefix c" and "valid (alpnKey c domain)"
    and "PutALPN c domain cert (s, m) = (Inr u, s1, m1)"
    and "GetObject B (alpnKey c domain) s1 = (Inr data, s2)"
  shows "\<exists>d. GetALPN c' domain (s1, newChMem) =
     (Some \<lparr>Certificate = [d], PrivateKey = PrivateKey cert, Leaf = None\<rparr>, s2, newChMem) \<and>
     d = hd (Certificate cert)"
proof -
  obtain pem where e: "encodeChallengeCert cert = Inr pem"
    and p: "PutObject B (alpnKey c (ToLower domain)) pem (plainPut ''application/x-pem-file'') s = (Inr (), s1)"
    using assms(2,6) by (auto simp: PutALPN_def Let_def split: sum.splits prod.splits)
  have k: "alpnKey c (ToLower domain) = alpnKey c domain" "alpnKey c' (ToLower domain) = alpnKey c domain"
    using assms(4) by (simp_all add: alpnKey_def)
  from atomic_store.put_effect [OF assms(1,5)] p k have v: "\<exists>et. view s1 (alpnKey c domain) = Some (pem, et)"
    by (fastforce simp: putEffect_def)
  with atomic_store.get_effect [OF assms(1,5,7)] have "data = pem" by (auto simp: getEffect_def)
  with encode_decode_challenge [OF e] assms(3,7) k show ?thesis by (simp add: GetALPN_def newChMem_def Let_def)
qed

theorem alpn_token_shared_witness:
  "\<exists>s1 m1 s2. PutALPN \<lparr>csBackend = Some (fsBackend sampleConfig), csPrefix = [], csHost = fsHost\<rparr> ''a''
       \<lparr>Certificate = [CertDER sampleLeaf], PrivateKey = SignerKey (sampleKey ''x''), Leaf = None\<rparr> (sampleDisk [], newChMem)
       = (Inr (), s1, m1) \<and>
     GetALPN \<lparr>csBackend = Some (fsBackend sampleConfig), csPrefix = [], csHost = fsHost\<rparr> ''a'' (s1, newChMem) =
       (Some \<lparr>Certificate = [CertDER sampleLeaf], PrivateKey = SignerKey (sampleKey ''x''), Leaf = None\<rparr>, s2, newChMem)"
proof -
  let ?c = "\<lparr>csBackend = Some (fsBackend sampleConfig), csPrefix = [], csHost = fsHost\<rparr>"
  let ?cert = "\<lparr>Certificate = [CertDER sampleLeaf], PrivateKey = SignerKey (sampleKey ''x''), Leaf = None\<rparr>"
  define s1 where "s1 = fst (snd (PutALPN ?c ''a'' ?cert (sampleDisk [], newChMem)))"
  obtain m1 where m1: "m1 = snd (snd (PutALPN ?c ''a'' ?cert (sampleDisk [], newChMem)))" by blast
  have "fst (PutALPN ?c ''a'' ?cert (sampleDisk [], newChMem)) = Inr ()" by code_simp
  then have p: "PutALPN ?c ''a'' ?cert (sampleDisk [], newChMem) = (Inr (), s1, m1)"
    by (simp add: s1_def m1 prod_eq_iff)
  have "isOk (fst (GetObject (fsBackend sampleConfig) (alpnKey ?c ''a'') s1))" unfolding s1_def by code_simp
  then obtain data s2 where g: "GetObject (fsBackend sampleConfig) (alpnKey ?c ''a'') s1 = (Inr data, s2)"
    by (cases "GetObject (fsBackend sampleConfig) (alpnKey ?c ''a'') s1") (auto elim: isOk_E)
  have v: "fsValid sampleConfig (alpnKey ?c ''a'')" by code_simp
  have b: "csBackend ?c = Some (fsBackend sampleConfig)" by simp
  from alpn_token_shared [OF fsa.atomic_store_axioms b b _ v p g] p show ?thesis by auto
qed

end
