(* ===== verification/Issuer.thy ===== *)
theory Issuer
  imports Challenge
begin

text \<open>
  order_journal.go and issuer.go: driving an ACME order, and the journal that lets an interrupted
  attempt collect the certificate the CA already charged for. The ACME client is a library
  outside the repository: a record of its calls, each of which may change the world and fail.
\<close>

section \<open>order_journal.go\<close>

record 's orderJournal =
  ojBackend :: "'s backend option"
  ojPrefix :: string
  ojHost :: "'s host"

record orderRecord =
  OrderURL :: string
  SPKI :: string
  CreatedAt :: int

definition orderMaxAge :: duration where
  "orderMaxAge = 7 * 24 * Hour"

definition journalKey :: "'s orderJournal \<Rightarrow> string \<Rightarrow> string" where
  "journalKey j domain = ojPrefix j @ ''orders/'' @ ToLower domain"

definition marshalOrder :: "orderRecord \<Rightarrow> blob" where
  "marshalOrder r = Json (JObj [(''order_url'', JStr (OrderURL r)), (''spki'', JStr (SPKI r)),
     (''created_at'', JNum (CreatedAt r))])"

definition unmarshalOrder :: "blob \<Rightarrow> error + orderRecord" where
  "unmarshalOrder raw =
     (case jsonOf raw of
        Inl e \<Rightarrow> Inl e
      | Inr j \<Rightarrow>
          (case jsonMembers j of
             Inl e \<Rightarrow> Inl e
           | Inr kvs \<Rightarrow>
               (case decStr ''order_url'' kvs [] of
                  Inl e \<Rightarrow> Inl e
                | Inr u \<Rightarrow>
                    (case decStr ''spki'' kvs [] of
                       Inl e \<Rightarrow> Inl e
                     | Inr k \<Rightarrow>
                         (case decInt ''created_at'' kvs 0 of
                            Inl e \<Rightarrow> Inl e
                          | Inr t \<Rightarrow> Inr \<lparr>OrderURL = u, SPKI = k, CreatedAt = t\<rparr>)))))"

text \<open>A nil journal, or one with no backend, records nothing.\<close>

definition journalRecord :: "'s orderJournal option \<Rightarrow> string \<Rightarrow> string \<Rightarrow> string \<Rightarrow> ('s, unit) io" where
  "journalRecord jo domain orderURL spki s =
     (case jo of
        None \<Rightarrow> (Inr (), s)
      | Some j \<Rightarrow>
          (case ojBackend j of
             None \<Rightarrow> (Inr (), s)
           | Some B \<Rightarrow>
               PutObject B (journalKey j domain)
                 (marshalOrder \<lparr>OrderURL = orderURL, SPKI = spki, CreatedAt = Unix (now (ojHost j) s)\<rparr>)
                 (plainPut ''application/json'') s))"

definition journalLoad :: "'s orderJournal option \<Rightarrow> string \<Rightarrow> ('s, orderRecord) io" where
  "journalLoad jo domain s =
     (case jo of
        None \<Rightarrow> (Inl [Msg ''no order journal'', ErrNoJournal], s)
      | Some j \<Rightarrow>
          (case ojBackend j of
             None \<Rightarrow> (Inl [Msg ''no order journal'', ErrNoJournal], s)
           | Some B \<Rightarrow>
               (case GetObject B (journalKey j domain) s of
                  (Inl e, s1) \<Rightarrow> (Inl e, s1)
                | (Inr raw, s1) \<Rightarrow>
                    (case unmarshalOrder raw of
                       Inl e \<Rightarrow> (Inl (Msg ''order journal is unreadable'' # e), s1)
                     | Inr rec \<Rightarrow> (Inr rec, s1)))))"

definition journalClear :: "'s orderJournal option \<Rightarrow> string \<Rightarrow> 's \<Rightarrow> 's" where
  "journalClear jo domain s =
     (case jo of
        None \<Rightarrow> s
      | Some j \<Rightarrow>
          (case ojBackend j of None \<Rightarrow> s | Some B \<Rightarrow> snd (RemoveObject B (journalKey j domain) s)))"

section \<open>issuer.go\<close>

datatype acmeStatus = StatusPending | StatusReady | StatusProcessing | StatusValid | StatusInvalid | StatusOther string

record order =
  oURI :: string
  oStatus :: acmeStatus
  oAuthzURLs :: "string list"
  oFinalizeURL :: string
  oCertURL :: string
  oExpires :: "time option"

record challenge =
  chType :: string
  chToken :: string

record authorization =
  azURI :: string
  azStatus :: acmeStatus
  azChallenges :: "challenge list"

record csr =
  csrCommonName :: string
  csrDNSNames :: "string list"
  csrKey :: signer

text \<open>
  The calls of \<open>acme.Client\<close> the issuer makes. \<open>CreateCertificateRequest\<close>, which signs the CSR
  with the certificate key, stands with them because it too only has to answer or fail.
\<close>

record 's acmeClient =
  Register :: "string list \<Rightarrow> ('s, unit) io"
  AuthorizeOrder :: "string \<Rightarrow> ('s, order) io"
  GetOrder :: "string \<Rightarrow> ('s, order) io"
  WaitOrder :: "string \<Rightarrow> ('s, order) io"
  GetAuthorization :: "string \<Rightarrow> ('s, authorization) io"
  Accept :: "challenge \<Rightarrow> ('s, unit) io"
  WaitAuthorization :: "string \<Rightarrow> ('s, unit) io"
  CreateOrderCert :: "string \<Rightarrow> csr \<Rightarrow> ('s, der list) io"
  FetchCert :: "string \<Rightarrow> ('s, der list) io"
  TLSALPN01ChallengeCert :: "string \<Rightarrow> string \<Rightarrow> error + certificate"
  HTTP01ChallengeResponse :: "string \<Rightarrow> error + string"
  CreateCertificateRequest :: "csr \<Rightarrow> error + csr"

record 's Issuer =
  isClient :: "'s acmeClient"
  isChallenges :: "'s ChallengeServer"
  isEmail :: string
  isJournal :: "'s orderJournal option"
  isHost :: "'s host"

record issMem =
  imRegistered :: bool
  imChal :: chMem

definition ensureRegistered :: "'s Issuer \<Rightarrow> ('s \<times> issMem, unit) io" where
  "ensureRegistered i w =
     (case w of
        (s, m) \<Rightarrow>
          if imRegistered m then (Inr (), s, m)
          else
            (case Register (isClient i) (if isEmail i \<noteq> [] then [''mailto:'' @ isEmail i] else []) s of
               (r, s1) \<Rightarrow>
                 if r = Inr () \<or> r = Inl [ErrAccountAlreadyExists]
                 then (Inr (), s1, m\<lparr>imRegistered := True\<rparr>)
                 else (Inl (Msg ''acme account registration'' # projl r), s1, m)))"

text \<open>\<open>errors.As\<close> finds the first \<open>acme.Error\<close> of the chain.\<close>

fun acmeStatusCode :: "error \<Rightarrow> int option" where
  "acmeStatusCode [] = None"
| "acmeStatusCode (AcmeError code rl # e) = Some code"
| "acmeStatusCode (x # e) = acmeStatusCode e"

definition orderGone :: "error \<Rightarrow> bool" where
  "orderGone e = (case acmeStatusCode e of None \<Rightarrow> False | Some code \<Rightarrow> code \<ge> 400 \<and> code < 500)"

definition resumeOrder :: "'s Issuer \<Rightarrow> string \<Rightarrow> string \<Rightarrow> ('s, order option) io" where
  "resumeOrder i name spki s =
     (case journalLoad (isJournal i) name s of
        (Inl err, s1) \<Rightarrow>
          if errIs err ErrNoJournal \<or> absentFromStorage err then (Inr None, s1)
          else (Inl [Msg ''cannot tell whether an order is outstanding'', ErrStorageUnavailable], s1)
      | (Inr rec, s1) \<Rightarrow>
          if OrderURL rec = [] \<or> now (isHost i) s1 - ofUnix (CreatedAt rec) > orderMaxAge
          then (Inr None, journalClear (isJournal i) name s1)
          else if SPKI rec \<noteq> spki then (Inr None, s1)
          else
            (case GetOrder (isClient i) (OrderURL rec) s1 of
               (Inl err, s2) \<Rightarrow>
                 if orderGone err then (Inr None, journalClear (isJournal i) name s2)
                 else (Inl (Msg ''cannot check the outstanding order'' # err), s2)
             | (Inr order, s2) \<Rightarrow>
                 if oStatus order = StatusInvalid \<or>
                    (case oExpires order of None \<Rightarrow> False | Some x \<Rightarrow> now (isHost i) s2 > x)
                 then (Inr None, journalClear (isJournal i) name s2)
                 else (Inr (Some order), s2)))"

text \<open>The last http-01 challenge before the first tls-alpn-01 one, if there is no tls-alpn-01.\<close>

fun pickFrom :: "challenge list \<Rightarrow> challenge option \<Rightarrow> challenge option" where
  "pickFrom [] httpChal = httpChal"
| "pickFrom (c # cs) httpChal =
     (if chType c = ''tls-alpn-01'' then Some c
      else if chType c = ''http-01'' then pickFrom cs (Some c)
      else pickFrom cs httpChal)"

definition pickChallenge :: "challenge list \<Rightarrow> challenge option" where
  "pickChallenge cs = pickFrom cs None"

text \<open>Acting on the issuer's challenge tables.\<close>

definition onChal :: "('s \<times> chMem \<Rightarrow> 'a \<times> 's \<times> chMem) \<Rightarrow> 's \<times> issMem \<Rightarrow> 'a \<times> 's \<times> issMem" where
  "onChal f w = (case w of (s, m) \<Rightarrow> (case f (s, imChal m) of (r, s1, ch) \<Rightarrow> (r, s1, m\<lparr>imChal := ch\<rparr>)))"

datatype cleanup = CleanALPN string | CleanHTTP string

definition runCleanup :: "'s Issuer \<Rightarrow> cleanup \<Rightarrow> 's \<times> issMem \<Rightarrow> 's \<times> issMem" where
  "runCleanup i cl w =
     snd (onChal (\<lambda>v. ((), case cl of CleanALPN d \<Rightarrow> DeleteALPN (isChallenges i) d v
                                     | CleanHTTP t \<Rightarrow> DeleteHTTP (isChallenges i) t v)) w)"

definition present :: "'s Issuer \<Rightarrow> string \<Rightarrow> challenge \<Rightarrow> ('s \<times> issMem, cleanup) io" where
  "present i domain chal w =
     (if chType chal = ''tls-alpn-01'' then
        (case TLSALPN01ChallengeCert (isClient i) (chToken chal) domain of
           Inl e \<Rightarrow> (Inl (Msg ''build tls-alpn-01 cert'' # e), w)
         | Inr cert \<Rightarrow>
             (case onChal (PutALPN (isChallenges i) domain cert) w of
                (Inl e, w1) \<Rightarrow> (Inl (Msg ''not accepting the tls-alpn-01 challenge'' # e), w1)
              | (Inr _, w1) \<Rightarrow> (Inr (CleanALPN domain), w1)))
      else if chType chal = ''http-01'' then
        (case HTTP01ChallengeResponse (isClient i) (chToken chal) of
           Inl e \<Rightarrow> (Inl (Msg ''build http-01 response'' # e), w)
         | Inr resp \<Rightarrow>
             (case onChal (PutHTTP (isChallenges i) (chToken chal) resp) w of
                (Inl e, w1) \<Rightarrow> (Inl (Msg ''not accepting the http-01 challenge'' # e), w1)
              | (Inr _, w1) \<Rightarrow> (Inr (CleanHTTP (chToken chal)), w1)))
      else (Inl [Msg ''unsupported challenge type''], w))"

definition onWorld :: "('s, 'a) io \<Rightarrow> ('s \<times> 'm, 'a) io" where
  "onWorld f w = (case w of (s, m) \<Rightarrow> (case f s of (r, s1) \<Rightarrow> (r, s1, m)))"

text \<open>The deferred cleanup runs whatever Accept and WaitAuthorization answered.\<close>

definition fulfillAuthorization :: "'s Issuer \<Rightarrow> string \<Rightarrow> string \<Rightarrow> ('s \<times> issMem, unit) io" where
  "fulfillAuthorization i domain authzURL w =
     (case onWorld (GetAuthorization (isClient i) authzURL) w of
        (Inl e, w1) \<Rightarrow> (Inl (Msg ''get authorization'' # e), w1)
      | (Inr authz, w1) \<Rightarrow>
          if azStatus authz = StatusValid then (Inr (), w1)
          else
            (case pickChallenge (azChallenges authz) of
               None \<Rightarrow> (Inl [Msg ''no supported challenge (tls-alpn-01/http-01)''], w1)
             | Some chal \<Rightarrow>
                 (case present i domain chal w1 of
                    (Inl e, w2) \<Rightarrow> (Inl e, w2)
                  | (Inr cl, w2) \<Rightarrow>
                      (case onWorld (Accept (isClient i) chal) w2 of
                         (Inl e, w3) \<Rightarrow> (Inl (Msg ''accept challenge'' # e), runCleanup i cl w3)
                       | (Inr _, w3) \<Rightarrow>
                           (case onWorld (WaitAuthorization (isClient i) (azURI authz)) w3 of
                              (Inl e, w4) \<Rightarrow> (Inl (Msg ''wait authorization'' # e), runCleanup i cl w4)
                            | (Inr _, w4) \<Rightarrow> (Inr (), runCleanup i cl w4))))))"

fun fulfillAll :: "'s Issuer \<Rightarrow> string \<Rightarrow> string list \<Rightarrow> ('s \<times> issMem, unit) io" where
  "fulfillAll i domain [] w = (Inr (), w)"
| "fulfillAll i domain (u # us) w =
     (case fulfillAuthorization i domain u w of
        (Inl e, w1) \<Rightarrow> (Inl e, w1)
      | (Inr _, w1) \<Rightarrow> fulfillAll i domain us w1)"

definition fetchOrder :: "'s Issuer \<Rightarrow> order \<Rightarrow> ('s, der list) io" where
  "fetchOrder i order s =
     (if oCertURL order = [] then (Inl [Msg ''order names no certificate''], s)
      else
        (case FetchCert (isClient i) (oCertURL order) s of
           (Inl e, s1) \<Rightarrow> (Inl (Msg ''download certificate'' # e), s1)
         | (Inr ders, s1) \<Rightarrow> (Inr ders, s1)))"

definition completeOrder :: "'s Issuer \<Rightarrow> string \<Rightarrow> order \<Rightarrow> signer \<Rightarrow> ('s \<times> issMem, der list) io" where
  "completeOrder i domain order certKey w =
     (if oStatus order = StatusValid then onWorld (fetchOrder i order) w
      else if oStatus order = StatusProcessing then
        (case onWorld (WaitOrder (isClient i) (oURI order)) w of
           (Inl e, w1) \<Rightarrow> (Inl (Msg ''wait for order'' # e), w1)
         | (Inr o2, w1) \<Rightarrow> onWorld (fetchOrder i o2) w1)
      else
        (case fulfillAll i domain (oAuthzURLs order) w of
           (Inl e, w1) \<Rightarrow> (Inl e, w1)
         | (Inr _, w1) \<Rightarrow>
             (case CreateCertificateRequest (isClient i)
                \<lparr>csrCommonName = domain, csrDNSNames = [domain], csrKey = certKey\<rparr> of
                Inl e \<Rightarrow> (Inl (Msg ''create CSR'' # e), w1)
              | Inr req \<Rightarrow>
                  (case onWorld (CreateOrderCert (isClient i) (oFinalizeURL order) req) w1 of
                     (Inl e, w2) \<Rightarrow> (Inl (Msg ''finalize order'' # e), w2)
                   | (Inr ders, w2) \<Rightarrow> (Inr ders, w2)))))"

text \<open>A journal that cannot be written is only logged.\<close>

definition Issue :: "'s Issuer \<Rightarrow> string \<Rightarrow> signer \<Rightarrow> ('s \<times> issMem, blob) io" where
  "Issue i name0 certKey w =
     (let name = ToLower name0; domain = CertDomain name in
      case ensureRegistered i w of
        (Inl e, w1) \<Rightarrow> (Inl e, w1)
      | (Inr _, w1) \<Rightarrow>
          (case SPKISHA256 (isHost i) (Public certKey) of
             Inl e \<Rightarrow> (Inl e, w1)
           | Inr spki \<Rightarrow>
               (case onWorld (resumeOrder i name spki) w1 of
                  (Inl e, w2) \<Rightarrow> (Inl e, w2)
                | (Inr resumed, w2) \<Rightarrow>
                    (case (case resumed of
                             Some order \<Rightarrow> (Inr order, w2)
                           | None \<Rightarrow>
                               (case onWorld (AuthorizeOrder (isClient i) domain) w2 of
                                  (Inl e, w3) \<Rightarrow> (Inl (Msg ''authorize order'' # e), w3)
                                | (Inr order, w3) \<Rightarrow>
                                    (Inr order, snd (onWorld (journalRecord (isJournal i) name (oURI order) spki) w3)))) of
                       (Inl e, w4) \<Rightarrow> (Inl e, w4)
                     | (Inr order, w4) \<Rightarrow>
                         (case completeOrder i domain order certKey w4 of
                            (Inl e, w5) \<Rightarrow> (Inl e, w5)
                          | (Inr ders, (s5, m5)) \<Rightarrow>
                              (Inr (Pem (encodeChainPEM ders)), journalClear (isJournal i) name s5, m5))))))"

section \<open>Lemmas\<close>

lemma ToLower_cmp_order:
  "ToLower ''order_url'' \<noteq> ToLower ''spki''" "ToLower ''order_url'' \<noteq> ToLower ''created_at''"
  "ToLower ''spki'' \<noteq> ToLower ''created_at''"
  by code_simp+

lemma unmarshal_marshalOrder: "int64_ok (CreatedAt r) \<Longrightarrow> unmarshalOrder (marshalOrder r) = Inr r"
  by (simp add: unmarshalOrder_def marshalOrder_def ToLower_cmp_order ToLower_cmp_order [symmetric])

lemma pickFrom_spec:
  "pickFrom cs acc =
     (case find (\<lambda>c. chType c = ''tls-alpn-01'') cs of
        Some c \<Rightarrow> Some c
      | None \<Rightarrow> (case filter (\<lambda>c. chType c = ''http-01'') cs of [] \<Rightarrow> acc | hs \<Rightarrow> Some (last hs)))"
proof (induction cs arbitrary: acc)
  case (Cons c cs)
  then show ?case by (cases "filter (\<lambda>c. chType c = ''http-01'') cs") (auto split: option.splits)
qed simp

text \<open>When \<open>resumeOrder\<close> says there is nothing to collect, and so allows a fresh order.\<close>

lemma resumeOrder_none:
  assumes "resumeOrder i name spki s = (Inr None, s')"
  obtains (absent) err s1 where "journalLoad (isJournal i) name s = (Inl err, s1)"
      "errIs err ErrNoJournal \<or> isNotExist err"
  | (stale) rec s1 where "journalLoad (isJournal i) name s = (Inr rec, s1)"
      "OrderURL rec = [] \<or> now (isHost i) s1 - ofUnix (CreatedAt rec) > orderMaxAge"
  | (other) rec s1 where "journalLoad (isJournal i) name s = (Inr rec, s1)" "SPKI rec \<noteq> spki"
  | (gone) rec s1 err s2 where "journalLoad (isJournal i) name s = (Inr rec, s1)"
      "GetOrder (isClient i) (OrderURL rec) s1 = (Inl err, s2)" "orderGone err"
  | (dead) rec s1 order s2 where "journalLoad (isJournal i) name s = (Inr rec, s1)"
      "GetOrder (isClient i) (OrderURL rec) s1 = (Inr order, s2)"
      "oStatus order = StatusInvalid \<or> (\<exists>x. oExpires order = Some x \<and> now (isHost i) s2 > x)"
proof -
  obtain r s1 where l: "journalLoad (isJournal i) name s = (r, s1)" by fastforce
  show thesis
  proof (cases r)
    case (Inl err)
    with assms l have "errIs err ErrNoJournal \<or> isNotExist err"
      by (auto simp: resumeOrder_def absentFromStorage_def split: if_splits)
    with Inl l absent show ?thesis by blast
  next
    case (Inr rec)
    show ?thesis
    proof (cases "OrderURL rec = [] \<or> now (isHost i) s1 - ofUnix (CreatedAt rec) > orderMaxAge \<or> SPKI rec \<noteq> spki")
      case True
      with Inr l stale other show ?thesis by blast
    next
      case False
      obtain g s2 where g: "GetOrder (isClient i) (OrderURL rec) s1 = (g, s2)" by fastforce
      show ?thesis
      proof (cases g)
        case (Inl err)
        with assms l Inr False g have "orderGone err" by (auto simp: resumeOrder_def split: if_splits)
        with l Inr g Inl gone show ?thesis by blast
      next
        case o: (Inr order)
        with assms l Inr False g have "oStatus order = StatusInvalid \<or> (\<exists>x. oExpires order = Some x \<and> now (isHost i) s2 > x)"
          by (auto simp: resumeOrder_def split: if_splits option.splits)
        with l Inr g o dead show ?thesis by blast
      qed
    qed
  qed
qed

text \<open>The calls that do not concern a client operation do not see it replaced.\<close>

definition withAuthorize :: "(string \<Rightarrow> ('s, order) io) \<Rightarrow> 's Issuer \<Rightarrow> 's Issuer" where
  "withAuthorize f i = i\<lparr>isClient := (isClient i)\<lparr>AuthorizeOrder := f\<rparr>\<rparr>"


lemma withAuthorize_fields:
  "Register (isClient (withAuthorize f i)) = Register (isClient i)"
  "GetOrder (isClient (withAuthorize f i)) = GetOrder (isClient i)"
  "WaitOrder (isClient (withAuthorize f i)) = WaitOrder (isClient i)"
  "GetAuthorization (isClient (withAuthorize f i)) = GetAuthorization (isClient i)"
  "Accept (isClient (withAuthorize f i)) = Accept (isClient i)"
  "WaitAuthorization (isClient (withAuthorize f i)) = WaitAuthorization (isClient i)"
  "CreateOrderCert (isClient (withAuthorize f i)) = CreateOrderCert (isClient i)"
  "FetchCert (isClient (withAuthorize f i)) = FetchCert (isClient i)"
  "TLSALPN01ChallengeCert (isClient (withAuthorize f i)) = TLSALPN01ChallengeCert (isClient i)"
  "HTTP01ChallengeResponse (isClient (withAuthorize f i)) = HTTP01ChallengeResponse (isClient i)"
  "CreateCertificateRequest (isClient (withAuthorize f i)) = CreateCertificateRequest (isClient i)"
  "isChallenges (withAuthorize f i) = isChallenges i" "isEmail (withAuthorize f i) = isEmail i"
  "isJournal (withAuthorize f i) = isJournal i" "isHost (withAuthorize f i) = isHost i"
  by (simp_all add: withAuthorize_def)

lemma withAuthorize_calls:
  "ensureRegistered (withAuthorize f i) = ensureRegistered i"
  "resumeOrder (withAuthorize f i) = resumeOrder i"
  "fulfillAuthorization (withAuthorize f i) = fulfillAuthorization i"
  "fetchOrder (withAuthorize f i) = fetchOrder i"
  unfolding ensureRegistered_def [abs_def] resumeOrder_def [abs_def] fetchOrder_def [abs_def]
    fulfillAuthorization_def [abs_def] present_def [abs_def] runCleanup_def [abs_def] withAuthorize_fields
  by (rule refl)+

lemma withAuthorize_fulfillAll: "fulfillAll (withAuthorize f i) domain us w = fulfillAll i domain us w"
  by (induction us arbitrary: w) (auto simp: withAuthorize_calls split: prod.splits sum.splits)

lemma withAuthorize_complete: "completeOrder (withAuthorize f i) = completeOrder i"
  by (intro ext) (unfold completeOrder_def withAuthorize_calls withAuthorize_fulfillAll withAuthorize_fields, rule refl)

text \<open>
  An order may be outstanding: the journal could not be read, or it names a recent order for this
  very key that the CA still knows, or about which the CA could not be asked.
\<close>

definition mayBeOutstanding :: "'s Issuer \<Rightarrow> string \<Rightarrow> string \<Rightarrow> 's \<Rightarrow> bool" where
  "mayBeOutstanding i name spki s =
     (case journalLoad (isJournal i) name s of
        (Inl err, s1) \<Rightarrow> \<not> errIs err ErrNoJournal \<and> \<not> isNotExist err
      | (Inr rec, s1) \<Rightarrow>
          OrderURL rec \<noteq> [] \<and> now (isHost i) s1 - ofUnix (CreatedAt rec) \<le> orderMaxAge \<and> SPKI rec = spki \<and>
          (case GetOrder (isClient i) (OrderURL rec) s1 of
             (Inl err, s2) \<Rightarrow> \<not> orderGone err
           | (Inr order, s2) \<Rightarrow>
               oStatus order \<noteq> StatusInvalid \<and>
               (case oExpires order of None \<Rightarrow> True | Some x \<Rightarrow> now (isHost i) s2 \<le> x)))"

lemma resumeOrder_outstanding:
  "mayBeOutstanding i name spki s \<longleftrightarrow> fst (resumeOrder i name spki s) \<noteq> Inr None"
  by (auto simp: mayBeOutstanding_def resumeOrder_def absentFromStorage_def
      split: prod.splits sum.splits if_splits option.splits)

text \<open>A client whose calls leave the objects in storage alone.\<close>

definition storageQuiet :: "'s acmeClient \<Rightarrow> ('s \<Rightarrow> objects) \<Rightarrow> bool" where
  "storageQuiet C view =
     ((\<forall>x s r s'. WaitOrder C x s = (r, s') \<longrightarrow> view s' = view s) \<and>
      (\<forall>x s r s'. GetAuthorization C x s = (r, s') \<longrightarrow> view s' = view s) \<and>
      (\<forall>x s r s'. Accept C x s = (r, s') \<longrightarrow> view s' = view s) \<and>
      (\<forall>x s r s'. WaitAuthorization C x s = (r, s') \<longrightarrow> view s' = view s) \<and>
      (\<forall>x y s r s'. CreateOrderCert C x y s = (r, s') \<longrightarrow> view s' = view s) \<and>
      (\<forall>x s r s'. FetchCert C x s = (r, s') \<longrightarrow> view s' = view s))"

text \<open>A CA that offers only tokens of the form RFC 8555 asks for.\<close>

definition offersTokens :: "'s acmeClient \<Rightarrow> bool" where
  "offersTokens C =
     (\<forall>x s a s'. GetAuthorization C x s = (Inr a, s') \<longrightarrow> (\<forall>c \<in> set (azChallenges a). validToken (chToken c)))"

lemma pickChallenge_in: "pickChallenge cs = Some c \<Longrightarrow> c \<in> set cs"
proof -
  assume "pickChallenge cs = Some c"
  then have "(\<exists>i < length cs. c = cs ! i) \<or> c \<in> set (filter (\<lambda>c. chType c = ''http-01'') cs)"
    using last_in_set [of "filter (\<lambda>c. chType c = ''http-01'') cs"]
    by (auto simp: pickChallenge_def pickFrom_spec find_Some_iff split: option.splits list.splits)
  then show ?thesis by auto
qed

lemma onWorld_eq: "onWorld f (s, m) = (r, w') \<longleftrightarrow> (\<exists>s'. f s = (r, s') \<and> w' = (s', m))"
  by (auto simp: onWorld_def split: prod.splits)

context atomic_store
begin

lemma put_elsewhere:
  "valid k \<Longrightarrow> PutObject B k d opts s = (r, s') \<Longrightarrow> n \<noteq> k \<Longrightarrow> view s' n = view s n"
  using put_effect [of k d opts s r s'] by (auto simp: putEffect_def split: sum.splits)

lemma remove_elsewhere:
  "valid k \<Longrightarrow> RemoveObject B k s = (r, s') \<Longrightarrow> n \<noteq> k \<Longrightarrow> view s' n = view s n"
  using remove_effect [of k s r s'] by (auto simp: removeEffect_def split: sum.splits)

lemma removeFromStorage_elsewhere:
  assumes "csBackend c = None \<or> csBackend c = Some B" and "valid k" and "n \<noteq> k"
  shows "view (removeFromStorage c k s) n = view s n"
  using assms remove_elsewhere [OF assms(2) surjective_pairing assms(3)]
  by (auto simp: removeFromStorage_def)

lemma present_elsewhere:
  assumes B: "csBackend (isChallenges i) = None \<or> csBackend (isChallenges i) = Some B"
    and v: "valid (alpnKey (isChallenges i) domain)" "valid (httpKey (isChallenges i) (chToken chal))"
    and n: "n \<noteq> alpnKey (isChallenges i) domain" "n \<noteq> httpKey (isChallenges i) (chToken chal)"
    and run: "present i domain chal (s, m) = (r, s', m')"
  shows "view s' n = view s n \<and>
    (\<forall>cl s0 m0. r = Inr cl \<longrightarrow> view (fst (runCleanup i cl (s0, m0))) n = view s0 n)"
proof -
  have low: "alpnKey (isChallenges i) (ToLower domain) = alpnKey (isChallenges i) domain"
    by (simp add: alpnKey_def)
  have "view s' n = view s n"
    using run B put_elsewhere [OF v(1) _ n(1)] put_elsewhere [OF v(2) _ n(2)] low
    by (auto simp: present_def onChal_def PutALPN_def PutHTTP_def Let_def
        split: if_splits sum.splits prod.splits option.splits)
  moreover have "view (fst (runCleanup i cl (s0, m0))) n = view s0 n" if "r = Inr cl" for cl s0 m0
  proof -
    have "cl = CleanALPN domain \<or> cl = CleanHTTP (chToken chal)"
      using run that by (auto simp: present_def split: if_splits sum.splits prod.splits)
    then show ?thesis
      using removeFromStorage_elsewhere [OF B v(1) n(1)] removeFromStorage_elsewhere [OF B v(2) n(2)] low
      by (auto simp: runCleanup_def onChal_def DeleteALPN_def DeleteHTTP_def Let_def)
  qed
  ultimately show ?thesis by blast
qed

lemma fulfill_elsewhere:
  assumes B: "csBackend (isChallenges i) = None \<or> csBackend (isChallenges i) = Some B"
    and v: "valid (alpnKey (isChallenges i) domain)" "\<forall>t. validToken t \<longrightarrow> valid (httpKey (isChallenges i) t)"
    and n: "n \<noteq> alpnKey (isChallenges i) domain" "\<forall>t. n \<noteq> httpKey (isChallenges i) t"
    and C: "storageQuiet (isClient i) view" "offersTokens (isClient i)"
    and run: "fulfillAuthorization i domain u (s, m) = (r, s', m')"
  shows "view s' n = view s n"
proof -
  obtain ra s1 where ga: "GetAuthorization (isClient i) u s = (ra, s1)" by fastforce
  then have v1: "view s1 n = view s n" using C(1) by (simp add: storageQuiet_def)
  show ?thesis
  proof (cases "\<exists>a chal. ra = Inr a \<and> azStatus a \<noteq> StatusValid \<and> pickChallenge (azChallenges a) = Some chal")
    case False
    with run ga v1 show ?thesis
      by (auto simp: fulfillAuthorization_def onWorld_def split: sum.splits if_splits option.splits)
  next
    case True
    then obtain a chal where a: "ra = Inr a" "azStatus a \<noteq> StatusValid" "pickChallenge (azChallenges a) = Some chal"
      by blast
    then have tok: "validToken (chToken chal)"
      using C(2) ga pickChallenge_in unfolding offersTokens_def by blast
    obtain rp s2 m2 where p: "present i domain chal (s1, m) = (rp, s2, m2)" by (metis prod.collapse)
    note P = present_elsewhere [OF B v(1) v(2) [rule_format, OF tok] n(1) n(2) [rule_format] p]
    obtain r3 s3 where ac: "Accept (isClient i) chal s2 = (r3, s3)" by fastforce
    obtain r4 s4 where wa: "WaitAuthorization (isClient i) (azURI a) s3 = (r4, s4)" by fastforce
    have q: "view s3 n = view s2 n" "view s4 n = view s3 n"
      using C(1) ac wa by (simp_all add: storageQuiet_def)
    have "s' = s2 \<or> (\<exists>cl. rp = Inr cl \<and> (s' = fst (runCleanup i cl (s3, m2)) \<or> s' = fst (runCleanup i cl (s4, m2))))"
      using run ga a p ac wa
      by (auto simp: fulfillAuthorization_def onWorld_def split: sum.splits)
    with P q v1 show ?thesis by auto
  qed
qed

lemma fulfillAll_elsewhere:
  assumes B: "csBackend (isChallenges i) = None \<or> csBackend (isChallenges i) = Some B"
    and v: "valid (alpnKey (isChallenges i) domain)" "\<forall>t. validToken t \<longrightarrow> valid (httpKey (isChallenges i) t)"
    and n: "n \<noteq> alpnKey (isChallenges i) domain" "\<forall>t. n \<noteq> httpKey (isChallenges i) t"
    and C: "storageQuiet (isClient i) view" "offersTokens (isClient i)"
    and run: "fulfillAll i domain us (s, m) = (r, s', m')"
  shows "view s' n = view s n"
  using run
proof (induction us arbitrary: s m)
  case (Cons u us)
  obtain r1 s1 m1 where f: "fulfillAuthorization i domain u (s, m) = (r1, s1, m1)" by (metis prod.collapse)
  from Cons f fulfill_elsewhere [OF B v n C f] show ?case by (auto split: sum.splits)
qed simp

lemma completeOrder_elsewhere:
  assumes B: "csBackend (isChallenges i) = None \<or> csBackend (isChallenges i) = Some B"
    and v: "valid (alpnKey (isChallenges i) domain)" "\<forall>t. validToken t \<longrightarrow> valid (httpKey (isChallenges i) t)"
    and n: "n \<noteq> alpnKey (isChallenges i) domain" "\<forall>t. n \<noteq> httpKey (isChallenges i) t"
    and C: "storageQuiet (isClient i) view" "offersTokens (isClient i)"
    and run: "completeOrder i domain order key (s, m) = (r, s', m')"
  shows "view s' n = view s n"
proof -
  have fe: "view s'' n = view s0 n" if "fetchOrder i o' s0 = (r', s'')" for o' s0 r' s''
    using that C(1) by (auto simp: fetchOrder_def storageQuiet_def split: if_splits prod.splits sum.splits)
  show ?thesis
  proof (cases "oStatus order = StatusValid \<or> oStatus order = StatusProcessing")
    case True
    with run fe C(1) show ?thesis
      by (auto simp: completeOrder_def onWorld_eq onWorld_def storageQuiet_def split: if_splits prod.splits sum.splits)
  next
    case False
    obtain r1 s1 m1 where f: "fulfillAll i domain (oAuthzURLs order) (s, m) = (r1, s1, m1)" by (metis prod.collapse)
    note F = fulfillAll_elsewhere [OF B v n C f]
    from run False f have "s' = s1 \<or> (\<exists>x y q. CreateOrderCert (isClient i) x y s1 = (q, s'))"
      by (auto simp: completeOrder_def onWorld_def split: sum.splits prod.splits)
    with F C(1) show ?thesis by (auto simp: storageQuiet_def)
  qed
qed

text \<open>A failed attempt that had journaled its order leaves the journal record in place.\<close>

lemma journal_survives:
  assumes B: "csBackend (isChallenges i) = None \<or> csBackend (isChallenges i) = Some B"
    and v: "valid (alpnKey (isChallenges i) (CertDomain (ToLower name)))"
      "\<forall>t. validToken t \<longrightarrow> valid (httpKey (isChallenges i) t)" "valid (journalKey j (ToLower name))"
    and n: "ojPrefix j = csPrefix (isChallenges i)"
    and C: "storageQuiet (isClient i) view" "offersTokens (isClient i)"
    and j: "isJournal i = Some j" "ojBackend j = Some B"
    and reg: "ensureRegistered i w = (Inr u, s1, m1)"
    and spki: "SPKISHA256 (isHost i) (Public key) = Inr spki"
    and res: "resumeOrder i (ToLower name) spki s1 = (Inr None, s2)"
    and auth: "AuthorizeOrder (isClient i) (CertDomain (ToLower name)) s2 = (Inr order, s3)"
    and rec: "journalRecord (isJournal i) (ToLower name) (oURI order) spki s3 = (Inr u', s4)"
    and run: "Issue i name key w = (Inl e, s', m')"
  shows "\<exists>t et. view s' (journalKey j (ToLower name)) =
     Some (marshalOrder \<lparr>OrderURL = oURI order, SPKI = spki, CreatedAt = t\<rparr>, et)"
proof -
  let ?n = "journalKey j (ToLower name)"
  have "PutObject B ?n (marshalOrder \<lparr>OrderURL = oURI order, SPKI = spki, CreatedAt = Unix (now (ojHost j) s3)\<rparr>)
      (plainPut ''application/json'') s3 = (Inr (), s4)"
    using rec j by (simp add: journalRecord_def)
  from put_effect [OF v(3) this] obtain et where
    w4: "view s4 ?n = Some (marshalOrder \<lparr>OrderURL = oURI order, SPKI = spki, CreatedAt = Unix (now (ojHost j) s3)\<rparr>, et)"
    by (auto simp: putEffect_def)
  obtain r5 s5 m5 where c: "completeOrder i (CertDomain (ToLower name)) order key (s4, m1) = (r5, s5, m5)"
    by (metis prod.collapse)
  have d: "?n \<noteq> alpnKey (isChallenges i) (CertDomain (ToLower name))" "\<forall>t. ?n \<noteq> httpKey (isChallenges i) t"
    using n by (simp_all add: journalKey_def alpnKey_def httpKey_def)
  have "s' = s5" using run reg spki res auth rec c
    by (auto simp: Issue_def Let_def onWorld_def split: sum.splits)
  with completeOrder_elsewhere [OF B v(1,2) d C c] w4 show ?thesis by auto
qed

end

section \<open>Properties\<close>

text \<open>
  C16: no second order while one may be outstanding. When the journal could not be read, or names a
  recent order for this key that the CA has not disowned, \<open>Issue\<close> runs the same whatever the
  CA's new-order endpoint would do: it does not call it.
\<close>

theorem issue_places_no_second_order:
  assumes "ensureRegistered i w = (Inr u, s1, m1)"
    and "SPKISHA256 (isHost i) (Public key) = Inr spki"
    and "mayBeOutstanding i (ToLower name) spki s1"
  shows "Issue (withAuthorize f i) name key w = Issue i name key w"
proof -
  obtain r s2 where r: "resumeOrder i (ToLower name) spki s1 = (r, s2)" by fastforce
  then have "r \<noteq> Inr None" using assms(3) by (simp add: resumeOrder_outstanding)
  then have "(\<exists>e. r = Inl e) \<or> (\<exists>order. r = Inr (Some order))" by (cases r) auto
  then show ?thesis
    using assms(1,2) r
    unfolding Issue_def withAuthorize_calls withAuthorize_complete withAuthorize_fields
    by (auto simp: Let_def onWorld_def)
qed

definition quietClient :: "fs acmeClient" where
  "quietClient =
     \<lparr>Register = (\<lambda>_ s. (Inr (), s)),
      AuthorizeOrder = (\<lambda>d s. (Inr \<lparr>oURI = ''o1'', oStatus = StatusPending, oAuthzURLs = [''z''], oFinalizeURL = ''f'', oCertURL = [], oExpires = None\<rparr>, s)),
      GetOrder = (\<lambda>u s. (Inr \<lparr>oURI = u, oStatus = StatusValid, oAuthzURLs = [], oFinalizeURL = ''f'', oCertURL = ''c'', oExpires = None\<rparr>, s)),
      WaitOrder = (\<lambda>u s. (Inl [Msg ''down''], s)),
      GetAuthorization = (\<lambda>u s. (Inr \<lparr>azURI = u, azStatus = StatusPending, azChallenges = [\<lparr>chType = ''http-01'', chToken = ''tok''\<rparr>]\<rparr>, s)),
      Accept = (\<lambda>c s. (Inr (), s)), WaitAuthorization = (\<lambda>u s. (Inr (), s)),
      CreateOrderCert = (\<lambda>u c s. (Inl [Msg ''connection reset''], s)),
      FetchCert = (\<lambda>u s. (Inr [CertDER sampleLeaf], s)),
      TLSALPN01ChallengeCert = (\<lambda>t d. Inl [Msg ''no'']), HTTP01ChallengeResponse = (\<lambda>t. Inr t),
      CreateCertificateRequest = Inr\<rparr>"

definition sampleIssuer :: "fs Issuer" where
  "sampleIssuer =
     \<lparr>isClient = quietClient,
      isChallenges = \<lparr>csBackend = Some (fsBackend sampleConfig), csPrefix = [], csHost = fsHost\<rparr>,
      isEmail = [], isJournal = Some \<lparr>ojBackend = Some (fsBackend sampleConfig), ojPrefix = [], ojHost = fsHost\<rparr>,
      isHost = fsHost\<rparr>"

theorem issue_places_no_second_order_witness:
  "\<forall>f. Issue (withAuthorize f sampleIssuer) ''a'' (sampleKey ''x'')
     (sampleDisk [(''orders/a'', marshalOrder \<lparr>OrderURL = ''o1'', SPKI = ''hx'', CreatedAt = 0\<rparr>)], \<lparr>imRegistered = True, imChal = newChMem\<rparr>)
   = Issue sampleIssuer ''a'' (sampleKey ''x'')
     (sampleDisk [(''orders/a'', marshalOrder \<lparr>OrderURL = ''o1'', SPKI = ''hx'', CreatedAt = 0\<rparr>)], \<lparr>imRegistered = True, imChal = newChMem\<rparr>)"
proof (rule allI, rule issue_places_no_second_order)
  let ?s = "sampleDisk [(''orders/a'', marshalOrder \<lparr>OrderURL = ''o1'', SPKI = ''hx'', CreatedAt = 0\<rparr>)]"
  show "ensureRegistered sampleIssuer (?s, \<lparr>imRegistered = True, imChal = newChMem\<rparr>) = (Inr (), ?s, \<lparr>imRegistered = True, imChal = newChMem\<rparr>)"
    by (simp add: ensureRegistered_def)
  show "SPKISHA256 (isHost sampleIssuer) (Public (sampleKey ''x'')) = Inr ''hx''" by code_simp
  show "mayBeOutstanding sampleIssuer (ToLower ''a'') ''hx'' ?s" by code_simp
qed

text \<open>
  The challenge chosen is the first tls-alpn-01 challenge offered, else the last http-01 one,
  else none.
\<close>

theorem pick_challenge_prefers_alpn:
  "pickChallenge cs =
     (case find (\<lambda>c. chType c = ''tls-alpn-01'') cs of
        Some c \<Rightarrow> Some c
      | None \<Rightarrow> (case filter (\<lambda>c. chType c = ''http-01'') cs of [] \<Rightarrow> None | hs \<Rightarrow> Some (last hs)))"
  unfolding pickChallenge_def by (rule pickFrom_spec)



text \<open>
  C17: an interrupted order is not lost. If an attempt placed and journaled an order and then failed
  anywhere before it had the certificate (a challenge, the finalize call, the download), the
  journal still names that order and its key when the attempt returns, so the next attempt can
  collect it.
\<close>

theorem interrupted_order_is_journaled:
  assumes "atomic_store B view env valid"
    and "csBackend (isChallenges i) = None \<or> csBackend (isChallenges i) = Some B"
    and "valid (alpnKey (isChallenges i) (CertDomain (ToLower name)))"
    and "\<forall>t. validToken t \<longrightarrow> valid (httpKey (isChallenges i) t)"
    and "valid (journalKey j (ToLower name))"
    and "ojPrefix j = csPrefix (isChallenges i)"
    and "storageQuiet (isClient i) view" and "offersTokens (isClient i)"
    and "isJournal i = Some j" and "ojBackend j = Some B"
    and "ensureRegistered i w = (Inr u, s1, m1)"
    and "SPKISHA256 (isHost i) (Public key) = Inr spki"
    and "resumeOrder i (ToLower name) spki s1 = (Inr None, s2)"
    and "AuthorizeOrder (isClient i) (CertDomain (ToLower name)) s2 = (Inr order, s3)"
    and "journalRecord (isJournal i) (ToLower name) (oURI order) spki s3 = (Inr u', s4)"
    and "Issue i name key w = (Inl e, s', m')"
  shows "\<exists>t et. view s' (journalKey j (ToLower name)) =
     Some (marshalOrder \<lparr>OrderURL = oURI order, SPKI = spki, CreatedAt = t\<rparr>, et)"
  using atomic_store.journal_survives [OF assms] .

lemma sampleConfig_token_valid:
  assumes "validToken t"
  shows "fsValid sampleConfig (''challenges/http/'' @ t)"
proof -
  have "Split t CHR ''/'' = [t]" using validToken_chars(3) [OF assms] by (rule Split_no_sep)
  moreover have "t \<noteq> ''.'' \<and> t \<noteq> ''..''" using validToken_chars(4) [OF assms] by auto
  ultimately have "canonicalKey t" using validToken_chars(1) [OF assms] by (simp add: canonicalKey_def plainSeg_def)
  then have "canonicalKey (''challenges/http'' @ CHR ''/'' # t)"
    unfolding canonicalKey_append by (simp add: canonicalKey_def plainSeg_def)
  moreover have "baseOK (fsBase sampleConfig)" by code_simp
  ultimately show ?thesis by (simp add: fsValid_def)
qed

theorem interrupted_order_is_journaled_witness:
  "\<exists>e s' m' t et. Issue sampleIssuer ''a'' (sampleKey ''x'') (sampleDisk [], \<lparr>imRegistered = True, imChal = newChMem\<rparr>) = (Inl e, s', m') \<and>
     fsView sampleConfig s' ''orders/a'' = Some (marshalOrder \<lparr>OrderURL = ''o1'', SPKI = ''hx'', CreatedAt = t\<rparr>, et)"
proof -
  let ?i = sampleIssuer and ?s = "sampleDisk []" and ?m = "\<lparr>imRegistered = True, imChal = newChMem\<rparr>"
  let ?j = "\<lparr>ojBackend = Some (fsBackend sampleConfig), ojPrefix = [], ojHost = fsHost\<rparr>"
  define s2 where "s2 = snd (resumeOrder ?i (ToLower ''a'') ''hx'' ?s)"
  let ?o = "\<lparr>oURI = ''o1'', oStatus = StatusPending, oAuthzURLs = [''z''], oFinalizeURL = ''f'', oCertURL = [], oExpires = None\<rparr>"
  define s4 where "s4 = snd (journalRecord (isJournal ?i) (ToLower ''a'') (oURI ?o) ''hx'' s2)"
  obtain r s' m' where run: "Issue ?i ''a'' (sampleKey ''x'') (?s, ?m) = (r, s', m')" by (metis prod.collapse)
  have "\<not> isOk (fst (Issue ?i ''a'' (sampleKey ''x'') (?s, ?m)))" by code_simp
  with run obtain e where e: "Issue ?i ''a'' (sampleKey ''x'') (?s, ?m) = (Inl e, s', m')" by (cases r) auto
  have "fst (resumeOrder ?i (ToLower ''a'') ''hx'' ?s) = Inr None" by code_simp
  then have res: "resumeOrder ?i (ToLower ''a'') ''hx'' ?s = (Inr None, s2)" by (simp add: s2_def prod_eq_iff)
  have "fst (journalRecord (isJournal ?i) (ToLower ''a'') (oURI ?o) ''hx'' s2) = Inr ()" unfolding s2_def by code_simp
  then have rec: "journalRecord (isJournal ?i) (ToLower ''a'') (oURI ?o) ''hx'' s2 = (Inr (), s4)"
    by (simp add: s4_def prod_eq_iff)
  have k: "journalKey ?j (ToLower ''a'') = ''orders/a''" by code_simp
  have v: "fsValid sampleConfig (alpnKey (isChallenges ?i) (CertDomain (ToLower ''a'')))"
    "fsValid sampleConfig (journalKey ?j (ToLower ''a''))" by code_simp+
  have t: "\<forall>t. validToken t \<longrightarrow> fsValid sampleConfig (httpKey (isChallenges ?i) t)"
    using sampleConfig_token_valid by (simp add: httpKey_def sampleIssuer_def)
  have "validToken ''tok''" by code_simp
  then have C: "storageQuiet (isClient ?i) (fsView sampleConfig)" "offersTokens (isClient ?i)"
    by (simp_all add: storageQuiet_def offersTokens_def sampleIssuer_def quietClient_def)
  have sp: "SPKISHA256 (isHost ?i) (Public (sampleKey ''x'')) = Inr ''hx''" by code_simp
  have "\<exists>t et. fsView sampleConfig s' (journalKey ?j (ToLower ''a'')) =
     Some (marshalOrder \<lparr>OrderURL = oURI ?o, SPKI = ''hx'', CreatedAt = t\<rparr>, et)"
    by (rule interrupted_order_is_journaled [OF fsa.atomic_store_axioms _ v(1) t v(2) _ C _ _ _ sp res _ rec e])
      (simp_all add: sampleIssuer_def quietClient_def ensureRegistered_def)
  with e k show ?thesis by auto
qed

end
