(* ===== verification/OnDemand.thy ===== *)
theory OnDemand
  imports CertCache Limiter
begin

text \<open>
  ondemand.go: the dynamic allow-set a multi-tenant platform publishes, the shared index of
  on-demand certificates, the DNS pre-flight and the bucket that bounds first issuances. The
  authority that enumerates the names and the resolver are parameters. The mutexes guard single
  map updates; \<open>indexMu\<close> makes an index update and its publication atomic on the node.
\<close>

section \<open>The new-order bucket\<close>

record tokenBucket =
  tbMax :: int
  tbWindow :: duration
  tbEvents :: "time list"

definition newTokenBucket :: "int \<Rightarrow> duration \<Rightarrow> tokenBucket" where
  "newTokenBucket mx win = \<lparr>tbMax = mx, tbWindow = win, tbEvents = []\<rparr>"

text \<open>\<open>take\<close> reads the clock twice: \<open>t1\<close> for the cutoff, \<open>t2\<close> for the event it records.\<close>

definition tbTake :: "time \<Rightarrow> time \<Rightarrow> tokenBucket \<Rightarrow> bool \<times> tokenBucket" where
  "tbTake t1 t2 b =
     (let cutoff = t1 - tbWindow b;
          kept = filter (\<lambda>t. cutoff < t) (tbEvents b);
          b1 = b\<lparr>tbEvents := kept\<rparr>
      in if int (length kept) \<ge> tbMax b then (False, b1)
         else (True, b1\<lparr>tbEvents := kept @ [t2]\<rparr>))"

section \<open>State and configuration\<close>

record 's OnDemandConfig =
  Enumerate :: "('s, string list) io option"
  odInterval :: duration
  ExpectedTarget :: string
  HandshakeWait :: duration
  MaxNewOrdersPerHour :: int
  MaxConcurrentOrders :: int

definition preflightBackoff :: duration where
  "preflightBackoff = 24 * Hour"

record 's onDemand =
  odCfg :: "'s OnDemandConfig"
  odBackend :: "'s backend"
  odPrefix :: string
  lookupCNAME :: "string \<Rightarrow> ('s, string) io"
  lookupHost :: "string \<Rightarrow> ('s, string list) io"
  odHost :: "'s host"

record odMem =
  odAllow :: "string list"
  odOrders :: tokenBucket
  odIndexDirty :: bool
  odPublished :: string
  odHasPublished :: bool
  odPreflight :: "string \<Rightarrow> time option"
  odIndex :: "(string \<times> int) list"

definition defaultOnDemandConfig :: "'s OnDemandConfig \<Rightarrow> 's OnDemandConfig" where
  "defaultOnDemandConfig cfg =
     cfg\<lparr>odInterval := (if odInterval cfg \<le> 0 then Minute else odInterval cfg),
         MaxNewOrdersPerHour := (if MaxNewOrdersPerHour cfg \<le> 0 then 40 else MaxNewOrdersPerHour cfg),
         MaxConcurrentOrders := (if MaxConcurrentOrders cfg \<le> 0 then 4 else MaxConcurrentOrders cfg)\<rparr>"

definition newOnDemand ::
  "'s host \<Rightarrow> (string \<Rightarrow> ('s, string) io) \<Rightarrow> (string \<Rightarrow> ('s, string list) io) \<Rightarrow> 's OnDemandConfig \<Rightarrow>
   's backend \<Rightarrow> string \<Rightarrow> 's onDemand" where
  "newOnDemand H cname hostF cfg B pre =
     \<lparr>odCfg = defaultOnDemandConfig cfg, odBackend = B, odPrefix = pre, lookupCNAME = cname,
      lookupHost = hostF, odHost = H\<rparr>"

definition newOdMem :: "'s OnDemandConfig \<Rightarrow> odMem" where
  "newOdMem cfg =
     \<lparr>odAllow = [], odOrders = newTokenBucket (MaxNewOrdersPerHour (defaultOnDemandConfig cfg)) Hour,
      odIndexDirty = False, odPublished = [], odHasPublished = False, odPreflight = Map.empty, odIndex = []\<rparr>"

definition odKey :: "'s onDemand \<Rightarrow> string \<Rightarrow> string" where
  "odKey o1 name = odPrefix o1 @ name"

section \<open>The allow-set\<close>

definition odAllows :: "string \<Rightarrow> odMem \<Rightarrow> bool" where
  "odAllows serverName m = (serverName \<in> set (odAllow m))"

definition odHosts :: "odMem \<Rightarrow> string list" where
  "odHosts m = sort (odAllow m)"

definition odStore :: "'s onDemand \<Rightarrow> string list \<Rightarrow> odMem \<Rightarrow> odMem" where
  "odStore o1 hosts m =
     (let hset = domainSetOf (ToASCII (odHost o1)) hosts
      in m\<lparr>odAllow := hset,
           odPreflight := (\<lambda>h. if h \<in> set hset then odPreflight m h else None),
           odIndex := filter (\<lambda>(h, v). h \<in> set hset) (odIndex m)\<rparr>)"

definition marshalState :: "int \<Rightarrow> string list \<Rightarrow> blob" where
  "marshalState generatedAt hosts =
     Json (JObj [(''generated_at'', JNum generatedAt), (''hosts'', JArr (map JStr hosts))])"

definition unmarshalState :: "blob \<Rightarrow> error + string list" where
  "unmarshalState body =
     (case jsonOf body of
        Inl e \<Rightarrow> Inl e
      | Inr j \<Rightarrow>
          (case jsonMembers j of
             Inl e \<Rightarrow> Inl e
           | Inr kvs \<Rightarrow>
               (case decInt ''generated_at'' kvs 0 of
                  Inl e \<Rightarrow> Inl e
                | Inr t \<Rightarrow> decStrList ''hosts'' kvs [])))"

definition refreshFollower :: "'s onDemand \<Rightarrow> ('s \<times> odMem, unit) io" where
  "refreshFollower o1 w =
     (case w of
        (s, m) \<Rightarrow>
          (case GetObject (odBackend o1) (odKey o1 OnDemandHosts) s of
             (Inl e, s1) \<Rightarrow> (Inl e, s1, m)
           | (Inr body, s1) \<Rightarrow>
               (case unmarshalState body of
                  Inl e \<Rightarrow> (Inl e, s1, m)
                | Inr hosts \<Rightarrow> (Inr (), s1, odStore o1 hosts m))))"

definition refreshLeader :: "'s onDemand \<Rightarrow> 's \<times> odMem \<Rightarrow> 's \<times> odMem" where
  "refreshLeader o1 w =
     (case w of
        (s, m) \<Rightarrow>
          (case Enumerate (odCfg o1) of
             None \<Rightarrow> (s, m)
           | Some enumF \<Rightarrow>
               (case enumF s of
                  (Inl err, s1) \<Rightarrow>
                    if \<not> odHasPublished m then snd (refreshFollower o1 (s1, m)) else (s1, m)
                | (Inr hosts, s1) \<Rightarrow>
                    (let normalized = sort (normalizeDomains (ToASCII (odHost o1)) hosts);
                         m1 = odStore o1 normalized m;
                         joined = Join normalized [CHR 0x0A];
                         unchanged = odHasPublished m1 \<and> joined = odPublished m1;
                         m2 = m1\<lparr>odPublished := joined, odHasPublished := True\<rparr>
                     in if unchanged then (s1, m2)
                        else (snd (PutObject (odBackend o1) (odKey o1 OnDemandHosts)
                                (marshalState (Unix (now (odHost o1) s1)) normalized)
                                (plainPut ''application/json'') s1), m2)))))"

section \<open>The certificate index\<close>

definition marshalIndex :: "(string \<times> int) list \<Rightarrow> blob" where
  "marshalIndex idx = Json (JObj (map (\<lambda>(k, v). (k, JNum v)) (sort_key fst idx)))"

definition unmarshalIndex :: "blob \<Rightarrow> error + (string \<times> int) list" where
  "unmarshalIndex body =
     (case jsonOf body of
        Inl e \<Rightarrow> Inl e
      | Inr j \<Rightarrow> (case jsonMembers j of Inl e \<Rightarrow> Inl e | Inr kvs \<Rightarrow> decIntMap kvs []))"

text \<open>Reading a Go map of integers: zero for a missing key.\<close>

definition at0 :: "(string \<times> int) list \<Rightarrow> string \<Rightarrow> int" where
  "at0 idx h = (case map_of idx h of None \<Rightarrow> 0 | Some v \<Rightarrow> v)"

definition publishIndex :: "'s onDemand \<Rightarrow> ('s \<times> odMem, unit) io" where
  "publishIndex o1 w =
     (case w of
        (s, m) \<Rightarrow>
          (case PutObject (odBackend o1) (odKey o1 OnDemandCertIndex) (marshalIndex (odIndex m))
                  (plainPut ''application/json'') s of
             (Inl e, s1) \<Rightarrow> (Inl e, s1, m\<lparr>odIndexDirty := True\<rparr>)
           | (Inr _, s1) \<Rightarrow> (Inr (), s1, m\<lparr>odIndexDirty := False\<rparr>)))"

definition noteIssued :: "'s onDemand \<Rightarrow> string \<Rightarrow> time \<Rightarrow> ('s \<times> odMem, unit) io" where
  "noteIssued o1 hostname notAfter w =
     (case w of
        (s, m) \<Rightarrow>
          publishIndex o1 (s, m\<lparr>odIndex := AList.update (ToLower hostname) (Unix notAfter) (odIndex m)\<rparr>))"

definition republishIndexIfDirty :: "'s onDemand \<Rightarrow> ('s \<times> odMem, unit) io" where
  "republishIndexIfDirty o1 w = (if \<not> odIndexDirty (snd w) then (Inr (), w) else publishIndex o1 w)"

definition readIndex :: "'s onDemand \<Rightarrow> ('s, (string \<times> int) list) io" where
  "readIndex o1 =
     bindIO (GetObject (odBackend o1) (odKey o1 OnDemandCertIndex)) (\<lambda>body s. (unmarshalIndex body, s))"

definition hydrateIndex :: "'s onDemand \<Rightarrow> 's \<times> odMem \<Rightarrow> 's \<times> odMem" where
  "hydrateIndex o1 w =
     (case w of
        (s, m) \<Rightarrow>
          (case readIndex o1 s of
             (Inl e, s1) \<Rightarrow> (s1, m)
           | (Inr published, s1) \<Rightarrow> (s1, m\<lparr>odIndex := published\<rparr>)))"

definition indexNotAfter :: "string \<Rightarrow> odMem \<Rightarrow> time option" where
  "indexNotAfter hostname m =
     (case map_of (odIndex m) (ToLower hostname) of
        None \<Rightarrow> None
      | Some ts \<Rightarrow> if ts = 0 then None else Some (ofUnix ts))"

definition changedSince :: "'s onDemand \<Rightarrow> string list \<Rightarrow> 's \<times> odMem \<Rightarrow> string list \<times> 's \<times> odMem" where
  "changedSince o1 hosts w =
     (case w of
        (s, m) \<Rightarrow>
          (case readIndex o1 s of
             (Inl e, s1) \<Rightarrow> (hosts, s1, m)
           | (Inr published, s1) \<Rightarrow>
               (filter (\<lambda>h. at0 published h \<noteq> at0 (odIndex m) h) (map ToLower hosts), s1, m)))"

definition noteRefreshed :: "'s onDemand \<Rightarrow> string \<Rightarrow> 's \<times> odMem \<Rightarrow> 's \<times> odMem" where
  "noteRefreshed o1 hostname w =
     (case w of
        (s, m) \<Rightarrow>
          (case readIndex o1 s of
             (Inl e, s1) \<Rightarrow> (s1, m)
           | (Inr published, s1) \<Rightarrow>
               (s1, m\<lparr>odIndex := AList.update (ToLower hostname) (at0 published (ToLower hostname)) (odIndex m)\<rparr>)))"

section \<open>The DNS pre-flight\<close>

text \<open>\<open>errors.As\<close> finds the first \<open>net.DNSError\<close> of the chain.\<close>

fun lookupSaysAbsent :: "error \<Rightarrow> bool" where
  "lookupSaysAbsent [] = False"
| "lookupSaysAbsent (DNSError notFound # e) = notFound"
| "lookupSaysAbsent (x # e) = lookupSaysAbsent e"

text \<open>The reason a name does not resolve to the target, empty when it does or nobody can tell.\<close>

definition resolvesTo :: "'s onDemand \<Rightarrow> string \<Rightarrow> string \<Rightarrow> 's \<Rightarrow> string \<times> 's" where
  "resolvesTo o1 hostname target s =
     (case lookupCNAME o1 hostname s of
        (rc, s1) \<Rightarrow>
          if (case rc of Inl _ \<Rightarrow> False | Inr cname \<Rightarrow> TrimSuffix (ToLower cname) ''.'' = target) then ([], s1)
          else
            (case lookupHost o1 target s1 of
               (Inl e, s2) \<Rightarrow> ([], s2)
             | (Inr ours, s2) \<Rightarrow>
                 (case lookupHost o1 hostname s2 of
                    (Inl e, s3) \<Rightarrow>
                      (if lookupSaysAbsent e then ''does not resolve (NXDOMAIN or no address records)'' else [], s3)
                  | (Inr theirs, s3) \<Rightarrow>
                      if list_ex (\<lambda>a. a \<in> set ours) theirs then ([], s3)
                      else (''resolves to ['' @ Join theirs '' '' @ ''], not to '' @ target, s3))))"

definition preflightOK :: "'s onDemand \<Rightarrow> string \<Rightarrow> 's \<times> odMem \<Rightarrow> (bool \<times> string) \<times> 's \<times> odMem" where
  "preflightOK o1 hostname w =
     (case w of
        (s, m) \<Rightarrow>
          if ExpectedTarget (odCfg o1) = [] then ((True, []), s, m)
          else if (case odPreflight m hostname of None \<Rightarrow> False | Some until \<Rightarrow> now (odHost o1) s < until)
          then ((False, ''recent DNS pre-flight failure''), s, m)
          else
            (let target = TrimSuffix (ToLower (ExpectedTarget (odCfg o1))) ''.'' in
             case resolvesTo o1 hostname target s of
               (reason, s1) \<Rightarrow>
                 if reason = [] then ((True, []), s1, m\<lparr>odPreflight := (odPreflight m)(hostname := None)\<rparr>)
                 else ((False, reason), s1,
                       m\<lparr>odPreflight := (odPreflight m)(hostname \<mapsto> now (odHost o1) s1 + preflightBackoff)\<rparr>)))"

section \<open>Lemmas\<close>

text \<open>The clock the bucket reads twice: the second reading is \<open>\<delta> t\<close> later than the first.\<close>

interpretation bucket: sliding_window
  "\<lambda>t b. tbTake (t - int (\<delta> t)) t (b\<lparr>tbWindow := win\<rparr>)" tbEvents tbMax win for \<delta> :: "time \<Rightarrow> nat" and win
proof unfold_locales
  fix t st st'
  let ?t1 = "t - int (\<delta> t)"
  assume "tbTake ?t1 t (st\<lparr>tbWindow := win\<rparr>) = (True, st')"
  then have st': "tbEvents st' = recent win ?t1 (tbEvents st) @ [t]"
    and lt: "int (length (recent win ?t1 (tbEvents st))) < tbMax st"
    by (auto simp: tbTake_def Let_def recent_def split: if_splits)
  have "recent win t (recent win ?t1 (tbEvents st)) = recent win t (tbEvents st)"
    by (rule recent_later) simp
  moreover from this have "length (recent win t (tbEvents st)) \<le> length (recent win ?t1 (tbEvents st))"
    by (metis length_filter_le recent_def)
  ultimately show "recent win t (tbEvents st') = recent win t (tbEvents st @ [t]) \<and>
      int (length (recent win t (tbEvents st))) < tbMax st"
    using st' lt by simp
next
  fix t st st'
  let ?t1 = "t - int (\<delta> t)"
  assume "tbTake ?t1 t (st\<lparr>tbWindow := win\<rparr>) = (False, st')"
  then have "tbEvents st' = recent win ?t1 (tbEvents st)"
    by (auto simp: tbTake_def Let_def recent_def split: if_splits)
  then show "recent win t (tbEvents st') = recent win t (tbEvents st)"
    using recent_later [of ?t1 t] by simp
next
  fix t st g st'
  assume "tbTake (t - int (\<delta> t)) t (st\<lparr>tbWindow := win\<rparr>) = (g, st')"
  then show "tbMax st' = tbMax st" by (auto simp: tbTake_def Let_def split: if_splits)
qed

lemma ToLower_cmp_state: "ToLower ''generated_at'' \<noteq> ToLower ''hosts''"
  by code_simp

lemma unmarshal_marshalState: "int64_ok t \<Longrightarrow> unmarshalState (marshalState t hosts) = Inr hosts"
  by (simp add: unmarshalState_def marshalState_def ToLower_cmp_state ToLower_cmp_state [symmetric])

lemma decIntMap_ints:
  "\<forall>(k, v) \<in> set idx. int64_ok v \<Longrightarrow>
     \<exists>out. decIntMap (map (\<lambda>(k, v). (k, JNum v)) idx) acc = Inr out \<and>
       map_of out = map_of acc ++ map_of (rev idx)"
proof (induction idx arbitrary: acc)
  case (Cons kv idx)
  obtain k v where kv: "kv = (k, v)" by fastforce
  from Cons obtain out where "decIntMap (map (\<lambda>(k, v). (k, JNum v)) idx) (AList.update k v acc) = Inr out"
    and "map_of out = map_of (AList.update k v acc) ++ map_of (rev idx)" by fastforce
  with Cons.prems kv show ?case by (simp add: map_add_assoc [symmetric])
qed simp

lemma unmarshal_marshalIndex:
  assumes "\<forall>(k, v) \<in> set idx. int64_ok v" and "distinct (map fst idx)"
  shows "\<exists>out. unmarshalIndex (marshalIndex idx) = Inr out \<and> map_of out = map_of idx"
proof -
  let ?s = "sort_key fst idx"
  have d: "distinct (map fst ?s)"
    using assms(2) by (metis distinct_map set_sort distinct_sort)
  have "\<forall>(k, v) \<in> set ?s. int64_ok v" using assms(1) by simp
  from decIntMap_ints [OF this, of "[]"] obtain out where
    o: "decIntMap (map (\<lambda>(k, v). (k, JNum v)) ?s) [] = Inr out" "map_of out = map_of (rev ?s)" by auto
  have "map_of (rev ?s) = map_of ?s"
    by (rule map_of_eqI) (use d in \<open>auto simp: rev_map [symmetric] map_of_eq_None_iff
        intro: map_of_is_SomeI dest: map_of_SomeD\<close>)
  moreover have "map_of ?s = map_of idx"
    using assms(2) d by (intro map_of_eqI) (auto dest: map_of_SomeD intro: map_of_is_SomeI)
  ultimately show ?thesis using o by (simp add: unmarshalIndex_def marshalIndex_def)
qed

lemma bucket_run_window:
  "tbWindow b = win \<Longrightarrow>
     runAttempts (\<lambda>t b. tbTake (t - int (\<delta> t)) t b) b ts =
     runAttempts (\<lambda>t b. tbTake (t - int (\<delta> t)) t (b\<lparr>tbWindow := win\<rparr>)) b ts"
proof (induction ts arbitrary: b)
  case (Cons t ts)
  obtain g b1 where g: "tbTake (t - int (\<delta> t)) t b = (g, b1)" by fastforce
  then have "tbWindow b1 = win" using Cons.prems by (auto simp: tbTake_def Let_def split: if_splits)
  moreover have "b\<lparr>tbWindow := win\<rparr> = b" using Cons.prems by (cases b) simp
  ultimately show ?case using Cons.IH [of b1] g by simp
qed simp

lemma odStore_allow [simp]: "odAllow (odStore o1 hosts m) = domainSetOf (ToASCII (odHost o1)) hosts"
  by (simp add: odStore_def Let_def)

lemma odStore_published [simp]:
  "odPublished (odStore o1 hosts m) = odPublished m" "odHasPublished (odStore o1 hosts m) = odHasPublished m"
  by (simp_all add: odStore_def Let_def)

definition indexOK :: "odMem \<Rightarrow> bool" where
  "indexOK m = (distinct (map fst (odIndex m)) \<and> list_all (\<lambda>(k, v). int64_ok v) (odIndex m))"

lemma distinct_update_keys: "distinct (map fst al) \<Longrightarrow> distinct (map fst (AList.update k v al))"
  by (rule distinct_update)

lemma indexOK_note:
  assumes "indexOK m" and "int64_ok v"
  shows "indexOK (m\<lparr>odIndex := AList.update k v (odIndex m)\<rparr>)"
proof -
  have d: "distinct (map fst (AList.update k v (odIndex m)))"
    using assms(1) by (simp add: indexOK_def distinct_update_keys)
  have "int64_ok x" if "(a, x) \<in> set (AList.update k v (odIndex m))" for a x
  proof -
    from that d have "map_of (AList.update k v (odIndex m)) a = Some x" by (rule map_of_is_SomeI [rotated])
    then show ?thesis using assms by (auto simp: indexOK_def list_all_iff split: if_splits dest: map_of_SomeD)
  qed
  with d show ?thesis by (auto simp: indexOK_def list_all_iff)
qed

section \<open>Properties\<close>

text \<open>
  C25: first issuances are bounded: however the attempts fall, and however long the two clock
  readings of one attempt lie apart, the bucket lets at most \<open>maxOrders\<close> through within any
  window.
\<close>

theorem new_order_cap:
  assumes "sorted ts"
    and "runAttempts (\<lambda>t b. tbTake (t - int (\<delta> t)) t b) (newTokenBucket maxOrders win) ts = (gs, b')"
  shows "int (length (filter (\<lambda>x. w < x \<and> x \<le> w + win) gs)) \<le> max 0 maxOrders"
proof -
  have "runAttempts (\<lambda>t b. tbTake (t - int (\<delta> t)) t (b\<lparr>tbWindow := win\<rparr>)) (newTokenBucket maxOrders win) ts = (gs, b')"
    using assms(2) bucket_run_window [of "newTokenBucket maxOrders win" win \<delta> ts] by (simp add: newTokenBucket_def)
  from bucket.cap_from_empty [OF assms(1) _ this] show ?thesis by (simp add: newTokenBucket_def)
qed

theorem new_order_cap_witness:
  "fst (runAttempts (\<lambda>t b. tbTake (t - int ((\<lambda>_. 1) t)) t b) (newTokenBucket 2 10) [1, 2, 3, 30]) = [1, 2, 30] \<and>
   int (length (filter (\<lambda>x. 0 < x \<and> x \<le> 0 + 10)
     (fst (runAttempts (\<lambda>t b. tbTake (t - int ((\<lambda>_. 1) t)) t b) (newTokenBucket 2 10) [1, 2, 3, 30])))) \<le> max 0 2"
proof
  show "fst (runAttempts (\<lambda>t b. tbTake (t - int ((\<lambda>_. 1) t)) t b) (newTokenBucket 2 10) [1, 2, 3, 30]) = [1, 2, 30]"
    by code_simp
  have "sorted [1, 2, 3, 30 :: int]" by simp
  then show "int (length (filter (\<lambda>x. 0 < x \<and> x \<le> 0 + 10)
     (fst (runAttempts (\<lambda>t b. tbTake (t - int ((\<lambda>_. 1) t)) t b) (newTokenBucket 2 10) [1, 2, 3, 30])))) \<le> max 0 2"
    by (rule new_order_cap) (rule surjective_pairing)
qed

text \<open>
  A control-plane failure never retracts a name: when the enumeration fails, a leader that has
  published keeps its whole state, and one that has not either adopts the last published set or
  keeps what it has.
\<close>

theorem enumeration_failure_keeps_names:
  assumes "Enumerate (odCfg o1) = Some enumF" and "enumF s = (Inl err, s1)"
    and "refreshLeader o1 (s, m) = (s', m')"
  shows "m' = m \<or> (\<not> odHasPublished m \<and> (\<exists>body hosts s2. GetObject (odBackend o1) (odKey o1 OnDemandHosts) s1 = (Inr body, s2) \<and>
     unmarshalState body = Inr hosts \<and> m' = odStore o1 hosts m))"
  using assms by (auto simp: refreshLeader_def refreshFollower_def split: if_splits prod.splits sum.splits)

definition sampleOnDemand :: "(fs, string list) io \<Rightarrow> fs onDemand" where
  "sampleOnDemand enumF = newOnDemand fsHost (\<lambda>h s. (Inr h, s)) (\<lambda>h s. (Inr [h], s))
     \<lparr>Enumerate = Some enumF, odInterval = 0, ExpectedTarget = ''t'', HandshakeWait = 0,
      MaxNewOrdersPerHour = 0, MaxConcurrentOrders = 0\<rparr> (fsBackend sampleConfig) []"

definition sampleOdMem :: odMem where
  "sampleOdMem = (newOdMem (odCfg (sampleOnDemand (\<lambda>s. (Inr [], s)))))\<lparr>odAllow := [''a''], odHasPublished := True\<rparr>"

theorem enumeration_failure_keeps_names_witness:
  "\<exists>s' m'. refreshLeader (sampleOnDemand (\<lambda>s. (Inl [Msg ''down''], s))) (sampleDisk [], sampleOdMem) = (s', m') \<and> m' = sampleOdMem"
proof -
  let ?o = "sampleOnDemand (\<lambda>s. (Inl [Msg ''down''], s))"
  obtain s' m' where r: "refreshLeader ?o (sampleDisk [], sampleOdMem) = (s', m')" by fastforce
  have e: "Enumerate (odCfg ?o) = Some (\<lambda>s. (Inl [Msg ''down''], s))"
    by (simp add: sampleOnDemand_def newOnDemand_def defaultOnDemandConfig_def)
  have "odHasPublished sampleOdMem" by (simp add: sampleOdMem_def)
  with enumeration_failure_keeps_names [OF e _ r] r show ?thesis by auto
qed

text \<open>
  Followers serve what the leader enumerated. When the leader's publication of a changed set
  succeeds, a follower that then reads it ends with exactly the leader's allow-set.
\<close>

theorem follower_adopts_published_set:
  assumes "atomic_store B view env valid" and "valid (odKey ld OnDemandHosts)"
    and "odBackend ld = B" and "odBackend fw = B" and "odPrefix fw = odPrefix ld" and "ToASCII (odHost fw) = ToASCII (odHost ld)"
    and "Enumerate (odCfg ld) = Some enumF" and "enumF s = (Inr hosts, s1)"
    and "\<not> odHasPublished m" and "int64_ok (Unix (now (odHost ld) s1))"
    and "PutObject B (odKey ld OnDemandHosts)
           (marshalState (Unix (now (odHost ld) s1)) (sort (normalizeDomains (ToASCII (odHost ld)) hosts)))
           (plainPut ''application/json'') s1 = (Inr u, s2)"
    and "refreshLeader ld (s, m) = (s', m')"
    and "refreshFollower fw (s', f) = (Inr u', s'', f')"
  shows "odAllow f' = odAllow m'"
proof -
  let ?hs = "sort (normalizeDomains (ToASCII (odHost ld)) hosts)"
  have s': "s' = s2" and m': "odAllow m' = domainSetOf (ToASCII (odHost ld)) ?hs"
    using assms(3,7-9,11,12) by (auto simp: refreshLeader_def Let_def)
  from atomic_store.put_effect [OF assms(1,2,11)] obtain e where
    "view s2 (odKey ld OnDemandHosts) = Some (marshalState (Unix (now (odHost ld) s1)) ?hs, e)"
    by (auto simp: putEffect_def)
  moreover from assms(4,5,13) s' obtain body hosts' where
    g: "GetObject B (odKey ld OnDemandHosts) s2 = (Inr body, s'')" and u: "unmarshalState body = Inr hosts'"
    and f': "f' = odStore fw hosts' f"
    by (auto simp: refreshFollower_def odKey_def split: prod.splits sum.splits)
  moreover note atomic_store.get_effect [OF assms(1,2) g]
  ultimately have "hosts' = ?hs"
    using unmarshal_marshalState [OF assms(10)] by (auto simp: getEffect_def)
  with f' m' assms(6) show ?thesis by simp
qed

theorem follower_adopts_published_set_witness:
  "\<exists>s' m' s'' f'. refreshLeader (sampleOnDemand (\<lambda>s. (Inr [''b'', ''A.''], s))) (sampleDisk [], sampleOdMem\<lparr>odHasPublished := False\<rparr>) = (s', m') \<and>
     refreshFollower (sampleOnDemand (\<lambda>s. (Inr [], s))) (s', sampleOdMem) = (Inr (), s'', f') \<and>
     odAllow f' = odAllow m'"
proof -
  let ?ld = "sampleOnDemand (\<lambda>s. (Inr [''b'', ''A.''], s))" and ?fw = "sampleOnDemand (\<lambda>s. (Inr [], s))"
  let ?m = "sampleOdMem\<lparr>odHasPublished := False\<rparr>" and ?s = "sampleDisk []"
  define s' where "s' = fst (refreshLeader ?ld (?s, ?m))"
  define m' where "m' = snd (refreshLeader ?ld (?s, ?m))"
  have r: "refreshLeader ?ld (?s, ?m) = (s', m')" by (simp add: s'_def m'_def)
  obtain q s'' f' where q: "refreshFollower ?fw (s', sampleOdMem) = (q, s'', f')" by (metis prod.collapse)
  have "fst (refreshFollower ?fw (s', sampleOdMem)) = Inr ()" unfolding s'_def by code_simp
  with q have f: "refreshFollower ?fw (s', sampleOdMem) = (Inr (), s'', f')" by simp
  let ?b = "marshalState (Unix (now (odHost ?ld) ?s)) (sort (normalizeDomains (ToASCII (odHost ?ld)) [''b'', ''A.'']))"
  have "fst (PutObject (fsBackend sampleConfig) (odKey ?ld OnDemandHosts) ?b (plainPut ''application/json'') ?s) = Inr ()"
    by code_simp
  then obtain s2 where p: "PutObject (fsBackend sampleConfig) (odKey ?ld OnDemandHosts) ?b (plainPut ''application/json'') ?s = (Inr (), s2)"
    by (metis prod.collapse)
  have v: "fsValid sampleConfig (odKey ?ld OnDemandHosts)" by code_simp
  have i: "int64_ok (Unix (now (odHost ?ld) ?s))" by code_simp
  have "odAllow f' = odAllow m'"
    by (rule follower_adopts_published_set [OF fsa.atomic_store_axioms v _ _ _ _ _ _ _ i p r f])
      (simp_all add: sampleOnDemand_def newOnDemand_def defaultOnDemandConfig_def)
  with r f show ?thesis by blast
qed

text \<open>
  A publication that failed is taken for done. Once the leader has tried to write a set, whether
  or not the write succeeded, a later enumeration that returns the same names leaves the storage
  untouched: the next tick does not retry, and followers stay on the old set until the names
  change.
\<close>

theorem failed_publication_not_retried:
  assumes "Enumerate (odCfg o1) = Some enumF" and "enumF s = (Inr hosts, s1)"
    and "refreshLeader o1 (s, m) = (s2, m2)" and "enumF s2 = (Inr hosts, s3)"
  shows "\<exists>m3. refreshLeader o1 (s2, m2) = (s3, m3)"
proof -
  have "odHasPublished m2 \<and> odPublished m2 = Join (sort (normalizeDomains (ToASCII (odHost o1)) hosts)) [CHR 0x0A]"
    using assms(1-3) by (auto simp: refreshLeader_def Let_def split: if_splits)
  then show ?thesis using assms(1,4) by (simp add: refreshLeader_def Let_def)
qed

theorem failed_publication_not_retried_witness:
  "\<exists>s2 m2 m3. refreshLeader (sampleOnDemand (\<lambda>s. (Inr [''b''], s))) ((sampleDisk [])\<lparr>fsFails := (\<lambda>_. True)\<rparr>, sampleOdMem) = (s2, m2) \<and>
     fsFiles s2 = [] \<and>
     refreshLeader (sampleOnDemand (\<lambda>s. (Inr [''b''], s))) (s2, m2) = (s2, m3)"
proof -
  let ?o = "sampleOnDemand (\<lambda>s. (Inr [''b''], s))" and ?s = "(sampleDisk [])\<lparr>fsFails := (\<lambda>_. True)\<rparr>"
  obtain s2 m2 where r: "refreshLeader ?o (?s, sampleOdMem) = (s2, m2)" by fastforce
  have "fsFiles (fst (refreshLeader ?o (?s, sampleOdMem))) = []" by code_simp
  with r have f: "fsFiles s2 = []" by simp
  have e: "Enumerate (odCfg ?o) = Some (\<lambda>s. (Inr [''b''], s))"
    by (simp add: sampleOnDemand_def newOnDemand_def defaultOnDemandConfig_def)
  from failed_publication_not_retried [OF e _ r] r f show ?thesis by blast
qed

text \<open>
  The index is published whole. After \<open>noteIssued\<close> reports success, what any node reads as the
  index is exactly the leader's map, with the new expiry in it, so no other name's entry is lost.
\<close>

theorem index_published_whole:
  assumes "atomic_store B view env valid" and "valid (odKey o1 OnDemandCertIndex)" and "odBackend o1 = B"
    and "indexOK m" and "int64_ok (Unix notAfter)"
    and "noteIssued o1 h notAfter (s, m) = (Inr u, s1, m1)"
    and "readIndex o1 s1 = (Inr idx, s2)"
  shows "map_of idx = (map_of (odIndex m))(ToLower h \<mapsto> Unix notAfter) \<and> \<not> odIndexDirty m1"
proof -
  let ?m = "m\<lparr>odIndex := AList.update (ToLower h) (Unix notAfter) (odIndex m)\<rparr>"
  from assms(3,6) have p: "PutObject B (odKey o1 OnDemandCertIndex) (marshalIndex (odIndex ?m)) (plainPut ''application/json'') s = (Inr (), s1)"
    and d: "\<not> odIndexDirty m1"
    by (auto simp: noteIssued_def publishIndex_def split: prod.splits sum.splits)
  from assms(3,7) obtain body where g: "GetObject B (odKey o1 OnDemandCertIndex) s1 = (Inr body, s2)"
    and u: "unmarshalIndex body = Inr idx" by (auto simp: readIndex_def bindIO_Inr)
  from atomic_store.put_effect [OF assms(1,2) p] atomic_store.get_effect [OF assms(1,2) g]
  have "body = marshalIndex (odIndex ?m)" by (auto simp: putEffect_def getEffect_def)
  moreover have "indexOK ?m" using assms(4,5) by (rule indexOK_note)
  then have "\<forall>(k, v) \<in> set (odIndex ?m). int64_ok v" "distinct (map fst (odIndex ?m))"
    by (auto simp: indexOK_def list_all_iff)
  ultimately have "map_of idx = map_of (odIndex ?m)" using unmarshal_marshalIndex u by fastforce
  with d show ?thesis by simp
qed

theorem index_published_whole_witness:
  "\<exists>s1 m1 idx s2. noteIssued (sampleOnDemand (\<lambda>s. (Inr [], s))) ''A'' 5 (sampleDisk [], sampleOdMem\<lparr>odIndex := [(''b'', 7)]\<rparr>) = (Inr (), s1, m1) \<and>
     readIndex (sampleOnDemand (\<lambda>s. (Inr [], s))) s1 = (Inr idx, s2) \<and>
     map_of idx = [''b'' \<mapsto> 7](ToLower ''A'' \<mapsto> Unix 5)"
proof -
  let ?o = "sampleOnDemand (\<lambda>s. (Inr [], s))" and ?m = "sampleOdMem\<lparr>odIndex := [(''b'', 7)]\<rparr>"
  define s1 where "s1 = fst (snd (noteIssued ?o ''A'' 5 (sampleDisk [], ?m)))"
  obtain m1 where m1: "m1 = snd (snd (noteIssued ?o ''A'' 5 (sampleDisk [], ?m)))" by blast
  have "fst (noteIssued ?o ''A'' 5 (sampleDisk [], ?m)) = Inr ()" by code_simp
  then have n: "noteIssued ?o ''A'' 5 (sampleDisk [], ?m) = (Inr (), s1, m1)" by (simp add: s1_def m1 prod_eq_iff)
  have "isOk (fst (readIndex ?o s1))" unfolding s1_def by code_simp
  then obtain idx s2 where r: "readIndex ?o s1 = (Inr idx, s2)"
    by (cases "readIndex ?o s1") (auto elim: isOk_E)
  have v: "fsValid sampleConfig (odKey ?o OnDemandCertIndex)" by code_simp
  have b: "odBackend ?o = fsBackend sampleConfig" by (simp add: sampleOnDemand_def newOnDemand_def)
  have k: "indexOK ?m" "int64_ok (Unix 5)" by code_simp+
  from index_published_whole [OF fsa.atomic_store_axioms v b k n r] n r show ?thesis by auto
qed

text \<open>
  C35: the pre-flight refuses a name only on definite evidence: it is in its backoff, or the target
  resolves and the name definitely has no address or resolves to none of the target's. Any other
  resolver trouble lets the order go ahead.
\<close>

theorem preflight_refuses_only_on_evidence:
  assumes "preflightOK o1 h (s, m) = ((False, reason), s', m')"
  shows "ExpectedTarget (odCfg o1) \<noteq> [] \<and>
    ((\<exists>until. odPreflight m h = Some until \<and> now (odHost o1) s < until) \<or>
     (\<exists>ours s1 s2. lookupHost o1 (TrimSuffix (ToLower (ExpectedTarget (odCfg o1))) ''.'') s1 = (Inr ours, s2) \<and>
        ((\<exists>e. lookupHost o1 h s2 = (Inl e, s') \<and> lookupSaysAbsent e) \<or>
         (\<exists>theirs. lookupHost o1 h s2 = (Inr theirs, s') \<and> set theirs \<inter> set ours = {})) \<and>
        odPreflight m' h = Some (now (odHost o1) s' + preflightBackoff)))"
proof -
  let ?t = "TrimSuffix (ToLower (ExpectedTarget (odCfg o1))) ''.''"
  have ne: "ExpectedTarget (odCfg o1) \<noteq> []" using assms by (auto simp: preflightOK_def)
  show ?thesis
  proof (cases "\<exists>until. odPreflight m h = Some until \<and> now (odHost o1) s < until")
    case True
    with ne show ?thesis by blast
  next
    case False
    obtain r s0 where r: "resolvesTo o1 h ?t s = (r, s0)" by fastforce
    have "r \<noteq> []" "s' = s0" "odPreflight m' h = Some (now (odHost o1) s' + preflightBackoff)"
      using assms False ne r by (auto simp: preflightOK_def Let_def split: option.splits if_splits)
    with r ne show ?thesis
      by (auto simp: resolvesTo_def list_ex_iff split: prod.splits sum.splits if_splits) blast+
  qed
qed

theorem preflight_refuses_only_on_evidence_witness:
  "\<exists>reason s' m'. preflightOK (sampleOnDemand (\<lambda>s. (Inr [], s))) ''x'' (sampleDisk [], sampleOdMem) = ((False, reason), s', m') \<and>
     odPreflight m' ''x'' = Some (now fsHost s' + preflightBackoff)"
proof -
  let ?o = "sampleOnDemand (\<lambda>s. (Inr [], s))"
  obtain b r s' m' where p: "preflightOK ?o ''x'' (sampleDisk [], sampleOdMem) = ((b, r), s', m')" by (metis prod.collapse)
  have "\<not> fst (fst (preflightOK ?o ''x'' (sampleDisk [], sampleOdMem)))" by code_simp
  with p have q: "preflightOK ?o ''x'' (sampleDisk [], sampleOdMem) = ((False, r), s', m')" by simp
  have "odPreflight sampleOdMem ''x'' = None" by (simp add: sampleOdMem_def newOdMem_def)
  with preflight_refuses_only_on_evidence [OF q] q show ?thesis
    by (auto simp: sampleOnDemand_def newOnDemand_def)
qed

end
