(* ===== verification/Manager.thy ===== *)
theory Manager
  imports RetryBudget Lease DaneController Issuer OnDemand
begin

text \<open>
  manager.go and the manager's half of local_copy.go: configuration, the TLS handshake, the
  issuance of one certificate, the operator's renewal and start-up. A node's memory is the record
  \<open>node\<close>, the cache's memory extended by what else the manager holds; every operation acts on the
  pair of the outside world and the node. A context that ends is an error of the calls it is
  passed to, which the calls may answer at any time anyway. Log lines are left out.
\<close>

section \<open>The node\<close>

text \<open>
  \<open>ndInflight\<close> lists the keyed mutexes of \<open>inflight\<close> that are taken, \<open>ndIssuing\<close> the names with an
  asynchronous issuance under way, \<open>ndJobs\<close> the goroutines \<open>requestIssue\<close> started that have not
  run yet. \<open>ndIssuer\<close> is the account key of the issuer once it is built. The last two fields record
  what the callbacks \<open>OnServedExpiry\<close> and \<open>OnDANEPublishedMatch\<close> were told.
\<close>

record node = cacheMem +
  ndRetries :: "retryBudget option"
  ndOd :: odMem
  ndIss :: issMem
  ndIssuer :: "signer option"
  ndInflight :: "string list"
  ndIssuing :: "string list"
  ndJobs :: "(string \<times> bool) list"
  ndServedReports :: "(string \<times> time) list"
  ndDaneReports :: "(string \<times> bool) list"

text \<open>The fields of \<open>tls.ClientHelloInfo\<close> the manager reads; \<open>hiOffer\<close> stands for the others.\<close>

record hello =
  ServerName :: string
  SupportedProtos :: "string list"
  SupportedCurves :: "nat list"
  hiOffer :: string

text \<open>
  \<open>mgNewIssuer\<close> is the orderer \<open>NewIssuer\<close> returns for an account key. \<open>mgSupports\<close> is
  \<open>ClientHelloInfo.SupportsCertificate\<close>: its answer depends on the hello and the certificate, and
  nothing more is assumed of it. \<open>mgPause\<close> is a select on a timer and on \<open>stopCh\<close>, with everything
  the rest of the process and the cluster did meanwhile; it is true when the timer fired.
  \<open>mgCtxDone\<close> is \<open>ctx.Err() != nil\<close>.
\<close>

record 's Manager =
  mgHost :: "'s host"
  mgKeyStore :: "'s KeyStore"
  mgCache :: "'s certCache"
  mgChallenges :: "'s ChallengeServer"
  mgDane :: "'s daneController option"
  mgDomains :: "string list"
  mgDomainSet :: "string list"
  mgDefaultDomain :: string
  mgRenewBefore :: duration
  mgCheckInterval :: duration
  mgRsaCompanion :: bool
  mgOnDemand :: "'s onDemand option"
  mgLocal :: "localCopy option"
  mgLeaser :: "'s issueLeaser option"
  mgNewIssuer :: "signer \<Rightarrow> string \<Rightarrow> signer \<Rightarrow> ('s \<times> issMem, blob) io"
  mgSupports :: "hello \<Rightarrow> certificate \<Rightarrow> error + unit"
  mgPause :: "duration \<Rightarrow> 's \<times> node \<Rightarrow> bool \<times> 's \<times> node"
  mgCtxDone :: "'s \<Rightarrow> bool"

definition DefaultRenewBefore :: duration where
  "DefaultRenewBefore = 30 * 24 * Hour"

text \<open>Acting on one part of the node's memory.\<close>

definition onOd :: "('s \<times> odMem \<Rightarrow> 'a \<times> 's \<times> odMem) \<Rightarrow> 's \<times> node \<Rightarrow> 'a \<times> 's \<times> node" where
  "onOd f w = (case w of (s, n) \<Rightarrow> (case f (s, ndOd n) of (r, s1, o1) \<Rightarrow> (r, s1, n\<lparr>ndOd := o1\<rparr>)))"

definition onIss :: "('s \<times> issMem \<Rightarrow> 'a \<times> 's \<times> issMem) \<Rightarrow> 's \<times> node \<Rightarrow> 'a \<times> 's \<times> node" where
  "onIss f w = (case w of (s, n) \<Rightarrow> (case f (s, ndIss n) of (r, s1, i1) \<Rightarrow> (r, s1, n\<lparr>ndIss := i1\<rparr>)))"

definition onRetries :: "(retryBudget option \<Rightarrow> retryBudget option) \<Rightarrow> node \<Rightarrow> node" where
  "onRetries f n = n\<lparr>ndRetries := f (ndRetries n)\<rparr>"

section \<open>keyedMutex\<close>

text \<open>
  \<open>tryLock\<close> fails on a mutex that is taken. \<open>withLock\<close> is lock and the deferred unlock around a
  body, from the moment the lock is granted.
\<close>

definition tryLock :: "string \<Rightarrow> node \<Rightarrow> node option" where
  "tryLock key n = (if key \<in> set (ndInflight n) then None else Some (n\<lparr>ndInflight := key # ndInflight n\<rparr>))"

definition unlock :: "string \<Rightarrow> node \<Rightarrow> node" where
  "unlock key n = n\<lparr>ndInflight := remove1 key (ndInflight n)\<rparr>"

definition withLock :: "string \<Rightarrow> ('s \<times> node, 'a) io \<Rightarrow> ('s \<times> node, 'a) io" where
  "withLock key body w =
     (case w of (s, n) \<Rightarrow>
        (case body (s, n\<lparr>ndInflight := key # ndInflight n\<rparr>) of
           (r, s1, n1) \<Rightarrow> (r, s1, unlock key n1)))"

section \<open>Issuing one certificate\<close>

definition ensureIssuer :: "'s Manager \<Rightarrow> ('s \<times> node, signer) io" where
  "ensureIssuer m w =
     (case w of (s, n) \<Rightarrow>
        (case ndIssuer n of
           Some k \<Rightarrow> (Inr k, s, n)
         | None \<Rightarrow>
             (case LoadOrCreateAccountKey (mgKeyStore m) s of
                (Inl e, s1) \<Rightarrow> (Inl (Msg ''load ACME account key'' # e), s1, n)
              | (Inr k, s1) \<Rightarrow> (Inr k, s1, n\<lparr>ndIssuer := Some k\<rparr>))))"

definition acquireIssueLease :: "'s Manager \<Rightarrow> string \<Rightarrow> 's \<Rightarrow> ('s \<Rightarrow> 's) option \<times> 's" where
  "acquireIssueLease m domain s =
     (case mgLeaser m of
        None \<Rightarrow> (Some (\<lambda>s. s), s)
      | Some l \<Rightarrow> acquire (mgHost m) l (CertDomain domain) s)"

definition defaultRateLimitBackoff :: duration where
  "defaultRateLimitBackoff = Hour"

text \<open>\<open>errors.As\<close> finds the first \<open>acme.Error\<close>; \<open>acme.RateLimit\<close> answers only for a rate limit.\<close>

fun rateLimitWait :: "error \<Rightarrow> duration option" where
  "rateLimitWait [] = None"
| "rateLimitWait (AcmeError code rl # e) = rl"
| "rateLimitWait (x # e) = rateLimitWait e"

definition rateLimitedUntil :: "time \<Rightarrow> error \<Rightarrow> time option" where
  "rateLimitedUntil t err =
     (case rateLimitWait err of
        None \<Rightarrow> None
      | Some wait \<Rightarrow> Some (t + (if wait \<le> 0 then defaultRateLimitBackoff else wait)))"

definition chargeFailure :: "'s Manager \<Rightarrow> string \<Rightarrow> 's \<times> node \<Rightarrow> 's \<times> node" where
  "chargeFailure m domain w =
     (case w of (s, n) \<Rightarrow> (s, onRetries (rbRecordFailure (now (mgHost m) s) domain) n))"

text \<open>
  The tail of \<open>issueWithKey\<close>: the order and what becomes of its chain. The certificate the code
  returns beside \<open>ErrOrderNotPersisted\<close> is the one \<open>hold\<close> has just put in memory; no caller looks
  at it.
\<close>

definition orderAndStore :: "'s Manager \<Rightarrow> string \<Rightarrow> signer \<Rightarrow> ('s \<times> node, certificate) io" where
  "orderAndStore m domain certKey w =
     (case ensureIssuer m w of
        (Inl e, w1) \<Rightarrow> (Inl e, chargeFailure m domain w1)
      | (Inr acct, w1) \<Rightarrow>
          (case onIss (mgNewIssuer m acct domain certKey) w1 of
             (Inl e, w2) \<Rightarrow>
               (case chargeFailure m domain w2 of
                  (s2, n2) \<Rightarrow>
                    (case rateLimitedUntil (now (mgHost m) s2) e of
                       Some until \<Rightarrow> (Inl e, s2, onRetries (rbBlock domain until) n2)
                     | None \<Rightarrow> (Inl e, s2, n2)))
           | (Inr chain, w2) \<Rightarrow>
               (case ccStore (mgCache m) domain chain certKey w2 of
                  (StoreBad e, w3) \<Rightarrow> (Inl e, chargeFailure m domain w3)
                | (StoreUnwritten cert e, w3) \<Rightarrow>
                    (case chargeFailure m domain w3 of
                       (s3, n3) \<Rightarrow>
                         if \<not> errIs e ErrPersistFailed then (Inl e, s3, n3)
                         else (Inl [ErrOrderNotPersisted], s3, hold domain cert chain n3))
                | (StoreDone cert, (s3, n3)) \<Rightarrow> (Inr cert, s3, onRetries (rbReset domain) n3))))"

text \<open>The last look at storage, under the lease.\<close>

definition issueLeased :: "'s Manager \<Rightarrow> string \<Rightarrow> signer \<Rightarrow> bool \<Rightarrow> ('s \<times> node, certificate) io" where
  "issueLeased m domain certKey force w =
     (case ccRefresh (mgCache m) domain w of
        (Inr stored, (s1, n1)) \<Rightarrow>
          if \<not> force \<and> (case leafNotAfter domain n1 of
                            None \<Rightarrow> False
                          | Some na \<Rightarrow> na - now (mgHost m) s1 > mgRenewBefore m)
          then (Inr stored, s1, n1)
          else orderAndStore m domain certKey (s1, n1)
      | (Inl rerr, w1) \<Rightarrow>
          if force \<or> absentFromStorage rerr then orderAndStore m domain certKey w1
          else (Inl [Msg ''not ordering'', ErrStorageUnavailable], w1))"

text \<open>
  A budget whose limit is below one would make \<open>allow\<close> panic; the panic ends the attempt, and
  \<open>NewManager\<close> never configures such a limit.
\<close>

definition issueWithKey :: "'s Manager \<Rightarrow> string \<Rightarrow> signer \<Rightarrow> bool \<Rightarrow> ('s \<times> node, certificate) io" where
  "issueWithKey m domain certKey force w =
     (case w of (s, n) \<Rightarrow>
        (case rbAllow (now (mgHost m) s) domain (ndRetries n) of
           (None, b) \<Rightarrow> (Inl [Msg ''index out of range''], s, n\<lparr>ndRetries := b\<rparr>)
         | (Some (wait, False), b) \<Rightarrow> (Inl [Msg ''issuance retry budget exhausted''], s, n\<lparr>ndRetries := b\<rparr>)
         | (Some (wait, True), b) \<Rightarrow>
             (let n0 = n\<lparr>ndRetries := b\<rparr> in
              case acquireIssueLease m domain s of
                (None, s1) \<Rightarrow>
                  (case ccRefresh (mgCache m) domain (s1, n0) of
                     (Inr cert, w2) \<Rightarrow>
                       if \<not> force then (Inr cert, w2)
                       else (Inl [Msg ''issuance in progress on another node''], w2)
                   | (Inl e, w2) \<Rightarrow> (Inl [Msg ''issuance in progress on another node''], w2))
              | (Some release, s1) \<Rightarrow>
                  (case issueLeased m domain certKey force (s1, n0) of
                     (r, s2, n2) \<Rightarrow> (r, release s2, n2)))))"

definition obtainCert :: "'s Manager \<Rightarrow> string \<Rightarrow> ('s \<times> node, certificate) io" where
  "obtainCert m domain0 =
     (let domain = ToLower domain0 in
      withLock domain (\<lambda>(s, n).
        case ccGet domain n of
          Some cert \<Rightarrow> (Inr cert, s, n)
        | None \<Rightarrow>
            bindIO (onWorld (gateIssuance (mgDane m) domain)) (\<lambda>_.
            bindIO (onWorld (LoadOrCreateCertKey (mgKeyStore m) domain)) (\<lambda>certKey.
            issueWithKey m domain certKey False)) (s, n)))"

section \<open>The handshake\<close>

definition isALPNChallenge :: "hello \<Rightarrow> bool" where
  "isALPNChallenge h = (SupportedProtos h = [''acme-tls/1''])"

text \<open>\<open>net.ParseIP\<close>: dotted decimal without leading zeros, or IPv6 without a zone.\<close>

definition digitByte :: "char \<Rightarrow> bool" where
  "digitByte c = (CHR ''0'' \<le> c \<and> c \<le> CHR ''9'')"

definition hexByte :: "char \<Rightarrow> bool" where
  "hexByte c = (digitByte c \<or> (CHR ''a'' \<le> c \<and> c \<le> CHR ''f'') \<or> (CHR ''A'' \<le> c \<and> c \<le> CHR ''F''))"

definition decimalValue :: "string \<Rightarrow> nat" where
  "decimalValue ds = foldl (\<lambda>acc c. acc * 10 + (of_char c - 48)) 0 ds"

definition ipv4Field :: "string \<Rightarrow> bool" where
  "ipv4Field f =
     (f \<noteq> [] \<and> list_all digitByte f \<and> (f = ''0'' \<or> hd f \<noteq> CHR ''0'') \<and> length f \<le> 3 \<and> decimalValue f \<le> 255)"

definition parseIPv4 :: "string \<Rightarrow> bool" where
  "parseIPv4 s = (let fs = Split s CHR ''.'' in length fs = 4 \<and> list_all ipv4Field fs)"

text \<open>\<open>k\<close> of the eight groups are left; \<open>ell\<close> tells whether a "::" was seen, which must stand for a group.\<close>

definition ipv6End :: "nat \<Rightarrow> bool \<Rightarrow> bool" where
  "ipv6End k ell = (if k > 0 then ell else \<not> ell)"

fun ipv6Groups :: "nat \<Rightarrow> bool \<Rightarrow> string \<Rightarrow> bool" where
  "ipv6Groups 0 ell s = (s = [] \<and> \<not> ell)"
| "ipv6Groups (Suc k) ell s =
     (let h = takeWhile hexByte s in
      if h = [] \<or> length h > 4 then False
      else
        (case dropWhile hexByte s of
           [] \<Rightarrow> ipv6End k ell
         | c # r \<Rightarrow>
             if c = CHR ''.'' then (ell \<or> Suc k = 2) \<and> Suc k \<ge> 2 \<and> parseIPv4 s \<and> ipv6End (k - 1) ell
             else if c \<noteq> CHR '':'' then False
             else
               (case r of
                  [] \<Rightarrow> False
                | c2 # r2 \<Rightarrow>
                    if c2 = CHR '':'' then \<not> ell \<and> (if r2 = [] then ipv6End k True else ipv6Groups k True r2)
                    else ipv6Groups k ell r)))"

definition parseIPv6 :: "string \<Rightarrow> bool" where
  "parseIPv6 s =
     (if HasPrefix s ''::'' then (let r = drop 2 s in r = [] \<or> ipv6Groups 8 True r) else ipv6Groups 8 False s)"

fun isIPAddressFrom :: "string \<Rightarrow> string \<Rightarrow> bool" where
  "isIPAddressFrom s [] = False"
| "isIPAddressFrom s (c # cs) =
     (if c = CHR ''.'' then parseIPv4 s
      else if c = CHR '':'' then parseIPv6 s
      else if c = CHR ''%'' then False
      else isIPAddressFrom s cs)"

definition isIPAddress :: "string \<Rightarrow> bool" where
  "isIPAddress s = isIPAddressFrom s s"

definition allowsName :: "'s Manager \<Rightarrow> string \<Rightarrow> node \<Rightarrow> bool" where
  "allowsName m serverName n =
     (serverName \<in> set (mgDomainSet m) \<or> (mgOnDemand m \<noteq> None \<and> odAllows serverName (ndOd n)))"

text \<open>The goroutine is a pending job of the node; the name stays marked until the job has run.\<close>

definition requestIssue :: "string \<Rightarrow> bool \<Rightarrow> node \<Rightarrow> node" where
  "requestIssue domain0 onDemandHost n =
     (let domain = ToLower domain0 in
      if domain \<in> set (ndIssuing n) then n
      else n\<lparr>ndIssuing := domain # ndIssuing n, ndJobs := ndJobs n @ [(domain, onDemandHost)]\<rparr>)"

definition takeOrder :: "'s onDemand \<Rightarrow> 's \<times> node \<Rightarrow> bool \<times> 's \<times> node" where
  "takeOrder o1 =
     onOd (\<lambda>(s, m). case tbTake (now (odHost o1) s) (now (odHost o1) s) (odOrders m) of
                      (g, b) \<Rightarrow> (g, s, m\<lparr>odOrders := b\<rparr>))"

text \<open>The body of the goroutine \<open>requestIssue\<close> starts, with its deferred \<open>issuing.Delete\<close>.\<close>

definition issueJobBody :: "'s Manager \<Rightarrow> string \<Rightarrow> bool \<Rightarrow> 's \<times> node \<Rightarrow> 's \<times> node" where
  "issueJobBody m domain onDemandHost w =
     (case (if onDemandHost then mgOnDemand m else None) of
        None \<Rightarrow> snd (obtainCert m domain w)
      | Some o1 \<Rightarrow>
          (case onOd (preflightOK o1 domain) w of
             ((False, reason), w1) \<Rightarrow> w1
           | ((True, reason), w1) \<Rightarrow>
               (case takeOrder o1 w1 of
                  (False, w2) \<Rightarrow> w2
                | (True, w2) \<Rightarrow> snd (obtainCert m domain w2))))"

definition runIssueJob :: "'s Manager \<Rightarrow> 's \<times> node \<Rightarrow> 's \<times> node" where
  "runIssueJob m w =
     (case w of (s, n) \<Rightarrow>
        (case ndJobs n of
           [] \<Rightarrow> (s, n)
         | (domain, onDemandHost) # js \<Rightarrow>
             (case issueJobBody m domain onDemandHost (s, n\<lparr>ndJobs := js\<rparr>) of
                (s1, n1) \<Rightarrow> (s1, n1\<lparr>ndIssuing := removeAll domain (ndIssuing n1)\<rparr>))))"

text \<open>
  The polling loop. \<open>t\<close> is the monotonic clock: a timer that fired lasted at least as long as it
  was set for, and reading the clock later never yields less, so the remaining time decreases.
\<close>

function awaitLoop ::
  "'s Manager \<Rightarrow> string \<Rightarrow> time \<Rightarrow> bool \<Rightarrow> time \<Rightarrow> 's \<times> node \<Rightarrow> certificate option \<times> 's \<times> node" where
  "awaitLoop m domain deadline leader t w =
     (if deadline - t \<le> 0 then (None, w)
      else
        (let sleep = min Second (deadline - t) in
         case mgPause m sleep w of
           (False, w1) \<Rightarrow> (None, w1)
         | (True, (s1, n1)) \<Rightarrow>
             (let t1 = max (now (mgHost m) s1) (t + sleep) in
              case ccGet domain n1 of
                Some cert \<Rightarrow> (Some cert, s1, n1)
              | None \<Rightarrow>
                  if leader then awaitLoop m domain deadline leader t1 (s1, n1)
                  else
                    (case ccRefresh (mgCache m) domain (s1, n1) of
                       (Inr cert, w2) \<Rightarrow> (Some cert, w2)
                     | (Inl e, w2) \<Rightarrow>
                         awaitLoop m domain deadline leader (max (now (mgHost m) (fst w2)) t1) w2))))"
  by pat_completeness auto
termination
  by (relation "measure (\<lambda>(m, domain, deadline, leader, t, w). nat (deadline - t))")
    (auto simp: Second_def min_def max_def split: if_splits)

declare awaitLoop.simps [simp del]

definition awaitCertificate ::
  "'s Manager \<Rightarrow> string \<Rightarrow> duration \<Rightarrow> 's \<times> node \<Rightarrow> certificate option \<times> 's \<times> node" where
  "awaitCertificate m domain limit w =
     (let t = now (mgHost m) (fst w) in
      awaitLoop m domain (t + limit) (isLeader (mgHost m) (fst w)) t w)"

definition handshakeWait :: "'s Manager \<Rightarrow> bool \<Rightarrow> duration" where
  "handshakeWait m onDemandHost =
     (case mgOnDemand m of
        None \<Rightarrow> 0
      | Some o1 \<Rightarrow> if onDemandHost then HandshakeWait (odCfg o1) else 0)"

definition waitOr :: "'s Manager \<Rightarrow> string \<Rightarrow> duration \<Rightarrow> error \<Rightarrow> ('s \<times> node, certificate) io" where
  "waitOr m domain wait err w =
     (if wait > 0 then
        (case awaitCertificate m domain wait w of
           (Some cert, w1) \<Rightarrow> (Inr cert, w1)
         | (None, w1) \<Rightarrow> (Inl err, w1))
      else (Inl err, w))"

text \<open>The follower's read under the \<open>refreshing\<close> mutex.\<close>

definition followerRead :: "'s Manager \<Rightarrow> string \<Rightarrow> ('s \<times> node, certificate) io" where
  "followerRead m domain w =
     (case w of (s, n) \<Rightarrow>
        (case ccGet domain n of
           Some cert \<Rightarrow> (Inr cert, s, n)
         | None \<Rightarrow>
             if recentMiss (now (mgHost m) s) domain n then (Inl [ErrCertificateUnavailable], s, n)
             else
               (case ccRefresh (mgCache m) domain (s, n) of
                  (Inr cert, w1) \<Rightarrow> (Inr cert, w1)
                | (Inl e, (s1, n1)) \<Rightarrow>
                    (Inl [ErrCertificateUnavailable], s1, noteMiss (now (mgHost m) s1) domain n1))))"

definition kickIssue :: "'s Manager \<Rightarrow> string \<Rightarrow> bool \<Rightarrow> ('s \<times> node, certificate) io" where
  "kickIssue m domain onDemandHost w =
     (case w of (s, n) \<Rightarrow>
        waitOr m domain (handshakeWait m onDemandHost) [ErrCertificateUnavailable]
          (s, requestIssue domain onDemandHost n))"

definition getCertificate :: "'s Manager \<Rightarrow> string \<Rightarrow> bool \<Rightarrow> ('s \<times> node, certificate) io" where
  "getCertificate m domain onDemandHost w =
     (case w of (s, n) \<Rightarrow>
        (case ccGet domain n of
           Some cert \<Rightarrow> (Inr cert, s, n)
         | None \<Rightarrow>
             if isLeader (mgHost m) s then
               (if onDemandHost then
                  (case ccRefresh (mgCache m) domain (s, n) of
                     (Inr cert, w1) \<Rightarrow> (Inr cert, w1)
                   | (Inl err, w1) \<Rightarrow>
                       if \<not> absentFromStorage err then (Inl [ErrCertificateUnavailable], w1)
                       else kickIssue m domain onDemandHost w1)
                else kickIssue m domain onDemandHost (s, n))
             else
               (case followerRead m domain (s, n) of
                  (Inr cert, w1) \<Rightarrow> (Inr cert, w1)
                | (Inl err, w1) \<Rightarrow> waitOr m domain (handshakeWait m onDemandHost) err w1)))"

text \<open>The identifiers of \<open>tls.CurveID\<close>.\<close>

definition certificateCurve :: "certificate \<Rightarrow> nat option" where
  "certificateCurve cert =
     (case PrivateKey cert of
        NonSigner _ \<Rightarrow> None
      | SignerKey signer \<Rightarrow>
          (case pk_alg (Public signer) of
             ECDSA_P256 \<Rightarrow> Some 23
           | ECDSA_P384 \<Rightarrow> Some 24
           | ECDSA_P521 \<Rightarrow> Some 25
           | _ \<Rightarrow> None))"

definition errCertificateCurve :: string where
  "errCertificateCurve = ''client doesn'' @ [CHR 0x27] @ ''t support certificate curve''"

definition usableAtHandshake :: "'s Manager \<Rightarrow> hello \<Rightarrow> certificate \<Rightarrow> bool" where
  "usableAtHandshake m probe cert =
     (case mgSupports m probe cert of
        Inr _ \<Rightarrow> True
      | Inl err \<Rightarrow>
          (case certificateCurve cert of
             None \<Rightarrow> False
           | Some curve \<Rightarrow>
               err = [Msg errCertificateCurve] \<and>
               isOk (mgSupports m (probe\<lparr>SupportedCurves := SupportedCurves probe @ [curve]\<rparr>) cert)))"

definition companionFor :: "'s Manager \<Rightarrow> hello \<Rightarrow> string \<Rightarrow> certificate \<Rightarrow> node \<Rightarrow> certificate option" where
  "companionFor m h domain primary n =
     (let probe = h\<lparr>ServerName := []\<rparr> in
      if usableAtHandshake m probe primary then None
      else
        (case ccGet (Companion domain) n of
           None \<Rightarrow> None
         | Some companion \<Rightarrow> if isOk (mgSupports m probe companion) then Some companion else None))"

definition serveName :: "'s Manager \<Rightarrow> hello \<Rightarrow> string \<Rightarrow> ('s \<times> node, certificate) io" where
  "serveName m h serverName w =
     (if \<not> allowsName m serverName (snd w) then (Inl [ErrHostNotAllowed], w)
      else
        (let onDemandHost = (serverName \<notin> set (mgDomainSet m)) in
         case getCertificate m serverName onDemandHost w of
           (Inl err, w1) \<Rightarrow> (Inl [ErrCertificateUnavailable], w1)
         | (Inr cert, w1) \<Rightarrow>
             if mgRsaCompanion m \<and> \<not> onDemandHost then
               (case companionFor m h serverName cert (snd w1) of
                  Some companion \<Rightarrow> (Inr companion, w1)
                | None \<Rightarrow> (Inr cert, w1))
             else (Inr cert, w1)))"

text \<open>The \<open>GetCertificate\<close> callback \<open>buildTLSConfig\<close> installs.\<close>

definition tlsGetCertificate :: "'s Manager \<Rightarrow> hello \<Rightarrow> ('s \<times> node, certificate) io" where
  "tlsGetCertificate m h w =
     (let serverName = ToLower (ServerName h) in
      if isALPNChallenge h then
        (if \<not> allowsName m serverName (snd w) then (Inl [ErrHostNotAllowed], w)
         else
           (case onIss (onChal (GetALPN (mgChallenges m) serverName)) w of
              (Some cert, w1) \<Rightarrow> (Inr cert, w1)
            | (None, w1) \<Rightarrow> (Inl [ErrCertificateUnavailable], w1)))
      else if serverName = [] \<or> isIPAddress serverName then
        (if mgDefaultDomain m = [] then (Inl [ErrMissingServerName], w)
         else serveName m h (ToLower (mgDefaultDomain m)) w)
      else serveName m h serverName w)"

section \<open>The operator's side\<close>

definition RenewCertificate :: "'s Manager \<Rightarrow> string \<Rightarrow> ('s \<times> node, string list) io" where
  "RenewCertificate m domain0 w =
     (let domain = normalizeDomain (ToASCII (mgHost m)) domain0 in
      if \<not> isLeader (mgHost m) (fst w)
      then (Inl [Msg ''certificate renewal must be performed on the cluster leader node''], w)
      else if domain \<notin> set (mgDomainSet m) then (Inl [Msg ''domain is not in the configured domain list''], w)
      else
        withLock domain (\<lambda>(s, n).
          bindIO (onWorld (LoadOrCreateCertKey (mgKeyStore m) domain)) (\<lambda>certKey w1.
            case issueWithKey m domain certKey True w1 of
              (Inl e, w2) \<Rightarrow> (Inl (Msg ''renew'' # e), w2)
            | (Inr _, w2) \<Rightarrow> (Inr [domain], w2))
          (snd (gateIssuance (mgDane m) domain s), n)) w)"

definition DesiredTLSARecords :: "'s Manager \<Rightarrow> ('s, TLSARecord list) io" where
  "DesiredTLSARecords m s =
     (case mgDane m of None \<Rightarrow> (Inr [], s) | Some d \<Rightarrow> DesiredRecords d s)"

record CertificateInfo =
  infoDomain :: string
  infoNotBefore :: time
  infoNotAfter :: time
  DaysUntilExpiry :: int
  IsExpired :: bool
  infoError :: "error option"

text \<open>
  \<open>int(d.Hours() / 24)\<close>: the whole days of a duration, rounded toward zero. The code divides
  floating-point numbers; the division here is exact.
\<close>

definition wholeDays :: "duration \<Rightarrow> int" where
  "wholeDays d = (if d \<ge> 0 then d div (24 * Hour) else - ((- d) div (24 * Hour)))"

definition GetCertificateInfo :: "'s Manager \<Rightarrow> string \<Rightarrow> 's \<times> node \<Rightarrow> CertificateInfo \<times> 's \<times> node" where
  "GetCertificateInfo m domain w =
     (let info = \<lparr>infoDomain = domain, infoNotBefore = zeroTime, infoNotAfter = zeroTime,
                  DaysUntilExpiry = 0, IsExpired = False, infoError = None\<rparr>
      in case (case ccGet domain (snd w) of Some cert \<Rightarrow> (Inr cert, w) | None \<Rightarrow> ccRefresh (mgCache m) domain w) of
           (Inl e, w1) \<Rightarrow> (info\<lparr>infoError := Some (Msg ''no certificate available'' # e)\<rparr>, w1)
         | (Inr cert, w1) \<Rightarrow>
             (case Leaf cert of
                None \<Rightarrow> (info, w1)
              | Some leaf \<Rightarrow>
                  (let t = now (mgHost m) (fst w1) in
                   (info\<lparr>infoNotBefore := NotBefore leaf, infoNotAfter := NotAfter leaf,
                         DaysUntilExpiry := wholeDays (NotAfter leaf - t), IsExpired := (NotAfter leaf < t)\<rparr>, w1))))"

text \<open>\<open>CheckCertificates\<close> says one of three things of a domain, or nothing.\<close>

datatype certVerdict = CheckFailed | CertExpired | ExpiringSoon | Healthy

definition verdictOf :: "CertificateInfo \<Rightarrow> certVerdict" where
  "verdictOf info =
     (if infoError info \<noteq> None then CheckFailed
      else if IsExpired info then CertExpired
      else if DaysUntilExpiry info \<le> 30 then ExpiringSoon
      else Healthy)"

fun checkAll :: "'s Manager \<Rightarrow> string list \<Rightarrow> 's \<times> node \<Rightarrow> (string \<times> certVerdict) list \<times> 's \<times> node" where
  "checkAll m [] w = ([], w)"
| "checkAll m (d # ds) w =
     (case GetCertificateInfo m d w of
        (info, w1) \<Rightarrow> (case checkAll m ds w1 of (vs, w2) \<Rightarrow> ((d, verdictOf info) # vs, w2)))"

definition CheckCertificates :: "'s Manager \<Rightarrow> 's \<times> node \<Rightarrow> (string \<times> certVerdict) list \<times> 's \<times> node" where
  "CheckCertificates m = checkAll m (mgDomains m)"

section \<open>The local copy at start-up\<close>

definition keepsLocalCopy :: "bool \<Rightarrow> string list \<Rightarrow> string \<Rightarrow> bool" where
  "keepsLocalCopy rsaCompanion domainSet name =
     (if IsCompanion name then rsaCompanion \<and> CertDomain name \<in> set domainSet else name \<in> set domainSet)"

definition useLocalCopy :: "localCopy \<Rightarrow> 's Manager \<Rightarrow> 's Manager" where
  "useLocalCopy l m =
     m\<lparr>mgLocal := Some l,
       mgCache := (mgCache m)\<lparr>ccLocal := Some l, ccLocalFor := keepsLocalCopy (mgRsaCompanion m) (mgDomainSet m)\<rparr>\<rparr>"

definition startFromLocalCopy :: "localCopy \<Rightarrow> string \<Rightarrow> time \<Rightarrow> node \<Rightarrow> node" where
  "startFromLocalCopy l name t n =
     (case lcLoad l name t (ccDisk n) of
        (Inl e, d1) \<Rightarrow> n\<lparr>ccDisk := d1\<rparr>
      | (Inr cert, d1) \<Rightarrow> setFromLocal name cert (n\<lparr>ccDisk := d1\<rparr>))"

definition companionNames :: "'s Manager \<Rightarrow> string list" where
  "companionNames m = (if \<not> mgRsaCompanion m then [] else map Companion (mgDomains m))"

definition preloadOne :: "'s Manager \<Rightarrow> string \<Rightarrow> 's \<times> node \<Rightarrow> 's \<times> node" where
  "preloadOne m d w =
     (case ccRefresh (mgCache m) d w of
        (Inr cert, w1) \<Rightarrow> w1
      | (Inl err, (s1, n1)) \<Rightarrow>
          (case mgLocal m of
             None \<Rightarrow> (s1, n1)
           | Some l \<Rightarrow>
               if errIs err ErrStorageUnavailable then (s1, startFromLocalCopy l d (now (mgHost m) s1) n1)
               else (s1, n1)))"

definition preload :: "'s Manager \<Rightarrow> 's \<times> node \<Rightarrow> 's \<times> node" where
  "preload m w = fold (preloadOne m) (mgDomains m @ companionNames m) w"

definition supersedeOne :: "'s Manager \<Rightarrow> string \<Rightarrow> 's \<times> node \<Rightarrow> 's \<times> node" where
  "supersedeOne m name w =
     (case tryLock name (snd w) of
        None \<Rightarrow> w
      | Some n1 \<Rightarrow> (case ccRefresh (mgCache m) name (fst w, n1) of (r, s2, n2) \<Rightarrow> (s2, unlock name n2)))"

definition supersedeLocalCopies :: "'s Manager \<Rightarrow> 's \<times> node \<Rightarrow> 's \<times> node" where
  "supersedeLocalCopies m w = fold (supersedeOne m) (servedFromLocal (snd w)) w"

definition MissingCertificates :: "'s Manager \<Rightarrow> node \<Rightarrow> string list" where
  "MissingCertificates m n = filter (\<lambda>d. ccGet d n = None) (mgDomains m)"

section \<open>The allow-set\<close>

definition refreshAllowSet :: "'s Manager \<Rightarrow> 's \<times> node \<Rightarrow> 's \<times> node" where
  "refreshAllowSet m w =
     (case mgOnDemand m of
        None \<Rightarrow> w
      | Some o1 \<Rightarrow>
          if isLeader (mgHost m) (fst w) then snd (onOd (\<lambda>v. ((), refreshLeader o1 v)) w)
          else snd (onOd (refreshFollower o1) w))"

definition refreshAllowSetIfConfigured :: "'s Manager \<Rightarrow> 's \<times> node \<Rightarrow> 's \<times> node" where
  "refreshAllowSetIfConfigured m w =
     (case mgOnDemand m of
        None \<Rightarrow> w
      | Some o1 \<Rightarrow>
          if isLeader (mgHost m) (fst w) then snd (onOd (\<lambda>v. ((), refreshLeader o1 (hydrateIndex o1 v))) w)
          else snd (onOd (refreshFollower o1) w))"

section \<open>Start-up\<close>

record DANEConfig =
  MXHosts :: "string list"
  TTLSeconds :: int

record LetsEncryptConfig =
  Email :: string
  Domains :: "string list"
  DefaultDomain :: string
  SyncIntervalMinutes :: int
  Staging :: bool
  RenewBeforeDays :: int
  MaxRetriesPerHour :: int
  KeyType :: string
  DANE :: DANEConfig
  RSACompanion :: bool
  LocalDir :: string

record 's Config =
  Enabled :: bool
  Provider :: string
  LetsEncrypt :: LetsEncryptConfig
  OnDemand :: "'s OnDemandConfig option"

text \<open>
  What \<open>NewManager\<close> is given beside its configuration: the node's surroundings, the random ids it
  draws, the resolver, the CA client for an account key, and the parameters of the record
  \<open>Manager\<close>. \<open>evTLSALookup\<close> is \<open>dane.NewResolverLookup\<close> on the configured resolvers.
\<close>

record 's environment =
  evHost :: "'s host"
  evNodeID :: string
  evProbeID :: string
  evClient :: "signer \<Rightarrow> 's acmeClient"
  evTLSALookup :: "string \<Rightarrow> ('s, LookupResult) io"
  evCNAME :: "string \<Rightarrow> ('s, string) io"
  evHostLookup :: "string \<Rightarrow> ('s, string list) io"
  evSupports :: "hello \<Rightarrow> certificate \<Rightarrow> error + unit"
  evPause :: "duration \<Rightarrow> 's \<times> node \<Rightarrow> bool \<times> 's \<times> node"
  evCtxDone :: "'s \<Rightarrow> bool"

text \<open>A product of two \<open>time.Duration\<close> values is a 64-bit signed integer.\<close>

definition wrap64 :: "int \<Rightarrow> int" where
  "wrap64 x = (x + 2 ^ 63) mod 2 ^ 64 - 2 ^ 63"

definition renewBeforeOf :: "LetsEncryptConfig \<Rightarrow> duration" where
  "renewBeforeOf le =
     (if RenewBeforeDays le > 0 then wrap64 (RenewBeforeDays le * 24 * Hour) else DefaultRenewBefore)"

definition checkIntervalOf :: "LetsEncryptConfig \<Rightarrow> duration" where
  "checkIntervalOf le =
     (let i = wrap64 (SyncIntervalMinutes le * Minute) in if i \<le> 0 then 5 * Minute else i)"

definition maxRetriesOf :: "LetsEncryptConfig \<Rightarrow> int" where
  "maxRetriesOf le = (if MaxRetriesPerHour le \<le> 0 then 3 else MaxRetriesPerHour le)"

definition daneTTLOf :: "DANEConfig \<Rightarrow> nat" where
  "daneTTLOf d = (let ttl = nat (TTLSeconds d mod 2 ^ 32) in if ttl = 0 then 3600 else ttl)"

definition soakOf :: "duration \<Rightarrow> nat \<Rightarrow> duration" where
  "soakOf checkInterval ttl =
     (let dnsTTL = int ttl * Second;
          soak = wrap64 ((if dnsTTL > checkInterval then dnsTTL else checkInterval) * 2)
      in if soak < 10 * Minute then 10 * Minute else soak)"

definition normalizeLE :: "(string \<Rightarrow> string option) \<Rightarrow> LetsEncryptConfig \<Rightarrow> LetsEncryptConfig" where
  "normalizeLE f le =
     le\<lparr>Domains := normalizeDomains f (Domains le),
        DefaultDomain := normalizeDomain f (DefaultDomain le),
        DANE := (DANE le)\<lparr>MXHosts := normalizeDomains f (MXHosts (DANE le))\<rparr>\<rparr>"

definition newManagerDane ::
  "'s environment \<Rightarrow> 's KeyStore \<Rightarrow> 's backend \<Rightarrow> string \<Rightarrow> LetsEncryptConfig \<Rightarrow> 's daneController option" where
  "newManagerDane ev ks B pre le =
     (if MXHosts (DANE le) = [] then None
      else
        (let ttl = daneTTLOf (DANE le) in
         Some ((newDANEController (evHost ev) ks (Some B) pre (MXHosts (DANE le)) ttl (soakOf (checkIntervalOf le) ttl))
                 \<lparr>dcLookup := Some (evTLSALookup ev)\<rparr>)))"

text \<open>\<open>NewIssuer\<close> with the journal \<open>ensureIssuer\<close> gives it.\<close>

definition newIssuer ::
  "'s environment \<Rightarrow> 's backend \<Rightarrow> string \<Rightarrow> 's ChallengeServer \<Rightarrow> string \<Rightarrow> signer \<Rightarrow> 's Issuer" where
  "newIssuer ev B pre ch email acct =
     \<lparr>isClient = evClient ev acct, isChallenges = ch, isEmail = email,
      isJournal = Some \<lparr>ojBackend = Some B, ojPrefix = pre, ojHost = evHost ev\<rparr>, isHost = evHost ev\<rparr>"

text \<open>The manager value: the struct literal of \<open>NewManager\<close> and what it is built from.\<close>

definition buildManager ::
  "'s environment \<Rightarrow> 's Config \<Rightarrow> 's backend \<Rightarrow> string \<Rightarrow> LetsEncryptConfig \<Rightarrow> bool \<Rightarrow> 's Manager" where
  "buildManager ev cfg B pre le leased =
     (let H = evHost ev;
          ks = NewKeyStore B pre (if KeyType le = [] then KeyTypeECDSAP256 else KeyType le) H;
          ch = \<lparr>csBackend = Some B, csPrefix = pre, csHost = H\<rparr>
      in \<lparr>mgHost = H, mgKeyStore = ks, mgCache = newCertCache H B pre (LoadCertKey ks), mgChallenges = ch,
          mgDane = newManagerDane ev ks B pre le,
          mgDomains = Domains le, mgDomainSet = domainSetOf (ToASCII H) (Domains le),
          mgDefaultDomain = (case DefaultDomain le of
                               [] \<Rightarrow> (case Domains le of [] \<Rightarrow> [] | d # _ \<Rightarrow> d)
                             | d \<Rightarrow> d),
          mgRenewBefore = renewBeforeOf le, mgCheckInterval = checkIntervalOf le,
          mgRsaCompanion = RSACompanion le,
          mgOnDemand = map_option (\<lambda>oc. newOnDemand H (evCNAME ev) (evHostLookup ev) oc B pre) (OnDemand cfg),
          mgLocal = None,
          mgLeaser = Some \<lparr>ilBackend = (if leased then Some B else None), ilPrefix = pre,
                           ilNodeID = evNodeID ev, ilTTL = issueLeaseTTL\<rparr>,
          mgNewIssuer = (\<lambda>acct. Issue (newIssuer ev B pre ch (Email le) acct)),
          mgSupports = evSupports ev, mgPause = evPause ev, mgCtxDone = evCtxDone ev\<rparr>)"

definition newNode :: "'s Config \<Rightarrow> LetsEncryptConfig \<Rightarrow> fs \<Rightarrow> node" where
  "newNode cfg le disk =
     cacheMem.extend (newCacheMem disk)
       \<lparr>ndRetries = Some (newRetryBudget (maxRetriesOf le)),
        ndOd = (case OnDemand cfg of
                  Some oc \<Rightarrow> newOdMem oc
                | None \<Rightarrow> \<lparr>odAllow = [], odOrders = newTokenBucket 0 Hour, odIndexDirty = False, odPublished = [],
                            odHasPublished = False, odPreflight = Map.empty, odIndex = []\<rparr>),
        ndIss = \<lparr>imRegistered = False, imChal = newChMem\<rparr>,
        ndIssuer = None, ndInflight = [], ndIssuing = [], ndJobs = [], ndServedReports = [], ndDaneReports = []\<rparr>"

text \<open>
  The result is the manager and its node, \<open>None\<close> for the (nil, nil) of a disabled configuration.
  The two loops it starts are the operations \<open>refreshAllowSet\<close> here and \<open>maintainOnce\<close> of the
  theory Scheduler, which run later.
\<close>

definition openLocal :: "string \<Rightarrow> fs \<Rightarrow> (error + localCopy option) \<times> fs" where
  "openLocal dir disk =
     (if dir = [] then (Inr None, disk)
      else (case newLocalCopy dir disk of
              (Inl e, d1) \<Rightarrow> (Inl e, d1)
            | (Inr l, d1) \<Rightarrow> (Inr (Some l), d1)))"

text \<open>Whether the issuance lease is in use, or the refusal of a backend that cannot carry one.\<close>

definition probeVerdict :: "bool \<Rightarrow> error + bool \<Rightarrow> error + bool" where
  "probeVerdict cluster probe =
     (case probe of
        Inl e \<Rightarrow> Inr True
      | Inr supported \<Rightarrow>
          if supported then Inr True
          else if cluster then Inl [Msg ''tls: storage backend ignores If-None-Match'']
          else Inr False)"

definition NewManager ::
  "'s environment \<Rightarrow> 's Config \<Rightarrow> 's backend option \<Rightarrow> string \<Rightarrow> fs \<Rightarrow> 's \<Rightarrow>
   (error + ('s Manager \<times> node) option) \<times> 's" where
  "NewManager ev cfg Bopt pre disk s =
     (if \<not> Enabled cfg \<or> Provider cfg \<noteq> ''letsencrypt'' then (Inr None, s)
      else
        (case Bopt of
           None \<Rightarrow> (Inl [Msg ''tls: storage backend is required for letsencrypt provider''], s)
         | Some B \<Rightarrow>
             (let H = evHost ev; le0 = LetsEncrypt cfg;
                  keyType = (if KeyType le0 = [] then KeyTypeECDSAP256 else KeyType le0)
              in if RSACompanion le0 \<and> keyType \<noteq> KeyTypeECDSAP256
                 then (Inl [Msg ''tls: an RSA companion certificate needs an ecdsa-p256 primary''], s)
                 else
                   (let le = normalizeLE (ToASCII H) le0 in
                    case openLocal (LocalDir le) disk of
                      (Inl e, d1) \<Rightarrow> (Inl e, s)
                    | (Inr local, d1) \<Rightarrow>
                        (case verifyConditionalWrites B pre (evProbeID ev) s of
                           (probe, s1) \<Rightarrow>
                             (case probeVerdict (isLeaderF H \<noteq> None) probe of
                                Inl e \<Rightarrow> (Inl e, s1)
                              | Inr leased \<Rightarrow>
                                  (let m0 = buildManager ev cfg B pre le leased;
                                       m = (case local of None \<Rightarrow> m0 | Some l \<Rightarrow> useLocalCopy l m0)
                                   in case refreshAllowSetIfConfigured m (preload m (s1, newNode cfg le d1)) of
                                        (s2, n2) \<Rightarrow> (Inr (Some (m, n2)), s2))))))))"

end
