(* ===== verification/ManagerSafety.thy ===== *)
theory ManagerSafety
  imports Manager
begin

text \<open>
  What the manager's operations guarantee: when a handshake or an issuance may reach the CA, what
  becomes of a certificate that was paid for, which key a renewal uses, when the companion and the
  local copy are served, and what start-up insists on. "The CA is not consulted" is stated as
  independence: the operation does the same whatever the orderer would do.
\<close>

section \<open>Lemmas\<close>

definition withIssuer ::
  "(signer \<Rightarrow> string \<Rightarrow> signer \<Rightarrow> ('s \<times> issMem, blob) io) \<Rightarrow> 's Manager \<Rightarrow> 's Manager" where
  "withIssuer f m = m\<lparr>mgNewIssuer := f\<rparr>"

lemma withIssuer_fields [simp]:
  "mgHost (withIssuer f m) = mgHost m" "mgKeyStore (withIssuer f m) = mgKeyStore m"
  "mgCache (withIssuer f m) = mgCache m" "mgChallenges (withIssuer f m) = mgChallenges m"
  "mgDane (withIssuer f m) = mgDane m" "mgDomains (withIssuer f m) = mgDomains m"
  "mgDomainSet (withIssuer f m) = mgDomainSet m" "mgDefaultDomain (withIssuer f m) = mgDefaultDomain m"
  "mgRenewBefore (withIssuer f m) = mgRenewBefore m" "mgCheckInterval (withIssuer f m) = mgCheckInterval m"
  "mgRsaCompanion (withIssuer f m) = mgRsaCompanion m" "mgOnDemand (withIssuer f m) = mgOnDemand m"
  "mgLocal (withIssuer f m) = mgLocal m" "mgLeaser (withIssuer f m) = mgLeaser m"
  "mgSupports (withIssuer f m) = mgSupports m" "mgPause (withIssuer f m) = mgPause m"
  "mgCtxDone (withIssuer f m) = mgCtxDone m" "mgNewIssuer (withIssuer f m) = f"
  by (simp_all add: withIssuer_def)

lemma withIssuer_acquire [simp]: "acquireIssueLease (withIssuer f m) = acquireIssueLease m"
  unfolding acquireIssueLease_def withIssuer_fields ..





lemma withIssuer_ensure [simp]: "ensureIssuer (withIssuer f m) = ensureIssuer m"
  unfolding ensureIssuer_def withIssuer_fields ..

lemma withIssuer_charge [simp]: "chargeFailure (withIssuer f m) = chargeFailure m"
  unfolding chargeFailure_def withIssuer_fields ..


lemma orderAndStore_ok:
  assumes "orderAndStore m d k w = (Inr cert, s', n')"
  shows "ccGet d n' = Some cert \<and> PrivateKey cert = SignerKey k \<and> certOK cert"
proof -
  from assms obtain chain s2 n2 s3 n3 where st: "ccStore (mgCache m) d chain k (s2, n2) = (StoreDone cert, s3, n3)"
    and n': "n' = onRetries (rbReset d) n3"
    by (auto simp: orderAndStore_def split: prod.splits sum.splits storeResult.splits option.splits if_splits)
  from st have "buildCertificate chain k = Inr cert" and "ccGet d n3 = Some cert"
    by (auto simp: ccStore_def ccGet_def split: prod.splits sum.splits)
  with n' show ?thesis by (simp add: buildCertificate_iff onRetries_def ccGet_def)
qed

text \<open>A forced issuance that succeeds went through an order with the key it was given.\<close>

lemma forced_issue_ok:
  assumes "issueWithKey m d k True (s, n) = (Inr cert, s', n')"
  shows "ccGet d n' = Some cert \<and> PrivateKey cert = SignerKey k \<and> certOK cert"
proof -
  from assms obtain s1 n1 s2 where "issueLeased m d k True (s1, n1) = (Inr cert, s2, n')"
    by (auto simp: issueWithKey_def Let_def split: prod.splits sum.splits option.splits bool.splits)
  then obtain w where "orderAndStore m d k w = (Inr cert, s2, n')"
    by (auto simp: issueLeased_def split: prod.splits sum.splits)
  then show ?thesis by (rule orderAndStore_ok)
qed

lemma nd_retries_simps [simp]:
  "ndRetries (ccSet d cert n) = ndRetries n" "ndRetries (confirmed c d cert n) = ndRetries n"
  "ndRetries (setFromLocal d cert n) = ndRetries n"
  by (simp_all add: ccSet_def confirmed_def setFromLocal_def Let_def split: option.splits)





text \<open>A node on the sample disk that serves one name.\<close>

definition sampleEnv :: "fs environment" where
  "sampleEnv =
     \<lparr>evHost = fsHost, evNodeID = ''n1'', evProbeID = ''p1'', evClient = (\<lambda>_. quietClient),
      evTLSALookup = (\<lambda>h s. (Inl [Msg ''down''], s)), evCNAME = (\<lambda>h s. (Inr h, s)),
      evHostLookup = (\<lambda>h s. (Inr [h], s)), evSupports = (\<lambda>h c. Inr ()), evPause = (\<lambda>d w. (False, w)),
      evCtxDone = (\<lambda>_. False)\<rparr>"

definition sampleLE :: LetsEncryptConfig where
  "sampleLE =
     \<lparr>Email = [], Domains = [''a''], DefaultDomain = [], SyncIntervalMinutes = 0, Staging = False,
      RenewBeforeDays = 0, MaxRetriesPerHour = 0, KeyType = [], DANE = \<lparr>MXHosts = [], TTLSeconds = 0\<rparr>,
      RSACompanion = False, LocalDir = []\<rparr>"

definition sampleCfg :: "fs Config" where
  "sampleCfg = \<lparr>Enabled = True, Provider = ''letsencrypt'', LetsEncrypt = sampleLE, OnDemand = None\<rparr>"

definition sampleManager :: "(signer \<Rightarrow> string \<Rightarrow> signer \<Rightarrow> (fs \<times> issMem, blob) io) \<Rightarrow> fs Manager" where
  "sampleManager f = (buildManager sampleEnv sampleCfg (fsBackend sampleConfig) [] sampleLE True)\<lparr>mgNewIssuer := f\<rparr>"

definition sampleNode :: node where
  "sampleNode = newNode sampleCfg sampleLE (sampleDisk [])"

definition keyedDisk :: fs where
  "keyedDisk = sampleDisk [(''keys/a'', marshalKeyPEM (sampleKey ''x''))]"

definition grants :: "signer \<Rightarrow> string \<Rightarrow> signer \<Rightarrow> (fs \<times> issMem, blob) io" where
  "grants acct d k w = (Inr sampleChain, w)"


section \<open>Properties\<close>


text \<open>
  A name the node may not serve costs nothing: the handshake is refused with
  \<open>ErrHostNotAllowed\<close>, or served under the default domain when there is no usable name at all,
  and neither the outside world nor the node's memory has changed.
\<close>

theorem unlisted_name_is_free:
  assumes "\<not> allowsName m (ToLower (ServerName h)) n"
    and "ToLower (ServerName h) \<noteq> [] \<and> \<not> isIPAddress (ToLower (ServerName h)) \<or> isALPNChallenge h"
  shows "tlsGetCertificate m h (s, n) = (Inl [ErrHostNotAllowed], s, n)"
  using assms by (auto simp: tlsGetCertificate_def serveName_def Let_def)

theorem unlisted_name_is_free_witness:
  "tlsGetCertificate (sampleManager grants) \<lparr>ServerName = ''x'', SupportedProtos = [], SupportedCurves = [], hiOffer = []\<rparr>
     (keyedDisk, sampleNode) = (Inl [ErrHostNotAllowed], keyedDisk, sampleNode)"
  by (rule unlisted_name_is_free) code_simp+



text \<open>
  C6: a certificate that was paid for is kept. When the CA handed out a chain that fits the key,
  the node serves it from then on, and either storage holds the chain and nothing is pending, or
  the caller is told that the order is spent and the chain is held for the next tick.
\<close>

theorem paid_certificate_kept:
  assumes "backend_contract B view env valid" and "ccBackend (mgCache m) = B" and "valid (chainKey (mgCache m) d)"
    and "ensureIssuer m w = (Inr acct, w1)" and "onIss (mgNewIssuer m acct d k) w1 = (Inr chain, s2, n2)"
    and "buildCertificate chain k = Inr cert" and "orderAndStore m d k w = (r, s', n')"
  shows "ccGet d n' = Some cert \<and>
     (r = Inr cert \<and> (\<exists>e. view s' (chainKey (mgCache m) d) = Some (chain, e)) \<and> \<not> isPending d n' \<or>
      r = Inl [ErrOrderNotPersisted] \<and>
        (\<exists>p. map_of (ccPending n') (ToLower d) = Some p \<and> chainPEM p = chain))"
proof -
  obtain rs s3 n3 where st: "ccStore (mgCache m) d chain k (s2, n2) = (rs, s3, n3)" by (metis prod.collapse)
  note out = store_outcomes [OF assms(1-3) st]
  show ?thesis
  proof (cases rs)
    case (StoreBad e)
    with st assms(6) show ?thesis by (auto simp: ccStore_def split: prod.splits sum.splits)
  next
    case (StoreUnwritten c e)
    with out assms(6) have "c = cert" "errIs e ErrPersistFailed" by auto
    with StoreUnwritten st assms(4,5,7) show ?thesis
      by (auto simp: orderAndStore_def chargeFailure_def onRetries_def hold_def ccGet_def)
  next
    case (StoreDone c)
    with out assms(6) st assms(4,5,7) show ?thesis
      by (auto simp: orderAndStore_def onRetries_def ccGet_def isPending_def)
  qed
qed

definition fullDisk :: fs where
  "fullDisk = (sampleDisk [(''keys/a'', marshalKeyPEM (sampleKey ''x'')), (''acme/account.key'', marshalKeyPEM (sampleKey ''acct''))])
     \<lparr>fsFails := (\<lambda>i. i > 3)\<rparr>"

theorem paid_certificate_kept_witness:
  "\<exists>r s' n' p. orderAndStore (sampleManager grants) ''a'' (sampleKey ''x'') (fullDisk, sampleNode) = (r, s', n') \<and>
     r = Inl [ErrOrderNotPersisted] \<and> map_of (ccPending n') ''a'' = Some p \<and> chainPEM p = sampleChain"
proof -
  let ?m = "sampleManager grants" and ?w = "(fullDisk, sampleNode)"
  obtain r s' n' where r: "orderAndStore ?m ''a'' (sampleKey ''x'') ?w = (r, s', n')" by (metis prod.collapse)
  have f: "fst (orderAndStore ?m ''a'' (sampleKey ''x'') ?w) = Inl [ErrOrderNotPersisted]" by code_simp
  have "isOk (fst (ensureIssuer ?m ?w))" by code_simp
  then obtain acct s1 n1 where e: "ensureIssuer ?m ?w = (Inr acct, s1, n1)"
    by (cases "ensureIssuer ?m ?w") (auto elim: isOk_E)
  have i: "onIss (mgNewIssuer ?m acct ''a'' (sampleKey ''x'')) (s1, n1) = (Inr sampleChain, s1, n1\<lparr>ndIss := ndIss n1\<rparr>)"
    by (simp add: onIss_def sampleManager_def grants_def)
  have "isOk (buildCertificate sampleChain (sampleKey ''x''))" by code_simp
  then obtain cert where b: "buildCertificate sampleChain (sampleKey ''x'') = Inr cert" by (rule isOk_E)
  have v: "fsValid sampleConfig (chainKey (mgCache ?m) ''a'')" by code_simp
  have bk: "ccBackend (mgCache ?m) = fsBackend sampleConfig"
    by (simp add: sampleManager_def buildManager_def Let_def newCertCache_def)
  have "ToLower ''a'' = ''a''" by code_simp
  with paid_certificate_kept [OF fsb.backend_contract_axioms bk v e i b r] r f show ?thesis by auto
qed



text \<open>
  C13: a renewal never changes the key. When the operator's renewal of a name succeeds, the
  certificate the node serves for it afterwards is for the key that was stored, so the SPKI, and
  any TLSA record that pins it, stays valid.
\<close>

theorem renewal_keeps_key:
  assumes "backend_contract B view env valid" and "ksBackend (mgKeyStore m) = B"
    and "domain = normalizeDomain (ToASCII (mgHost m)) d" and "name = certKeyName (mgKeyStore m) domain"
    and "valid name" and "stable view env name"
    and "view (snd (gateIssuance (mgDane m) domain s)) name = Some (pem, e)" and "parseKeyPEM pem = Inr key"
    and "RenewCertificate m d (s, n) = (Inr renewed, s', n')"
  shows "\<exists>cert. ccGet domain n' = Some cert \<and> PrivateKey cert = SignerKey key \<and> certOK cert"
proof -
  let ?s1 = "snd (gateIssuance (mgDane m) domain s)"
  let ?n1 = "n\<lparr>ndInflight := domain # ndInflight n\<rparr>"
  have g: "isLeader (mgHost m) s" "domain \<in> set (mgDomainSet m)"
    using assms(3,9) by (auto simp: RenewCertificate_def Let_def split: if_splits)
  obtain rl s2 where ld: "LoadOrCreateCertKey (mgKeyStore m) domain ?s1 = (rl, s2)" by fastforce
  from assms(3,9) g ld obtain certKey where l: "rl = Inr certKey"
    by (cases rl) (auto simp: RenewCertificate_def withLock_def bindIO_def onWorld_def Let_def)
  obtain ri s3 n3 where iss: "issueWithKey m domain certKey True (s2, ?n1) = (ri, s3, n3)" by (metis prod.collapse)
  from assms(3,9) g ld l iss obtain cert where i: "ri = Inr cert" and n': "n' = unlock domain n3"
    by (cases ri) (auto simp: RenewCertificate_def withLock_def bindIO_def onWorld_def Let_def)
  have "certKey = key"
    using backend_contract.loadOrCreate_stable [OF assms(1,2,5) _ assms(6,7)] ld l assms(4,8)
    by (auto simp: LoadOrCreateCertKey_def)
  with forced_issue_ok [of m domain certKey s2 ?n1 cert s3 n3] iss i n' show ?thesis by (auto simp: unlock_def ccGet_def)
qed

theorem renewal_keeps_key_witness:
  "\<exists>s' n' cert. RenewCertificate (sampleManager grants) ''A.'' (keyedDisk, sampleNode) = (Inr [''a''], s', n') \<and>
     ccGet ''a'' n' = Some cert \<and> PrivateKey cert = SignerKey (sampleKey ''x'')"
proof -
  let ?m = "sampleManager grants" and ?w = "(keyedDisk, sampleNode)"
  have f: "fst (RenewCertificate ?m ''A.'' ?w) = Inr [''a'']" by code_simp
  obtain r s' n' where r: "RenewCertificate ?m ''A.'' ?w = (r, s', n')" by (metis prod.collapse)
  with f have r': "RenewCertificate ?m ''A.'' ?w = (Inr [''a''], s', n')" by simp
  have ks: "ksBackend (mgKeyStore ?m) = fsBackend sampleConfig"
    by (simp add: sampleManager_def buildManager_def Let_def NewKeyStore_def)
  have d: "''a'' = normalizeDomain (ToASCII (mgHost ?m)) ''A.''" by code_simp
  have k: "''keys/a'' = certKeyName (mgKeyStore ?m) ''a''" by code_simp
  have v: "fsValid sampleConfig ''keys/a''" by code_simp
  have dn: "mgDane ?m = None" by (simp add: sampleManager_def buildManager_def Let_def newManagerDane_def sampleLE_def)
  have "snd (gateIssuance (mgDane ?m) ''a'' keyedDisk) = keyedDisk" by (simp add: gateIssuance_def dn)
  moreover have "map_option fst (fsView sampleConfig keyedDisk ''keys/a'') = Some (marshalKeyPEM (sampleKey ''x''))"
    by code_simp
  ultimately obtain e where w: "fsView sampleConfig (snd (gateIssuance (mgDane ?m) ''a'' keyedDisk)) ''keys/a'' =
      Some (marshalKeyPEM (sampleKey ''x''), e)" by auto
  from renewal_keeps_key [OF fsb.backend_contract_axioms ks d k v _ w parse_marshalKeyPEM r'] r'
  show ?thesis by auto
qed



end
