(* ===== verification/Scheduler.thy ===== *)
theory Scheduler
  imports ManagerSafety
begin

text \<open>
  scheduler.go: the maintenance pass of a node (held chains, restored chains, renewals, the
  companion, the on-demand names, the reports) and the key-replacement ceremony. The goroutines of
  the on-demand pass run here one after the other in the order they are started; each is one
  operation, \<open>onDemandRun\<close>.
\<close>

section \<open>Announcing\<close>

definition servedNames :: "'s Manager \<Rightarrow> node \<Rightarrow> string list" where
  "servedNames m n =
     sort (mgDomainSet m) @
     (if mgOnDemand m = None then [] else filter (\<lambda>h. h \<notin> set (mgDomainSet m)) (odHosts (ndOd n)))"

definition reportServed :: "'s Manager \<Rightarrow> node \<Rightarrow> node" where
  "reportServed m n =
     n\<lparr>ndServedReports := ndServedReports n @
         map (\<lambda>name. (name, case leafNotAfter name n of None \<Rightarrow> zeroTime | Some t \<Rightarrow> t)) (servedNames m n)\<rparr>"

definition recordIssued :: "'s Manager \<Rightarrow> string \<Rightarrow> 's \<times> node \<Rightarrow> 's \<times> node" where
  "recordIssued m h w =
     (case mgOnDemand m of
        None \<Rightarrow> w
      | Some o1 \<Rightarrow>
          if isPending h (snd w) then w
          else
            (case leafNotAfter h (snd w) of
               None \<Rightarrow> w
             | Some notAfter \<Rightarrow> snd (onOd (noteIssued o1 h notAfter) w)))"

definition announceStoredChains :: "'s Manager \<Rightarrow> bool \<Rightarrow> string list \<Rightarrow> 's \<times> node \<Rightarrow> 's \<times> node" where
  "announceStoredChains m leader stored w =
     (if \<not> leader \<or> mgOnDemand m = None then w
      else fold (recordIssued m) (filter (\<lambda>d. CertDomain d \<notin> set (mgDomainSet m)) stored) w)"

section \<open>Writing chains the node holds\<close>

definition pendingSnapshot :: "node \<Rightarrow> (string \<times> pendingPersist) list" where
  "pendingSnapshot n = ccPending n"

definition flushWrite :: "'s Manager \<Rightarrow> string \<Rightarrow> pendingPersist \<Rightarrow> 's \<times> node \<Rightarrow> bool \<times> 's \<times> node" where
  "flushWrite m domain p w =
     (case w of (s, n) \<Rightarrow>
        (case persist (mgCache m) domain (chainPEM p) 1 s of
           (Inl e, s1) \<Rightarrow> (False, s1, n)
         | (Inr _, s1) \<Rightarrow>
             (let n1 = dropPending domain n in
              (True, s1, case ccGet domain n1 of None \<Rightarrow> n1 | Some cert \<Rightarrow> confirmed (mgCache m) domain cert n1))))"

text \<open>The body of \<open>flushOne\<close> under the domain's mutex and the lease.\<close>

definition flushLeased :: "'s Manager \<Rightarrow> string \<Rightarrow> pendingPersist \<Rightarrow> 's \<times> node \<Rightarrow> bool \<times> 's \<times> node" where
  "flushLeased m domain p w =
     (case w of (s, n) \<Rightarrow>
        (case storedNotAfter (mgCache m) domain s of
           (Inr notAfter, s1) \<Rightarrow>
             if \<not> notAfter < ppNotAfter p then
               (case ccRefresh (mgCache m) domain (s1, n) of
                  (Inl e, w2) \<Rightarrow> (False, w2)
                | (Inr _, (s2, n2)) \<Rightarrow> (False, s2, dropPending domain n2))
             else flushWrite m domain p (s1, n)
         | (Inl err, s1) \<Rightarrow>
             if isNotExist err \<or> errIs err ErrStoredChainUnparseable then flushWrite m domain p (s1, n)
             else (False, s1, n)))"

definition flushOne :: "'s Manager \<Rightarrow> string \<Rightarrow> pendingPersist \<Rightarrow> 's \<times> node \<Rightarrow> bool \<times> 's \<times> node" where
  "flushOne m domain p w =
     (case w of (s, n) \<Rightarrow>
        (case tryLock domain n of
           None \<Rightarrow> (False, s, n)
         | Some n1 \<Rightarrow>
             (case acquireIssueLease m domain s of
                (None, s1) \<Rightarrow> (False, s1, unlock domain n1)
              | (Some release, s1) \<Rightarrow>
                  (case flushLeased m domain p (s1, n1) of
                     (done, s2, n2) \<Rightarrow> (done, release s2, unlock domain n2)))))"

fun flushAll :: "'s Manager \<Rightarrow> (string \<times> pendingPersist) list \<Rightarrow> 's \<times> node \<Rightarrow> string list \<times> 's \<times> node" where
  "flushAll m [] w = ([], w)"
| "flushAll m ((domain, p) # held) w =
     (if mgCtxDone m (fst w) then ([], w)
      else
        (case flushOne m domain p w of
           (False, w1) \<Rightarrow> flushAll m held w1
         | (True, (s1, n1)) \<Rightarrow>
             (case flushAll m held (s1, onRetries (rbReset domain) n1) of
                (stored, w2) \<Rightarrow> (domain # stored, w2))))"

definition flushHeldChains :: "'s Manager \<Rightarrow> 's \<times> node \<Rightarrow> string list \<times> 's \<times> node" where
  "flushHeldChains m w = flushAll m (pendingSnapshot (snd w)) w"

text \<open>One name of the restore: what is served and storage has lost.\<close>

definition restoreOne :: "'s Manager \<Rightarrow> string list \<Rightarrow> string \<Rightarrow> 's \<times> node \<Rightarrow> bool \<times> 's \<times> node" where
  "restoreOne m inStorage domain w =
     (case w of (s, n) \<Rightarrow>
        if domain \<in> set inStorage \<or> isPending domain n then (False, s, n)
        else
          (case ccGet domain n of
             None \<Rightarrow> (False, s, n)
           | Some cert \<Rightarrow>
               (case Leaf cert of
                  None \<Rightarrow> (False, s, n)
                | Some leaf \<Rightarrow>
                    if \<not> now (mgHost m) s < NotAfter leaf then (False, s, n)
                    else
                      (case LoadCertKey (mgKeyStore m) domain s of
                         (Inl e, s1) \<Rightarrow> (False, s1, n)
                       | (Inr key, s1) \<Rightarrow>
                           (let chain = Pem (encodeChainPEM (Certificate cert)) in
                            case buildCertificate chain key of
                              Inl e \<Rightarrow> (False, s1, n)
                            | Inr _ \<Rightarrow>
                                flushOne m domain \<lparr>chainPEM = chain, ppNotAfter = NotAfter leaf\<rparr> (s1, n))))))"

fun restoreAll :: "'s Manager \<Rightarrow> string list \<Rightarrow> string list \<Rightarrow> 's \<times> node \<Rightarrow> string list \<times> 's \<times> node" where
  "restoreAll m inStorage [] w = ([], w)"
| "restoreAll m inStorage (domain # ds) w =
     (if mgCtxDone m (fst w) then ([], w)
      else
        (case restoreOne m inStorage domain w of
           (done, w1) \<Rightarrow>
             (case restoreAll m inStorage ds w1 of
                (restored, w2) \<Rightarrow> (if done then domain # restored else restored, w2))))"

definition restoreMissingChains :: "'s Manager \<Rightarrow> 's \<times> node \<Rightarrow> string list \<times> 's \<times> node" where
  "restoreMissingChains m w =
     (case w of (s, n) \<Rightarrow>
        (let dir = ccPrefix (mgCache m) @ ChainDir in
         case ListObjects (ccBackend (mgCache m)) dir True s of
           (Inl e, s1) \<Rightarrow> ([], s1, n)
         | (Inr listed, s1) \<Rightarrow>
             restoreAll m (map (\<lambda>o1. ToLower (TrimPrefix (oiKey o1) dir)) listed)
               (servedNames m n @ companionNames m) (s1, n)))"

section \<open>Renewing\<close>

definition freshCert :: "'s Manager \<Rightarrow> 's \<Rightarrow> time option \<Rightarrow> bool" where
  "freshCert m s na = (case na of None \<Rightarrow> False | Some t \<Rightarrow> t - now (mgHost m) s > mgRenewBefore m)"

text \<open>What the node knows of the certificate, from memory or else from storage.\<close>

definition renewLook :: "'s Manager \<Rightarrow> string \<Rightarrow> ('s \<times> node, time option) io" where
  "renewLook m domain w =
     (case leafNotAfter domain (snd w) of
        Some t \<Rightarrow> (Inr (Some t), w)
      | None \<Rightarrow>
          (case ccRefresh (mgCache m) domain w of
             (Inr _, w1) \<Rightarrow> (Inr (leafNotAfter domain (snd w1)), w1)
           | (Inl err, w1) \<Rightarrow>
               if absentFromStorage err then (Inr None, w1)
               else if errIs err ErrKeyCertMismatch then (Inl (Msg ''not ordering'' # err), w1)
               else (Inl [Msg ''not ordering'', ErrStorageUnavailable], w1)))"

definition renewLocked :: "'s Manager \<Rightarrow> string \<Rightarrow> ('s \<times> node, unit) io" where
  "renewLocked m domain w =
     (if freshCert m (fst w) (leafNotAfter domain (snd w)) then (Inr (), w)
      else
        bindIO (onWorld (gateIssuance (mgDane m) domain)) (\<lambda>_.
        bindIO (onWorld (LoadOrCreateCertKey (mgKeyStore m) domain)) (\<lambda>certKey.
        bindIO (issueWithKey m domain certKey False) (\<lambda>_ w. (Inr (), w)))) w)"

definition renewIfNeeded :: "'s Manager \<Rightarrow> string \<Rightarrow> ('s \<times> node, unit) io" where
  "renewIfNeeded m domain =
     bindIO (renewLook m domain) (\<lambda>na (s, n).
       if freshCert m s na then (Inr (), s, n)
       else
         (case tryLock (ToLower domain) n of
            None \<Rightarrow> (Inr (), s, n)
          | Some n1 \<Rightarrow>
              (case renewLocked m domain (s, n1) of
                 (r, s2, n2) \<Rightarrow> (r, s2, unlock (ToLower domain) n2))))"

text \<open>The roll-forward of an interrupted ceremony.\<close>

definition markOutgoing :: "'s Manager \<Rightarrow> string \<Rightarrow> ('s, unit) io" where
  "markOutgoing m domain s =
     (case mgDane m of
        None \<Rightarrow> (Inr (), s)
      | Some d \<Rightarrow> if isMX d domain then markRetiring d domain s else (Inr (), s))"

definition promoteMarked :: "'s Manager \<Rightarrow> string \<Rightarrow> ('s, unit) io" where
  "promoteMarked m domain =
     bindIO (markOutgoing m domain) (\<lambda>_. PromoteNextCertKey (mgKeyStore m) domain)"

definition reconcileCeremony :: "'s Manager \<Rightarrow> string \<Rightarrow> 's \<times> node \<Rightarrow> 's \<times> node" where
  "reconcileCeremony m domain w =
     (case w of (s, n) \<Rightarrow>
        (case LoadNextCertKey (mgKeyStore m) domain s of
           (Inl e, s1) \<Rightarrow> (s1, n)
         | (Inr nextKey, s1) \<Rightarrow>
             (case SPKISHA256 (mgHost m) (Public nextKey) of
                Inl e \<Rightarrow> (s1, n)
              | Inr nextSPKI \<Rightarrow>
                  (case storedLeafSPKI (mgCache m) domain s1 of
                     (Inl e, s2) \<Rightarrow> (s2, n)
                   | (Inr leaf, s2) \<Rightarrow>
                       (case LoadCertKey (mgKeyStore m) domain s2 of
                          (Inl e, s3) \<Rightarrow> (s3, n)
                        | (Inr liveKey, s3) \<Rightarrow>
                            (case SPKISHA256 (mgHost m) (Public liveKey) of
                               Inl e \<Rightarrow> (s3, n)
                             | Inr liveSPKI \<Rightarrow>
                                 if leaf = nextSPKI \<and> liveSPKI \<noteq> nextSPKI then
                                   (case promoteMarked m domain s3 of
                                      (Inl e, s4) \<Rightarrow> (s4, n)
                                    | (Inr _, s4) \<Rightarrow> snd (ccRefresh (mgCache m) domain (s4, n)))
                                 else (s3, n)))))))"

definition maintainCompanion :: "'s Manager \<Rightarrow> bool \<Rightarrow> string \<Rightarrow> 's \<times> node \<Rightarrow> 's \<times> node" where
  "maintainCompanion m leader domain w =
     (let name = Companion domain in
      if \<not> leader then snd (ccRefresh (mgCache m) name w)
      else if \<not> freshCert m (fst w) (leafNotAfter domain (snd w)) then w
      else snd (renewIfNeeded m name w))"

section \<open>The on-demand names\<close>

definition followRefresh :: "'s Manager \<Rightarrow> 's onDemand \<Rightarrow> string \<Rightarrow> 's \<times> node \<Rightarrow> 's \<times> node" where
  "followRefresh m o1 h w =
     (case ccRefresh (mgCache m) h w of
        (Inl e, w1) \<Rightarrow> w1
      | (Inr _, w1) \<Rightarrow> snd (onOd (\<lambda>v. ((), noteRefreshed o1 h v)) w1))"

definition loadKnown :: "'s Manager \<Rightarrow> string \<Rightarrow> 's \<times> node \<Rightarrow> 's \<times> node" where
  "loadKnown m h w =
     (let known = (indexNotAfter h (ndOd (snd w)) \<noteq> None) in
      if leafNotAfter h (snd w) \<noteq> None then (if \<not> known then recordIssued m h w else w)
      else if \<not> known then w
      else snd (ccRefresh (mgCache m) h w))"

text \<open>The plan: renewals first.\<close>

definition onDemandPlan :: "'s Manager \<Rightarrow> string list \<Rightarrow> 's \<times> node \<Rightarrow> (string \<times> bool) list" where
  "onDemandPlan m hosts w =
     (let due = (\<lambda>h. leafNotAfter h (snd w) \<noteq> None \<and> \<not> freshCert m (fst w) (leafNotAfter h (snd w)));
          missing = (\<lambda>h. leafNotAfter h (snd w) = None)
      in map (\<lambda>h. (h, True)) (filter due hosts) @ map (\<lambda>h. (h, False)) (filter missing hosts))"

text \<open>The last look before a first issuance: \<open>None\<close> to skip, else whether it is a renewal now.\<close>

definition lastLook :: "'s Manager \<Rightarrow> string \<Rightarrow> bool \<Rightarrow> 's \<times> node \<Rightarrow> bool option \<times> 's \<times> node" where
  "lastLook m h isRenewal w =
     (if isRenewal then (Some True, w)
      else
        (case ccRefresh (mgCache m) h w of
           (Inr _, w1) \<Rightarrow> (Some True, w1)
         | (Inl err, w1) \<Rightarrow> (if absentFromStorage err then Some False else None, w1)))"

definition onDemandRun :: "'s Manager \<Rightarrow> 's onDemand \<Rightarrow> string \<times> bool \<Rightarrow> 's \<times> node \<Rightarrow> 's \<times> node" where
  "onDemandRun m o1 job w =
     (case job of (h, isRenewal0) \<Rightarrow>
        (case onOd (preflightOK o1 h) w of
           ((False, reason), w1) \<Rightarrow> w1
         | ((True, reason), w1) \<Rightarrow>
             (case lastLook m h isRenewal0 w1 of
                (None, w2) \<Rightarrow> w2
              | (Some isRenewal, w2) \<Rightarrow>
                  (case (if isRenewal then (True, w2) else takeOrder o1 w2) of
                     (False, w3) \<Rightarrow> w3
                   | (True, w3) \<Rightarrow>
                       (case renewIfNeeded m h w3 of
                          (Inl e, w4) \<Rightarrow> w4
                        | (Inr _, w4) \<Rightarrow> recordIssued m h w4)))))"

definition maintainOnDemand :: "'s Manager \<Rightarrow> bool \<Rightarrow> 's \<times> node \<Rightarrow> 's \<times> node" where
  "maintainOnDemand m leader w =
     (case mgOnDemand m of
        None \<Rightarrow> w
      | Some o1 \<Rightarrow>
          (let hosts = odHosts (ndOd (snd w)) in
           if hosts = [] then w
           else if \<not> leader then
             (case onOd (changedSince o1 hosts) w of (changed, w1) \<Rightarrow> fold (followRefresh m o1) changed w1)
           else
             (let w1 = snd (onOd (republishIndexIfDirty o1) w);
                  w2 = fold (loadKnown m) hosts w1
              in fold (onDemandRun m o1) (onDemandPlan m hosts w2) w2)))"

section \<open>One maintenance pass\<close>

definition maintainDomain :: "'s Manager \<Rightarrow> bool \<Rightarrow> string \<Rightarrow> 's \<times> node \<Rightarrow> 's \<times> node" where
  "maintainDomain m leader domain w =
     (let w1 = (if leader then snd (renewIfNeeded m domain (reconcileCeremony m domain w))
                else snd (ccRefresh (mgCache m) domain w))
      in if mgRsaCompanion m then maintainCompanion m leader domain w1 else w1)"

definition maintainDane :: "'s Manager \<Rightarrow> bool \<Rightarrow> 's \<times> node \<Rightarrow> 's \<times> node" where
  "maintainDane m leader w =
     (case w of (s, n) \<Rightarrow>
        (case mgDane m of
           None \<Rightarrow> w
         | Some d \<Rightarrow>
             if \<not> leader then w
             else
               (case verifyPublished (Some d) (cleanupExpiredRetiring d s) of
                  (status, s1) \<Rightarrow> (s1, n\<lparr>ndDaneReports := ndDaneReports n @ status\<rparr>))))"

definition maintainOnce :: "'s Manager \<Rightarrow> 's \<times> node \<Rightarrow> 's \<times> node" where
  "maintainOnce m w =
     (case flushHeldChains m w of
        (stored0, w1) \<Rightarrow>
          (let leader = isLeader (mgHost m) (fst w1); w2 = supersedeLocalCopies m w1 in
           case (if leader then restoreMissingChains m w2 else ([], w2)) of
             (restored, w3) \<Rightarrow>
               (let w4 = announceStoredChains m leader (stored0 @ restored) w3;
                    w5 = fold (maintainDomain m leader) (mgDomains m) w4
                in case maintainOnDemand m leader (maintainDane m leader w5) of
                     (s6, n6) \<Rightarrow> (s6, reportServed m n6))))"

section \<open>The key-replacement ceremony\<close>

definition ReplaceCertificateKey :: "'s Manager \<Rightarrow> string \<Rightarrow> ('s, TLSARecord list) io" where
  "ReplaceCertificateKey m domain0 s =
     (let domain = normalizeDomain (ToASCII (mgHost m)) domain0 in
      if \<not> isLeader (mgHost m) s
      then (Inl [Msg ''key replacement must be performed on the cluster leader node''], s)
      else if domain \<notin> set (mgDomainSet m) then (Inl [Msg ''domain is not in the configured domain list''], s)
      else
        (case GenerateNextCertKey (mgKeyStore m) domain s of
           (Inl e, s1) \<Rightarrow> (Inl (Msg ''stage next key'' # e), s1)
         | (Inr _, s1) \<Rightarrow>
             (case mgDane m of
                Some d \<Rightarrow> recordsForHost d domain s1
              | None \<Rightarrow>
                  (case LoadNextCertKey (mgKeyStore m) domain s1 of
                     (Inl e, s2) \<Rightarrow> (Inl e, s2)
                   | (Inr nextKey, s2) \<Rightarrow>
                       (case SPKISHA256 (mgHost m) (Public nextKey) of
                          Inl e \<Rightarrow> (Inl e, s2)
                        | Inr digest \<Rightarrow> (Inr [NewSPKIRecord domain digest 3600], s2))))))"

text \<open>The activation gate of an MX host: DNS must show the staged key's record, unless forced.\<close>

definition activationGate :: "'s Manager \<Rightarrow> string \<Rightarrow> signer \<Rightarrow> bool \<Rightarrow> ('s, unit) io" where
  "activationGate m domain nextKey force s =
     (case mgDane m of
        None \<Rightarrow> (Inr (), s)
      | Some d \<Rightarrow>
          (case dcLookup d of
             None \<Rightarrow> (Inr (), s)
           | Some lookupF \<Rightarrow>
               if \<not> isMX d domain then (Inr (), s)
               else
                 (case SPKISHA256 (mgHost m) (Public nextKey) of
                    Inl e \<Rightarrow> (Inl e, s)
                  | Inr digest \<Rightarrow>
                      (case lookupF domain s of
                         (r, s1) \<Rightarrow>
                           if force then (Inr (), s1)
                           else
                             (case r of
                                Inl e \<Rightarrow> (Inl [Msg ''cannot verify the TLSA record of the staged key''], s1)
                              | Inr published \<Rightarrow>
                                  if \<not> ContainsSPKIDigest published digest
                                  then (Inl [Msg ''the TLSA record of the staged key is not visible in DNS''], s1)
                                  else (Inr (), s1))))))"

text \<open>The chain for the staged key: one that is held already, or a new order.\<close>

definition activationChain :: "'s Manager \<Rightarrow> string \<Rightarrow> signer \<Rightarrow> ('s \<times> node, blob) io" where
  "activationChain m domain nextKey w =
     (case heldChainFor domain nextKey (snd w) of
        Some (chain, held) \<Rightarrow> (Inr chain, w)
      | None \<Rightarrow>
          bindIO (ensureIssuer m) (\<lambda>acct w1.
            case onIss (mgNewIssuer m acct domain nextKey) w1 of
              (Inl e, w2) \<Rightarrow> (Inl (Msg ''issue cert with next key'' # e), w2)
            | (Inr chain, w2) \<Rightarrow> (Inr chain, w2)) w)"

text \<open>From the stored chain on: mark, look at the leadership again, promote.\<close>

definition activationPromote :: "'s Manager \<Rightarrow> string \<Rightarrow> ('s, unit) io" where
  "activationPromote m domain =
     bindIO (markOutgoing m domain) (\<lambda>_ s.
     if \<not> isLeader (mgHost m) s then (Inl [Msg ''lost leadership before promoting next key''], s)
     else PromoteNextCertKey (mgKeyStore m) domain s)"

definition activateLeased :: "'s Manager \<Rightarrow> string \<Rightarrow> bool \<Rightarrow> ('s \<times> node, unit) io" where
  "activateLeased m domain force =
     bindIO (onWorld (LoadNextCertKey (mgKeyStore m) domain)) (\<lambda>nextKey.
     bindIO (onWorld (activationGate m domain nextKey force)) (\<lambda>_.
     bindIO (activationChain m domain nextKey) (\<lambda>chain w.
       case ccStore (mgCache m) domain chain nextKey w of
         (StoreBad e, w1) \<Rightarrow> (Inl (Msg ''store cert'' # e), w1)
       | (StoreUnwritten cert e, (s1, n1)) \<Rightarrow>
           if errIs e ErrPersistFailed then (Inl [ErrOrderNotPersisted], s1, hold domain cert chain n1)
           else (Inl (Msg ''store cert'' # e), s1, n1)
       | (StoreDone cert, w1) \<Rightarrow> onWorld (activationPromote m domain) w1)))"

definition ActivateCertificateKey :: "'s Manager \<Rightarrow> string \<Rightarrow> bool \<Rightarrow> ('s \<times> node, unit) io" where
  "ActivateCertificateKey m domain0 force w =
     (let domain = normalizeDomain (ToASCII (mgHost m)) domain0 in
      if \<not> isLeader (mgHost m) (fst w)
      then (Inl [Msg ''key activation must be performed on the cluster leader node''], w)
      else if domain \<notin> set (mgDomainSet m) then (Inl [Msg ''domain is not in the configured domain list''], w)
      else
        withLock domain (\<lambda>(s, n).
          case acquireIssueLease m domain s of
            (None, s1) \<Rightarrow> (Inl [Msg ''issuance lease held by another node''], s1, n)
          | (Some release, s1) \<Rightarrow>
              (case activateLeased m domain force (s1, n) of
                 (r, s2, n2) \<Rightarrow> (r, release s2, n2))) w)"

end
