(* ===== verification/SchedulerSafety.thy ===== *)
theory SchedulerSafety
  imports Scheduler
begin

text \<open>
  What the maintenance pass and the ceremony guarantee. The locale \<open>managed_node\<close> is the interface
  between a manager and the object store: its parts all talk to one backend, under one prefix,
  and the store is atomic between calls. It is interpreted on every manager \<open>buildManager\<close> makes
  over the filesystem backend.
\<close>

section \<open>A manager on one store\<close>

text \<open>The objects of a name are under keys the backend files.\<close>

definition nameFiled :: "(string \<Rightarrow> bool) \<Rightarrow> 's Manager \<Rightarrow> string \<Rightarrow> bool" where
  "nameFiled valid m d =
     (valid (chainKey (mgCache m) d) \<and> valid (certKeyName (mgKeyStore m) d) \<and>
      valid (nextCertKeyName (mgKeyStore m) d) \<and>
      (\<forall>l. mgLeaser m = Some l \<longrightarrow> valid (leaseKey l (CertDomain d))))"

lemma chainKey_neq_leaseKey:
  "ilPrefix l = ccPrefix c \<Longrightarrow> chainKey c d \<noteq> leaseKey l d'"
  by (simp add: chainKey_def leaseKey_def Chain_def ChainDir_def)

context atomic_store
begin

lemma leaseRead_only: "valid key \<Longrightarrow> leaseRead B key s = (r, s') \<Longrightarrow> view s' = view s"
  using leaseRead_effect by blast

lemma releaser_elsewhere:
  assumes "valid key" and "k \<noteq> key"
  shows "view (releaser B nodeID key s) k = view s k"
proof -
  obtain r s1 where r: "leaseRead B key s = (r, s1)" by fastforce
  from leaseRead_only [OF assms(1) r] remove_elsewhere [OF assms(1) surjective_pairing assms(2), of s1] r
  show ?thesis by (auto simp: releaser_def split: sum.splits)
qed

text \<open>Taking and releasing a lease touches the lease object only.\<close>

lemma acquire_elsewhere:
  assumes "valid (leaseKey l d)" and "ilBackend l = None \<or> ilBackend l = Some B"
    and "acquire H l d s = (rel, s')" and "k \<noteq> leaseKey l d"
  shows "view s' k = view s k \<and> (\<forall>release s2. rel = Some release \<longrightarrow> view (release s2) k = view s2 k)"
proof (cases "ilBackend l")
  case None
  with assms(3) show ?thesis by (auto simp: acquire_def)
next
  case (Some B')
  with assms(2) have B': "B' = B" by simp
  let ?k = "leaseKey l d" and ?d = "marshalLease (newLease H l s)"
  obtain b1 s1 where c1: "leaseTryCreate B ?k ?d s = (b1, s1)" by fastforce
  have v1: "view s1 k = view s k"
    using c1 put_elsewhere [OF assms(1) surjective_pairing assms(4)]
    by (auto simp: leaseTryCreate_def split: prod.splits sum.splits) (metis snd_conv)+
  obtain st s2 where c2: "StatObject B ?k s1 = (st, s2)" by fastforce
  note v2 = stat_effect [OF assms(1) c2]
  obtain rd s3 where c3: "leaseRead B ?k s2 = (rd, s3)" by fastforce
  note v3 = leaseRead_only [OF assms(1) c3]
  have v4: "view s4 k = view s3 k" if "leaseTakeOver B ?k ?d e s3 = (b, s4)" for b e s4
    using that put_elsewhere [OF assms(1) surjective_pairing assms(4)]
    by (auto simp: leaseTakeOver_def split: prod.splits sum.splits) (metis snd_conv)+
  have "rel = None \<or> rel = Some (releaser B (ilNodeID l) ?k)"
    using assms(3) Some B' c1 c2 c3
    by (auto simp: acquire_def Let_def split: bool.splits sum.splits if_splits prod.splits)
  moreover have "view s' k = view s k"
    using assms(3) Some B' c1 c2 c3 v1 v2 v3 v4
    by (auto simp: acquire_def Let_def split: bool.splits sum.splits if_splits prod.splits)
  ultimately show ?thesis using releaser_elsewhere [OF assms(1,4)] by auto
qed

end

locale managed_node = atomic_store B view env valid
  for B :: "'s backend" and view :: "'s \<Rightarrow> objects" and env :: "'s \<Rightarrow> 's \<Rightarrow> bool" and valid :: "string \<Rightarrow> bool" +
  fixes m :: "'s Manager"
  assumes cache_backend: "ccBackend (mgCache m) = B"
    and keys_backend: "ksBackend (mgKeyStore m) = B"
    and key_for: "ccKeyFor (mgCache m) = LoadCertKey (mgKeyStore m)"
    and one_prefix: "ksPrefix (mgKeyStore m) = ccPrefix (mgCache m)"
    and leaser_backend: "mgLeaser m = Some l \<Longrightarrow>
      ilPrefix l = ccPrefix (mgCache m) \<and> (ilBackend l = None \<or> ilBackend l = Some B)"
    and foreign_error: "GetObject B k s = (Inl e, s') \<Longrightarrow> \<not> errIs e ErrStoredChainUnparseable"
begin

lemma lease_elsewhere:
  assumes "nameFiled valid m d" and "acquireIssueLease m d s = (rel, s')"
  shows "view s' (chainKey (mgCache m) d') = view s (chainKey (mgCache m) d') \<and>
    (\<forall>release s2. rel = Some release \<longrightarrow> view (release s2) (chainKey (mgCache m) d') = view s2 (chainKey (mgCache m) d'))"
proof (cases "mgLeaser m")
  case None
  with assms(2) show ?thesis by (auto simp: acquireIssueLease_def)
next
  case (Some l)
  with assms leaser_backend [OF Some] show ?thesis
    using acquire_elsewhere [of l "CertDomain d" "mgHost m" s rel s' "chainKey (mgCache m) d'"]
      chainKey_neq_leaseKey [of l "mgCache m" d' "CertDomain d"]
    by (simp add: acquireIssueLease_def nameFiled_def)
qed

lemma loadChain_view:
  assumes "nameFiled valid m d" and "loadChain (mgCache m) d s = (r, s')"
  shows "view s' = view s \<and>
    (case r of
       Inr chain \<Rightarrow> (\<exists>e. view s (chainKey (mgCache m) d) = Some (chain, e))
     | Inl err \<Rightarrow> isNotExist err \<longrightarrow> view s (chainKey (mgCache m) d) = None)"
proof -
  obtain g s1 where g: "GetObject B (chainKey (mgCache m) d) s = (g, s1)" by fastforce
  with assms get_effect [of "chainKey (mgCache m) d" s g s1] cache_backend show ?thesis
    by (auto simp: loadChain_def nameFiled_def getEffect_def split: sum.splits)
qed

lemma refresh_view:
  assumes "nameFiled valid m d" and "ccRefresh (mgCache m) d (s, n) = (r, s', n')"
  shows "view s' = view s \<and>
    (\<forall>cert. r = Inr cert \<longrightarrow> (\<exists>chain e. view s (chainKey (mgCache m) d) = Some (chain, e) \<and>
       Certificate cert = certBlocks (pemBlocks chain) \<and> certOK cert \<and> ccGet d n' = Some cert))"
proof -
  obtain rl s1 where l: "loadChain (mgCache m) d s = (rl, s1)" by fastforce
  note v1 = loadChain_view [OF assms(1) l]
  obtain rk s2 where k: "ksLoad (mgKeyStore m) (certKeyName (mgKeyStore m) d) s1 = (rk, s2)" by fastforce
  have v2: "view s2 = view s1"
    using ksLoad_view [OF keys_backend _ k] assms(1) by (simp add: nameFiled_def)
  have "s' = s1 \<or> s' = s2"
    using assms(2) l k key_for by (auto simp: ccRefresh_def LoadCertKey_def split: sum.splits)
  with v1 v2 have "view s' = view s" by auto
  moreover have "\<exists>chain e. view s (chainKey (mgCache m) d) = Some (chain, e) \<and>
       Certificate cert = certBlocks (pemBlocks chain) \<and> certOK cert \<and> ccGet d n' = Some cert" if "r = Inr cert" for cert
    using assms(2)
  proof (cases rule: ccRefresh_cases)
    case (ok cert' chain key s1')
    with v1 l that show ?thesis by (auto simp: ccGet_def)
  qed (use that in simp)
  ultimately show ?thesis by blast
qed

lemma persist_once_view:
  assumes "nameFiled valid m d" and "persist (mgCache m) d chain 1 s = (r, s')"
  shows "case r of
      Inr _ \<Rightarrow> (\<exists>e. view s' (chainKey (mgCache m) d) = Some (chain, e))
    | Inl _ \<Rightarrow> view s' (chainKey (mgCache m) d) = view s (chainKey (mgCache m) d) \<or>
        (\<exists>e. view s' (chainKey (mgCache m) d) = Some (chain, e))"
proof -
  obtain p s1 where p: "PutObject B (chainKey (mgCache m) d) chain (plainPut ''application/x-pem-file'') s = (p, s1)"
    by fastforce
  have "s' = s1" "isOk r = isOk p"
    using assms(2) p cache_backend
    by (auto simp: persist_def persistLoop.simps split: prod.splits sum.splits)
  with put_effect [OF _ p] assms(1) show ?thesis
    by (cases r; cases p) (auto simp: nameFiled_def putEffect_def)
qed

text \<open>What the flush of one chain does to the stored object, and to what is held.\<close>

lemma flushLeased_effect:
  assumes nf: "nameFiled valid m d" and run: "flushLeased m d p (s, n) = (wrote, s', n')"
  shows "let key = chainKey (mgCache m) d in
    (view s' key = view s key \<or>
     (\<exists>e. view s' key = Some (chainPEM p, e)) \<and>
       (\<forall>old e. view s key = Some (old, e) \<longrightarrow> (\<forall>t. leafNotAfterPEM old = Inr t \<longrightarrow> t < ppNotAfter p))) \<and>
    (wrote \<longrightarrow> (\<exists>e. view s' key = Some (chainPEM p, e))) \<and>
    (ccPending n' = ccPending n \<or> wrote \<or>
     (\<exists>chain e t cert. view s' key = Some (chain, e) \<and> leafNotAfterPEM chain = Inr t \<and> \<not> t < ppNotAfter p \<and>
        ccGet d n' = Some cert \<and> Certificate cert = certBlocks (pemBlocks chain)))"
proof -
  let ?key = "chainKey (mgCache m) d"
  obtain rl s1 where l: "loadChain (mgCache m) d s = (rl, s1)" by fastforce
  note v1 = loadChain_view [OF nf l]
  have wr: ?thesis if w: "flushWrite m d p (s1, n) = (wrote, s', n')"
    and old: "\<And>old e t. view s ?key = Some (old, e) \<Longrightarrow> leafNotAfterPEM old = Inr t \<Longrightarrow> t < ppNotAfter p"
  proof -
    obtain rp s2 where p: "persist (mgCache m) d (chainPEM p) 1 s1 = (rp, s2)" by fastforce
    note e = persist_once_view [OF nf p]
    show ?thesis
    proof (cases rp)
      case (Inl err)
      with w p have "wrote = False" "s' = s2" "n' = n" by (auto simp: flushWrite_def)
      with Inl e v1 old show ?thesis by (auto simp: Let_def)
    next
      case (Inr u)
      with w p have "wrote" "s' = s2" by (auto simp: flushWrite_def Let_def)
      with Inr e v1 old show ?thesis by (auto simp: Let_def)
    qed
  qed
  show ?thesis
  proof (cases rl)
    case (Inl err)
    show ?thesis
    proof (cases "isNotExist err")
      case True
      with Inl l run v1 have "flushWrite m d p (s1, n) = (wrote, s', n')" "view s ?key = None"
        by (auto simp: flushLeased_def storedNotAfter_def bindIO_def)
      with wr show ?thesis by simp
    next
      case False
      have "\<not> errIs err ErrStoredChainUnparseable"
        using l Inl foreign_error cache_backend
        by (auto simp: loadChain_def readFailure_def split: prod.splits sum.splits if_splits)
      with False Inl l run v1 show ?thesis
        by (auto simp: flushLeased_def storedNotAfter_def bindIO_def Let_def)
    qed
  next
    case (Inr chain)
    then obtain e0 where c: "view s ?key = Some (chain, e0)" "view s1 = view s" using v1 by auto
    show ?thesis
    proof (cases "leafNotAfterPEM chain")
      case (Inl e)
      with Inr l run have "flushWrite m d p (s1, n) = (wrote, s', n')"
        by (auto simp: flushLeased_def storedNotAfter_def bindIO_def)
      then show ?thesis by (rule wr) (use c Inl in auto)
    next
      case t: (Inr t)
      show ?thesis
      proof (cases "t < ppNotAfter p")
        case True
        with t Inr l run have "flushWrite m d p (s1, n) = (wrote, s', n')"
          by (auto simp: flushLeased_def storedNotAfter_def bindIO_def)
        then show ?thesis by (rule wr) (use c t True in auto)
      next
        case False
        obtain rr s2 n2 where r: "ccRefresh (mgCache m) d (s1, n) = (rr, s2, n2)" by (metis prod.collapse)
        note v2 = refresh_view [OF nf r]
        show ?thesis
        proof (cases rr)
          case (Inl e)
          with r have "n2 = n" by (auto elim!: ccRefresh_cases)
          with Inl False t Inr l run r v2 c show ?thesis
            by (auto simp: flushLeased_def storedNotAfter_def bindIO_def Let_def)
        next
          case ok: (Inr cert)
          with False t Inr l run r have "wrote = False" "s' = s2" "n' = dropPending d n2"
            by (auto simp: flushLeased_def storedNotAfter_def bindIO_def)
          with ok v2 c t False show ?thesis by (auto simp: Let_def ccGet_def)
        qed
      qed
    qed
  qed
qed

lemma flushOne_effect:
  assumes nf: "nameFiled valid m d" and run: "flushOne m d p (s, n) = (wrote, s', n')"
  shows "let key = chainKey (mgCache m) d in
    (view s' key = view s key \<or>
     (\<exists>e. view s' key = Some (chainPEM p, e)) \<and>
       (\<forall>old e. view s key = Some (old, e) \<longrightarrow> (\<forall>t. leafNotAfterPEM old = Inr t \<longrightarrow> t < ppNotAfter p))) \<and>
    (wrote \<longrightarrow> (\<exists>e. view s' key = Some (chainPEM p, e))) \<and>
    (ccPending n' = ccPending n \<or> wrote \<or>
     (\<exists>chain e t cert. view s' key = Some (chain, e) \<and> leafNotAfterPEM chain = Inr t \<and> \<not> t < ppNotAfter p \<and>
        ccGet d n' = Some cert \<and> Certificate cert = certBlocks (pemBlocks chain)))"
proof (cases "tryLock d n")
  case None
  with run show ?thesis by (auto simp: flushOne_def Let_def)
next
  case (Some n1)
  then have n1: "ccPending n1 = ccPending n" by (auto simp: tryLock_def split: if_splits)
  obtain rel s1 where a: "acquireIssueLease m d s = (rel, s1)" by fastforce
  note v = lease_elsewhere [OF nf a, of d]
  show ?thesis
  proof (cases rel)
    case None
    with Some a run v n1 show ?thesis by (auto simp: flushOne_def Let_def unlock_def)
  next
    case r: (Some release)
    obtain b s2 n2 where f: "flushLeased m d p (s1, n1) = (b, s2, n2)" by (metis prod.collapse)
    with Some a r run have e: "wrote = b" "s' = release s2" "n' = unlock d n2" by (auto simp: flushOne_def)
    have "ccPending n' = ccPending n2" "ccGet d n' = ccGet d n2" by (simp_all add: e unlock_def ccGet_def)
    with flushLeased_effect [OF nf f] v e r n1 show ?thesis by (simp add: Let_def)
  qed
qed

lemma promote_elsewhere:
  assumes nf: "nameFiled valid m d" and run: "PromoteNextCertKey (mgKeyStore m) d s = (r, s')"
    and k: "k \<noteq> certKeyName (mgKeyStore m) d" "k \<noteq> nextCertKeyName (mgKeyStore m) d"
  shows "view s' k = view s k"
proof (cases "canCreate (mgKeyStore m) s")
  case False
  with run show ?thesis by (simp add: PromoteNextCertKey_def)
next
  case True
  have vs: "valid (certKeyName (mgKeyStore m) d)" "valid (nextCertKeyName (mgKeyStore m) d)"
    using nf by (simp_all add: nameFiled_def)
  obtain rl s1 where l: "ksLoad (mgKeyStore m) (nextCertKeyName (mgKeyStore m) d) s = (rl, s1)" by fastforce
  note v1 = ksLoad_view [OF keys_backend vs(2) l]
  have v2: "view s2 k = view s1 k" if "ksPut (mgKeyStore m) (certKeyName (mgKeyStore m) d) b False s1 = (rp, s2)" for b rp s2
    using that put_elsewhere [OF vs(1) _ k(1)] keys_backend by (simp add: ksPut_def)
  have v3: "view (snd (RemoveObject B (nextCertKeyName (mgKeyStore m) d) s2)) k = view s2 k" for s2
    using remove_elsewhere [OF vs(2) surjective_pairing k(2)] .
  show ?thesis
  proof (cases rl)
    case (Inl e)
    with run l True v1 show ?thesis by (auto simp: PromoteNextCertKey_def)
  next
    case (Inr nk)
    obtain rp s2 where p: "ksPut (mgKeyStore m) (certKeyName (mgKeyStore m) d) (marshalKeyPEM nk) False s1 = (rp, s2)"
      by fastforce
    with v2 have "view s2 k = view s1 k" by blast
    with run l True Inr v1 v3 [of s2] p keys_backend show ?thesis
      by (auto simp: PromoteNextCertKey_def split: sum.splits)
  qed
qed

end

context atomic_store
begin

lemma markRetiring_elsewhere:
  assumes "ksBackend (dcKeyStore d) = B" and "dcBackend d = Some B"
    and "valid (certKeyName (dcKeyStore d) h)" and "valid (RetiringObjectName (dcPrefix d) h)"
    and "markRetiring d h s = (r, s')" and "k \<noteq> RetiringObjectName (dcPrefix d) h"
  shows "view s' k = view s k"
proof -
  obtain r1 s1 where l: "LoadCertKey (dcKeyStore d) h s = (r1, s1)" by fastforce
  note v1 = ksLoad_view [OF assms(1,3) l [unfolded LoadCertKey_def]]
  obtain r2 s2 where g: "retiringRead d h s1 = (r2, s2)" by fastforce
  note v2 = retiringRead_view [OF assms(2,4) g]
  have "view s3 k = view s2 k" if "writeRetiring d B h recs s2 = (rw, s3)" for recs rw s3
    using that put_elsewhere [OF assms(4) _ assms(6)] remove_elsewhere [OF assms(4) _ assms(6)]
    by (auto simp: writeRetiring_def Let_def split: if_splits)
  with v1 v2 l g assms(2,5) show ?thesis
    by (auto simp: markRetiring_def Let_def split: sum.splits prod.splits if_splits)
qed

end

lemma marker_key_distinct:
  "dcPrefix d = ksPrefix k \<Longrightarrow> RetiringObjectName (dcPrefix d) h \<noteq> certKeyName k h' \<and>
     RetiringObjectName (dcPrefix d) h \<noteq> nextCertKeyName k h'"
  by (simp add: RetiringObjectName_def certKeyName_def nextCertKeyName_def NextKey_def Key_def KeyDir_def)

context managed_node
begin

lemma promotion_marks:
  assumes nf: "nameFiled valid m h" and dn: "mgDane m = Some d" "isMX d h"
    and ks: "dcKeyStore d = mgKeyStore m" "dcBackend d = Some B" "dcPrefix d = ksPrefix (mgKeyStore m)"
    and v: "valid (RetiringObjectName (dcPrefix d) h)"
    and clock: "monoClock (dcHost d) B" and sha: "\<forall>x. Sha256Hex (dcHost d) x \<noteq> []"
    and yr: "int64_ok (Unix (now (dcHost d) s + dcSoak d))"
      "int64_ok (Unix (now (dcHost d) (snd (markOutgoing m h s)) + dcSoak d))"
    and run: "activationPromote m h s = (r, s') \<or> promoteMarked m h s = (r, s')"
    and ch: "view s' (certKeyName (mgKeyStore m) h) \<noteq> view s (certKeyName (mgKeyStore m) h)"
  shows "\<exists>key pem e dg rec. view s (certKeyName (mgKeyStore m) h) = Some (pem, e) \<and> parseKeyPEM pem = Inr key \<and>
     SPKISHA256 (dcHost d) (Public key) = Inr dg \<and>
     rec \<in> set (markersOf (view s') (RetiringObjectName (dcPrefix d) h)) \<and> Digest rec = dg"
proof -
  let ?rk = "RetiringObjectName (dcPrefix d) h" and ?k = "certKeyName (mgKeyStore m) h"
  note ne = marker_key_distinct [OF ks(3), of h h]
  have vk: "valid (certKeyName (dcKeyStore d) h)" "ksBackend (dcKeyStore d) = B"
    using nf ks(1) keys_backend by (auto simp: nameFiled_def)
  obtain rm s1 where mk: "markRetiring d h s = (rm, s1)" by fastforce
  then have mo: "markOutgoing m h s = (rm, s1)" using dn by (simp add: markOutgoing_def)
  have same: "view s1 ?k = view s ?k"
    using markRetiring_elsewhere [OF vk(2) ks(2) vk(1) v mk] ne by metis
  note E = markRetiring_effect [OF vk(2) ks(2) vk(1) v clock sha yr(1) _ mk]
  have "isOk rm \<and> (s' = s1 \<or> PromoteNextCertKey (mgKeyStore m) h s1 = (r, s'))"
    using run ch same mo
    by (auto simp: activationPromote_def promoteMarked_def bindIO_def split: sum.splits if_splits)
  with same ch obtain "isOk rm" and pr: "PromoteNextCertKey (mgKeyStore m) h s1 = (r, s')" by auto
  moreover have "view s' ?rk = view s1 ?rk" using promote_elsewhere [OF nf pr] ne by simp
  then have "markersOf (view s') ?rk = markersOf (view s1) ?rk" by (simp add: markersOf_def)
  ultimately show ?thesis using E yr(2) mo ks(1) by auto
qed

end

lemma managed_withIssuer:
  "managed_node B view env valid m \<Longrightarrow> managed_node B view env valid (m\<lparr>mgNewIssuer := f\<rparr>)"
  by (simp add: managed_node_def managed_node_axioms_def)

lemma fsGet_foreign: "GetObject (fsBackend c) k s = (Inl e, s') \<Longrightarrow> \<not> errIs e ErrStoredChainUnparseable"
  by (auto simp: fsBackend_def fsGetObject_def sysErr_def split: option.splits prod.splits sum.splits lookup.splits if_splits bool.splits)

interpretation fsm: managed_node "fsBackend c" "fsView c" "fsSame c" "fsValid c"
  "buildManager ev cfg (fsBackend c) pre le leased" for c ev cfg pre le leased
  by unfold_locales
    (auto simp: buildManager_def Let_def newCertCache_def NewKeyStore_def dest: fsGet_foreign)

section \<open>Properties\<close>

definition laterLeaf :: x509 where
  "laterLeaf = sampleLeaf\<lparr>NotAfter := 200, Serial := 2\<rparr>"

definition chainFor :: "x509 \<Rightarrow> blob" where
  "chainFor leaf = Pem (encodeChainPEM [CertDER leaf])"

definition heldOf :: "x509 \<Rightarrow> pendingPersist" where
  "heldOf leaf = \<lparr>chainPEM = chainFor leaf, ppNotAfter = NotAfter leaf\<rparr>"

definition certFor :: "x509 \<Rightarrow> certificate" where
  "certFor leaf = \<lparr>Certificate = [CertDER leaf], PrivateKey = SignerKey (sampleKey ''x''), Leaf = Some leaf\<rparr>"

definition chainedDisk :: "x509 \<Rightarrow> fs" where
  "chainedDisk leaf = sampleDisk [(''keys/a'', marshalKeyPEM (sampleKey ''x'')), (''certs/a'', chainFor leaf)]"

lemma sample_managed: "managed_node (fsBackend sampleConfig) (fsView sampleConfig) (fsSame sampleConfig)
    (fsValid sampleConfig) (sampleManager f)"
  unfolding sampleManager_def by (rule managed_withIssuer) (rule fsm.managed_node_axioms)

lemma sample_filed: "nameFiled (fsValid sampleConfig) (sampleManager grants) ''a''"
proof -
  have "mgLeaser (sampleManager grants) = Some \<lparr>ilBackend = Some (fsBackend sampleConfig), ilPrefix = [],
      ilNodeID = ''n1'', ilTTL = issueLeaseTTL\<rparr>"
    by (simp add: sampleManager_def buildManager_def Let_def sampleEnv_def)
  moreover have "fsValid sampleConfig (leaseKey \<lparr>ilBackend = Some (fsBackend sampleConfig), ilPrefix = [],
      ilNodeID = ''n1'', ilTTL = issueLeaseTTL\<rparr> (CertDomain ''a''))" by code_simp
  moreover have "fsValid sampleConfig (chainKey (mgCache (sampleManager grants)) ''a'')" by code_simp
  moreover have "fsValid sampleConfig (certKeyName (mgKeyStore (sampleManager grants)) ''a'')" by code_simp
  moreover have "fsValid sampleConfig (nextCertKeyName (mgKeyStore (sampleManager grants)) ''a'')" by code_simp
  ultimately show ?thesis by (simp add: nameFiled_def)
qed

lemma sample_chain_key: "chainKey (mgCache (sampleManager grants)) ''a'' = ''certs/a''"
  by code_simp

text \<open>
  C9: the flush never overwrites a newer chain. Whatever chain a node holds in memory, an earlier
  order's or one it wants to put back, writing it leaves a stored chain alone that expires no
  earlier, lease and all.
\<close>

theorem flush_never_overwrites_newer:
  assumes "managed_node B view env valid m" and "nameFiled valid m d"
    and "flushOne m d p (s, n) = (wrote, s', n')"
    and "view s (chainKey (mgCache m) d) = Some (old, e)" and "leafNotAfterPEM old = Inr t" and "ppNotAfter p \<le> t"
  shows "view s' (chainKey (mgCache m) d) = Some (old, e)"
  using managed_node.flushOne_effect [OF assms(1-3)] assms(4-6) by (auto simp: Let_def)

theorem flush_never_overwrites_newer_witness:
  "\<exists>e wrote s' n'. flushOne (sampleManager grants) ''a'' (heldOf sampleLeaf) (chainedDisk laterLeaf, sampleNode) = (wrote, s', n') \<and>
     fsView sampleConfig s' ''certs/a'' = Some (chainFor laterLeaf, e)"
proof -
  let ?m = "sampleManager grants"
  obtain wrote s' n' where r: "flushOne ?m ''a'' (heldOf sampleLeaf) (chainedDisk laterLeaf, sampleNode) = (wrote, s', n')"
    by (metis prod.collapse)
  have "map_option fst (fsView sampleConfig (chainedDisk laterLeaf) ''certs/a'') = Some (chainFor laterLeaf)"
    by code_simp
  then obtain e where v: "fsView sampleConfig (chainedDisk laterLeaf) (chainKey (mgCache ?m) ''a'') = Some (chainFor laterLeaf, e)"
    by (auto simp: sample_chain_key)
  have "leafNotAfterPEM (chainFor laterLeaf) = Inr 200" "ppNotAfter (heldOf sampleLeaf) \<le> 200" by code_simp+
  from flush_never_overwrites_newer [OF sample_managed sample_filed r v this] r show ?thesis
    by (auto simp: sample_chain_key)
qed

text \<open>
  C8: a chain that was paid for is not lost by the flush. After writing the chain held for a name,
  either it is still held, or storage has it, or storage has one that expires no earlier and the
  node serves that one.
\<close>

theorem held_chain_survives:
  assumes "managed_node B view env valid m" and "nameFiled valid m d"
    and "map_of (ccPending n) (ToLower d) = Some p" and "flushOne m d p (s, n) = (wrote, s', n')"
  shows "map_of (ccPending n') (ToLower d) = Some p \<or>
    (\<exists>chain e. view s' (chainKey (mgCache m) d) = Some (chain, e) \<and>
       (chain = chainPEM p \<or>
        (\<exists>t cert. leafNotAfterPEM chain = Inr t \<and> ppNotAfter p \<le> t \<and> ccGet d n' = Some cert \<and>
           Certificate cert = certBlocks (pemBlocks chain))))"
  using managed_node.flushOne_effect [OF assms(1,2,4)] assms(3) by (fastforce simp: Let_def not_less)

theorem held_chain_survives_witness:
  "\<exists>wrote s' n' chain e.
     flushOne (sampleManager grants) ''a'' (heldOf laterLeaf)
       (chainedDisk sampleLeaf, hold ''a'' (certFor laterLeaf) (chainFor laterLeaf) sampleNode) = (wrote, s', n') \<and>
     wrote \<and> (map_of (ccPending n') ''a'' = Some (heldOf laterLeaf) \<or> fsView sampleConfig s' ''certs/a'' = Some (chain, e))"
proof -
  let ?m = "sampleManager grants" and ?n = "hold ''a'' (certFor laterLeaf) (chainFor laterLeaf) sampleNode"
  have w: "fst (flushOne ?m ''a'' (heldOf laterLeaf) (chainedDisk sampleLeaf, ?n))" by code_simp
  obtain wrote s' n' where r: "flushOne ?m ''a'' (heldOf laterLeaf) (chainedDisk sampleLeaf, ?n) = (wrote, s', n')"
    by (metis prod.collapse)
  have l: "ToLower ''a'' = ''a''" by code_simp
  have p: "map_of (ccPending ?n) (ToLower ''a'') = Some (heldOf laterLeaf)"
    by (simp add: hold_def heldOf_def certFor_def)
  from held_chain_survives [OF sample_managed sample_filed p r] w r show ?thesis
    unfolding sample_chain_key l by (metis fst_conv)
qed

text \<open>
  A snapshot that has gone stale: when a newer chain came to be held for the name after the
  snapshot was taken, a flush of the older one that succeeds stores the older chain and forgets
  the newer, which no longer waits to be written.
\<close>

theorem stale_flush_forgets_newer_chain:
  assumes "managed_node B view env valid m" and "nameFiled valid m d"
    and "map_of (ccPending n) (ToLower d) = Some newer" and "flushOne m d older (s, n) = (True, s', n')"
  shows "\<not> isPending d n' \<and> (\<exists>e. view s' (chainKey (mgCache m) d) = Some (chainPEM older, e))"
proof -
  have "\<not> isPending d n'"
    using assms(4)
    by (auto simp: flushOne_def flushLeased_def flushWrite_def tryLock_def unlock_def isPending_def Let_def
        split: option.splits prod.splits sum.splits if_splits)
  with managed_node.flushOne_effect [OF assms(1,2,4)] show ?thesis by (simp add: Let_def)
qed

lemma stale_flush_example:
  "let m = sampleManager grants;
       n1 = hold ''a'' (certFor sampleLeaf) (chainFor sampleLeaf) sampleNode;
       held = pendingSnapshot n1;
       n2 = hold ''a'' (certFor laterLeaf) (chainFor laterLeaf) n1;
       w = snd (flushAll m held (keyedDisk, n2))
   in pendingDomains (snd w) = [] \<and> leafNotAfter ''a'' (snd w) = Some 200 \<and>
      fst (storedNotAfter (mgCache m) ''a'' (fst w)) = Inr 100"
  by code_simp

text \<open>
  C5: no key is retired without a record. When a promotion replaces the live key of a DANE host,
  in an activation or in the roll-forward of an interrupted one, a retiring marker for the digest
  of the outgoing key is in storage, so the old TLSA record stays among the desired ones.
\<close>

theorem promotion_marks_outgoing:
  assumes "managed_node B view env valid m" and "nameFiled valid m h"
    and "mgDane m = Some d" and "isMX d h" and "dcKeyStore d = mgKeyStore m" and "dcBackend d = Some B"
    and "dcPrefix d = ksPrefix (mgKeyStore m)" and "valid (RetiringObjectName (dcPrefix d) h)"
    and "monoClock (dcHost d) B" and "\<forall>x. Sha256Hex (dcHost d) x \<noteq> []"
    and "int64_ok (Unix (now (dcHost d) s + dcSoak d))"
    and "int64_ok (Unix (now (dcHost d) (snd (markOutgoing m h s)) + dcSoak d))"
    and "activationPromote m h s = (r, s') \<or> promoteMarked m h s = (r, s')"
    and "view s' (certKeyName (mgKeyStore m) h) \<noteq> view s (certKeyName (mgKeyStore m) h)"
  shows "\<exists>key pem e dg rec. view s (certKeyName (mgKeyStore m) h) = Some (pem, e) \<and> parseKeyPEM pem = Inr key \<and>
     SPKISHA256 (dcHost d) (Public key) = Inr dg \<and>
     rec \<in> set (markersOf (view s') (RetiringObjectName (dcPrefix d) h)) \<and> Digest rec = dg"
  using managed_node.promotion_marks [OF assms] .

definition daneManager :: "fs Manager" where
  "daneManager = buildManager sampleEnv sampleCfg (fsBackend sampleConfig) []
     (sampleLE\<lparr>Domains := [''m''], DANE := \<lparr>MXHosts = [''m''], TTLSeconds = 0\<rparr>\<rparr>) True"

definition stagedDisk :: fs where
  "stagedDisk = sampleDisk [(''keys/m'', marshalKeyPEM (sampleKey ''1'')), (''keys/m.next'', marshalKeyPEM (sampleKey ''2''))]"

lemma daneManager_dane:
  "\<exists>d. mgDane daneManager = Some d \<and> dcKeyStore d = mgKeyStore daneManager \<and> dcBackend d = Some (fsBackend sampleConfig) \<and>
     dcPrefix d = ksPrefix (mgKeyStore daneManager) \<and> dcPrefix d = [] \<and> dcHost d = fsHost \<and> dcSoak d = 2 * Hour \<and> dcMxSet d = [normalizeDomain Some ''m'']"
proof -
  have "soakOf (5 * Minute) 3600 = 2 * Hour" by code_simp
  then show ?thesis
    by (simp add: daneManager_def buildManager_def Let_def newManagerDane_def sampleLE_def sampleEnv_def
        newDANEController_def NewKeyStore_def daneTTLOf_def checkIntervalOf_def wrap64_def fsHost_def)
qed

theorem promotion_marks_outgoing_witness:
  "\<exists>s' r. activationPromote daneManager ''m'' stagedDisk = (r, s') \<and>
     (\<exists>rec. rec \<in> set (markersOf (fsView sampleConfig s') ''dane/retiring/m'') \<and> Digest rec = ''h1'')"
proof -
  let ?m = daneManager
  obtain d where d: "mgDane ?m = Some d" "dcKeyStore d = mgKeyStore ?m" "dcBackend d = Some (fsBackend sampleConfig)"
    "dcPrefix d = ksPrefix (mgKeyStore ?m)" "dcPrefix d = []" "dcHost d = fsHost" "dcSoak d = 2 * Hour"
    "dcMxSet d = [normalizeDomain Some ''m'']"
    using daneManager_dane by blast
  have mg: "managed_node (fsBackend sampleConfig) (fsView sampleConfig) (fsSame sampleConfig) (fsValid sampleConfig) ?m"
    unfolding daneManager_def by (rule fsm.managed_node_axioms)
  have nf: "nameFiled (fsValid sampleConfig) ?m ''m''"
  proof -
    have "mgLeaser ?m = Some \<lparr>ilBackend = Some (fsBackend sampleConfig), ilPrefix = [], ilNodeID = ''n1'', ilTTL = issueLeaseTTL\<rparr>"
      by (simp add: daneManager_def buildManager_def Let_def sampleEnv_def)
    moreover have "fsValid sampleConfig (leaseKey \<lparr>ilBackend = Some (fsBackend sampleConfig), ilPrefix = [],
        ilNodeID = ''n1'', ilTTL = issueLeaseTTL\<rparr> (CertDomain ''m''))" by code_simp
    moreover have "fsValid sampleConfig (chainKey (mgCache ?m) ''m'')" "fsValid sampleConfig (certKeyName (mgKeyStore ?m) ''m'')"
      "fsValid sampleConfig (nextCertKeyName (mgKeyStore ?m) ''m'')" by code_simp+
    ultimately show ?thesis by (simp add: nameFiled_def)
  qed
  have mx: "isMX d ''m''" by (simp add: isMX_def d(6,8)) (simp add: fsHost_def)
  have v: "fsValid sampleConfig (RetiringObjectName (dcPrefix d) ''m'')" unfolding d(5) by code_simp
  have mc: "monoClock (dcHost d) (fsBackend sampleConfig)" by (simp add: d(6) fs_monoClock)
  have sha: "\<forall>x. Sha256Hex (dcHost d) x \<noteq> []" by (simp add: d(6) fsHost_def)
  have y1: "int64_ok (Unix (now (dcHost d) stagedDisk + dcSoak d))" unfolding d(6,7) by code_simp
  have y2: "int64_ok (Unix (now (dcHost d) (snd (markOutgoing ?m ''m'' stagedDisk)) + dcSoak d))"
    unfolding d(6,7) by code_simp
  obtain r s' where run: "activationPromote ?m ''m'' stagedDisk = (r, s')" by fastforce
  have "map_option fst (fsView sampleConfig (snd (activationPromote ?m ''m'' stagedDisk)) (certKeyName (mgKeyStore ?m) ''m'')) \<noteq>
    map_option fst (fsView sampleConfig stagedDisk (certKeyName (mgKeyStore ?m) ''m''))" by code_simp
  then have ch: "fsView sampleConfig s' (certKeyName (mgKeyStore ?m) ''m'') \<noteq> fsView sampleConfig stagedDisk (certKeyName (mgKeyStore ?m) ''m'')"
    using run by auto
  have rk: "RetiringObjectName (dcPrefix d) ''m'' = ''dane/retiring/m''" unfolding d(5) by code_simp
  have "map_option fst (fsView sampleConfig stagedDisk (certKeyName (mgKeyStore ?m) ''m'')) = Some (marshalKeyPEM (sampleKey ''1''))"
    by code_simp
  moreover have "SPKISHA256 fsHost (Public (sampleKey ''1'')) = Inr ''h1''" by code_simp
  ultimately show ?thesis
    using promotion_marks_outgoing [OF mg nf d(1) mx d(2,3,4) v mc sha y1 y2 disjI1 [OF run] ch] run d(6)
    unfolding rk by fastforce
qed

end
