(* ===== verification/CertStore.thy ===== *)
theory CertStore
  imports Manager
begin

text \<open>
  Package certstore: the operator's inventory of the certificates in storage (inventory.go) and the
  commands tls list, delete and clean every admin CLI runs on it (command.go). What a command
  prints is a list of events, one per message, with what the message reports; the column layout
  and the wording are left out.
\<close>

section \<open>inventory.go\<close>

datatype Role = RoleConfigured | RoleOnDemand | RoleOrphan

record storedCert =
  scDomain :: string
  scKey :: string
  scRole :: Role
  scAlgorithm :: string
  scNames :: "string list"
  scIssuer :: string
  scNotBefore :: time
  scNotAfter :: time
  scExpired :: bool
  scInvalid :: string
  scHasKey :: bool
  scHasStagedKey :: bool
  scLastModified :: time

definition Unservable :: "storedCert \<Rightarrow> string" where
  "Unservable c =
     (if scInvalid c \<noteq> [] then ''invalid ('' @ scInvalid c @ '')''
      else if scExpired c then ''expired'' else [])"

definition InUse :: "storedCert \<Rightarrow> bool" where
  "InUse c = (Unservable c = [] \<and> scRole c \<noteq> RoleOrphan)"

record 's Inventory =
  ivBackend :: "'s backend"
  ivPrefix :: string
  ivConfigured :: "string list"
  ivRenewBefore :: duration
  ivNow :: "'s \<Rightarrow> time"

definition ivNormalize :: "string \<Rightarrow> string" where
  "ivNormalize domain = TrimSuffix (ToLower (TrimSpace domain)) ''.''"

definition NewInventory :: "'s backend \<Rightarrow> string \<Rightarrow> string list \<Rightarrow> duration \<Rightarrow> ('s \<Rightarrow> time) \<Rightarrow> 's Inventory" where
  "NewInventory B pre domains renewBefore nowF =
     \<lparr>ivBackend = B, ivPrefix = pre,
      ivConfigured = remdups (filter (\<lambda>d. d \<noteq> []) (map ivNormalize domains)),
      ivRenewBefore = (if renewBefore \<le> 0 then DefaultRenewBefore else renewBefore), ivNow = nowF\<rparr>"

definition keyNames :: "'s Inventory \<Rightarrow> ('s, string list) io" where
  "keyNames iv =
     (let dir = ivPrefix iv @ KeyDir in
      (\<lambda>s. case ListObjects (ivBackend iv) dir True s of
             (Inl e, s1) \<Rightarrow> (Inl (Msg ''listing'' # e), s1)
           | (Inr objs, s1) \<Rightarrow> (Inr (map (\<lambda>i. TrimPrefix (oiKey i) dir) objs), s1)))"

text \<open>An allow-set that is absent is empty; one that cannot be read is an error.\<close>

definition ivOnDemand :: "'s Inventory \<Rightarrow> ('s, string list) io" where
  "ivOnDemand iv s =
     (case GetObject (ivBackend iv) (ivPrefix iv @ OnDemandHosts) s of
        (Inl e, s1) \<Rightarrow>
          if isNotExist e then (Inr [], s1) else (Inl (Msg ''reading the on-demand allow-set'' # e), s1)
      | (Inr data, s1) \<Rightarrow>
          (case unmarshalState data of
             Inl e \<Rightarrow> (Inl (Msg ''reading the on-demand allow-set'' # e), s1)
           | Inr hosts \<Rightarrow> (Inr (map ivNormalize hosts), s1)))"

definition algorithmName :: "key_alg \<Rightarrow> string" where
  "algorithmName a =
     (case a of RSA_Alg _ \<Rightarrow> ''RSA'' | Ed25519_Alg \<Rightarrow> ''Ed25519'' | _ \<Rightarrow> ''ECDSA'')"

fun ivParse :: "time \<Rightarrow> pem_block list \<Rightarrow> storedCert \<Rightarrow> storedCert" where
  "ivParse t [] c = c\<lparr>scInvalid := ''no certificate in the PEM''\<rparr>"
| "ivParse t (b # bs) c =
     (if pemType b \<noteq> ''CERTIFICATE'' then ivParse t bs c
      else
        (case ParseCertificate (pemBytes b) of
           Inl e \<Rightarrow> c\<lparr>scInvalid := ''does not parse''\<rparr>
         | Inr leaf \<Rightarrow>
             c\<lparr>scAlgorithm := algorithmName (pk_alg (PublicKey leaf)), scNames := DNSNames leaf,
               scIssuer := IssuerCN leaf, scNotBefore := NotBefore leaf, scNotAfter := NotAfter leaf,
               scExpired := (NotAfter leaf < t)\<rparr>))"

definition roleOf :: "'s Inventory \<Rightarrow> string list \<Rightarrow> string \<Rightarrow> Role" where
  "roleOf iv onDemand domain =
     (if CertDomain domain \<in> set (ivConfigured iv) then RoleConfigured
      else if domain \<in> set onDemand then RoleOnDemand
      else RoleOrphan)"

definition newStored :: "string \<Rightarrow> string \<Rightarrow> time \<Rightarrow> storedCert" where
  "newStored domain key modified =
     \<lparr>scDomain = domain, scKey = key, scRole = RoleOrphan, scAlgorithm = [], scNames = [], scIssuer = [],
      scNotBefore = zeroTime, scNotAfter = zeroTime, scExpired = False, scInvalid = [], scHasKey = False,
      scHasStagedKey = False, scLastModified = modified\<rparr>"

definition ivDescribe ::
  "'s Inventory \<Rightarrow> string list \<Rightarrow> string list \<Rightarrow> storedCert \<Rightarrow> 's \<Rightarrow> storedCert \<times> 's" where
  "ivDescribe iv keys onDemand c s =
     (let c1 = c\<lparr>scRole := roleOf iv onDemand (scDomain c), scHasKey := (scDomain c \<in> set keys),
                 scHasStagedKey := (scDomain c @ NextKeySuffix \<in> set keys)\<rparr>
      in case GetObject (ivBackend iv) (scKey c) s of
           (Inl e, s1) \<Rightarrow> (c1\<lparr>scInvalid := ''unreadable''\<rparr>, s1)
         | (Inr data, s1) \<Rightarrow> (ivParse (ivNow iv s1) (pemBlocks data) c1, s1))"

fun describeAll ::
  "'s Inventory \<Rightarrow> string \<Rightarrow> string list \<Rightarrow> string list \<Rightarrow> ObjectInfo list \<Rightarrow> 's \<Rightarrow> storedCert list \<times> 's" where
  "describeAll iv dir keys onDemand [] s = ([], s)"
| "describeAll iv dir keys onDemand (i # is) s =
     (let domain = TrimPrefix (oiKey i) dir in
      if domain = [] \<or> ContainsByte domain CHR ''/'' then describeAll iv dir keys onDemand is s
      else
        (case ivDescribe iv keys onDemand (newStored domain (oiKey i) (oiLastModified i)) s of
           (c, s1) \<Rightarrow> (case describeAll iv dir keys onDemand is s1 of (cs, s2) \<Rightarrow> (c # cs, s2))))"

definition ivList :: "'s Inventory \<Rightarrow> ('s, storedCert list) io" where
  "ivList iv s =
     (let dir = ivPrefix iv @ ChainDir in
      case ListObjects (ivBackend iv) dir True s of
        (Inl e, s1) \<Rightarrow> (Inl (Msg ''listing'' # e), s1)
      | (Inr objs, s1) \<Rightarrow>
          bindIO (keyNames iv) (\<lambda>keys. bindIO (ivOnDemand iv) (\<lambda>onDemand s2.
            case describeAll iv dir keys onDemand objs s2 of
              (cs, s3) \<Rightarrow> (Inr (sort_key scDomain cs), s3))) s1)"

definition ivGet :: "'s Inventory \<Rightarrow> string \<Rightarrow> ('s, storedCert) io" where
  "ivGet iv domain0 s =
     (let domain = ivNormalize domain0; key = Chain (ivPrefix iv) domain in
      case StatObject (ivBackend iv) key s of
        (Inl e, s1) \<Rightarrow> (Inl (if isNotExist e then [ErrNotStored] else e), s1)
      | (Inr info, s1) \<Rightarrow>
          bindIO (keyNames iv) (\<lambda>keys. bindIO (ivOnDemand iv) (\<lambda>onDemand s2.
            case ivDescribe iv keys onDemand (newStored domain key (oiLastModified info)) s2 of
              (c, s3) \<Rightarrow> (Inr c, s3))) s1)"

text \<open>The certificate beside an error is what \<open>Get\<close> read; the caller of a refusal prints it.\<close>

definition ivDelete :: "'s Inventory \<Rightarrow> string \<Rightarrow> bool \<Rightarrow> 's \<Rightarrow> (error + storedCert) \<times> storedCert option \<times> 's" where
  "ivDelete iv domain force s =
     (case ivGet iv domain s of
        (Inl e, s1) \<Rightarrow> (Inl e, None, s1)
      | (Inr c, s1) \<Rightarrow>
          if InUse c \<and> \<not> force then (Inl [ErrInUse], Some c, s1)
          else
            (case RemoveObject (ivBackend iv) (scKey c) s1 of
               (Inl e, s2) \<Rightarrow> (Inl (Msg ''removing'' # e), Some c, s2)
             | (Inr _, s2) \<Rightarrow> (Inr c, Some c, s2)))"

section \<open>The flag package\<close>

text \<open>
  What command.go uses of package flag: boolean and string flags with one or two dashes, a value
  after "=", "--" as the end of the flags, the aliases that set one variable.
\<close>

datatype flagKind = BoolFlag string | StringFlag string

type_synonym flagSet = "(string \<times> flagKind) list"
type_synonym flagVals = "(string \<times> string) list"

definition ParseBool :: "string \<Rightarrow> bool option" where
  "ParseBool v =
     (if v \<in> {''1'', ''t'', ''T'', ''TRUE'', ''true'', ''True''} then Some True
      else if v \<in> {''0'', ''f'', ''F'', ''FALSE'', ''false'', ''False''} then Some False
      else None)"

text \<open>A name and its value, split at the first "=" after the first character.\<close>

fun splitEq :: "string \<Rightarrow> string \<times> string option" where
  "splitEq [] = ([], None)"
| "splitEq (c # cs) =
     (case dropWhile (\<lambda>x. x \<noteq> CHR ''='') cs of
        [] \<Rightarrow> (c # cs, None)
      | _ # v \<Rightarrow> (c # takeWhile (\<lambda>x. x \<noteq> CHR ''='') cs, Some v))"

datatype flagStep = FlagEnd "string list" | FlagBad | FlagSet flagVals "string list"

definition flagOne :: "flagSet \<Rightarrow> flagVals \<Rightarrow> string list \<Rightarrow> flagStep" where
  "flagOne fs vals args =
     (case args of
        [] \<Rightarrow> FlagEnd []
      | a # rest \<Rightarrow>
          if length a < 2 \<or> hd a \<noteq> CHR ''-'' then FlagEnd args
          else if a = ''--'' then FlagEnd rest
          else
            (let name0 = (if a ! 1 = CHR ''-'' then drop 2 a else drop 1 a) in
             if hd name0 = CHR ''-'' \<or> hd name0 = CHR ''='' then FlagBad
             else
               (case splitEq name0 of
                  (name, value) \<Rightarrow>
                    (case map_of fs name of
                       None \<Rightarrow> FlagBad
                     | Some (BoolFlag v) \<Rightarrow>
                         (case value of
                            None \<Rightarrow> FlagSet (AList.update v ''true'' vals) rest
                          | Some x \<Rightarrow>
                              (case ParseBool x of
                                 None \<Rightarrow> FlagBad
                               | Some b \<Rightarrow> FlagSet (AList.update v (if b then ''true'' else ''false'') vals) rest))
                     | Some (StringFlag v) \<Rightarrow>
                         (case value of
                            Some x \<Rightarrow> FlagSet (AList.update v x vals) rest
                          | None \<Rightarrow>
                              (case rest of
                                 [] \<Rightarrow> FlagBad
                               | x # rest2 \<Rightarrow> FlagSet (AList.update v x vals) rest2))))))"

lemma flagOne_shorter: "flagOne fs vals args = FlagSet vals' rest \<Longrightarrow> length rest < length args"
  by (auto simp: flagOne_def Let_def split: list.splits if_splits prod.splits option.splits flagKind.splits)

lemma flagOne_end: "flagOne fs vals args = FlagEnd rest \<Longrightarrow> length rest \<le> length args"
  by (auto simp: flagOne_def Let_def split: list.splits if_splits prod.splits option.splits flagKind.splits)

function flagParse :: "flagSet \<Rightarrow> flagVals \<Rightarrow> string list \<Rightarrow> (flagVals \<times> string list) option" where
  "flagParse fs vals args =
     (case flagOne fs vals args of
        FlagBad \<Rightarrow> None
      | FlagEnd rest \<Rightarrow> Some (vals, rest)
      | FlagSet vals' rest \<Rightarrow> flagParse fs vals' rest)"
  by pat_completeness auto
termination
  by (relation "measure (\<lambda>(fs, vals, args). length args)") (auto dest: flagOne_shorter)

declare flagParse.simps [simp del]

lemma flagParse_shorter: "flagParse fs vals args = Some (vals', rest) \<Longrightarrow> length rest \<le> length args"
proof (induction fs vals args rule: flagParse.induct)
  case (1 fs vals args)
  show ?case
  proof (cases "flagOne fs vals args")
    case (FlagSet v r)
    with 1 flagOne_shorter [OF FlagSet] show ?thesis by (simp add: flagParse.simps [of fs vals args])
  qed (use 1 flagOne_end [of fs vals args] in \<open>auto simp: flagParse.simps [of fs vals args]\<close>)
qed

text \<open>command.go's \<open>parse\<close>: flags before and after positional arguments.\<close>

function parseArgs :: "flagSet \<Rightarrow> flagVals \<Rightarrow> string list \<Rightarrow> (flagVals \<times> string list) option" where
  "parseArgs fs vals args =
     (case flagParse fs vals args of
        None \<Rightarrow> None
      | Some (vals', []) \<Rightarrow> Some (vals', [])
      | Some (vals', a # rest) \<Rightarrow>
          (case parseArgs fs vals' rest of
             None \<Rightarrow> None
           | Some (vals'', pos) \<Rightarrow> Some (vals'', a # pos)))"
  by pat_completeness auto
termination
  by (relation "measure (\<lambda>(fs, vals, args). length args)") (auto dest: flagParse_shorter)

declare parseArgs.simps [simp del]

definition flagTrue :: "flagVals \<Rightarrow> string \<Rightarrow> bool" where
  "flagTrue vals v = (map_of vals v = Some ''true'')"

definition flagText :: "flagVals \<Rightarrow> string \<Rightarrow> string" where
  "flagText vals v = (case map_of vals v of None \<Rightarrow> [] | Some x \<Rightarrow> x)"

section \<open>closest and distance\<close>

text \<open>The matrix of \<open>distance\<close> is a function of its two indices; the loops fill it in the code's order.\<close>

definition osaCell :: "string \<Rightarrow> string \<Rightarrow> (nat \<Rightarrow> nat \<Rightarrow> nat) \<Rightarrow> nat \<Rightarrow> nat \<Rightarrow> nat" where
  "osaCell a b d i j =
     (let cost = (if a ! (i - 1) = b ! (j - 1) then 0 else 1);
          v = min (min (d (i - 1) j + 1) (d i (j - 1) + 1)) (d (i - 1) (j - 1) + cost)
      in if i > 1 \<and> j > 1 \<and> a ! (i - 1) = b ! (j - 2) \<and> a ! (i - 2) = b ! (j - 1)
         then min v (d (i - 2) (j - 2) + 1) else v)"

definition osaStart :: "nat \<Rightarrow> nat \<Rightarrow> nat" where
  "osaStart i j = (if j = 0 then i else if i = 0 then j else 0)"

definition osaPut :: "string \<Rightarrow> string \<Rightarrow> nat \<Rightarrow> nat \<Rightarrow> (nat \<Rightarrow> nat \<Rightarrow> nat) \<Rightarrow> nat \<Rightarrow> nat \<Rightarrow> nat" where
  "osaPut a b i j d = d(i := (d i)(j := osaCell a b d i j))"

definition osaRow :: "string \<Rightarrow> string \<Rightarrow> nat \<Rightarrow> (nat \<Rightarrow> nat \<Rightarrow> nat) \<Rightarrow> nat \<Rightarrow> nat \<Rightarrow> nat" where
  "osaRow a b i d = fold (osaPut a b i) [1..<Suc (length b)] d"

definition distance :: "string \<Rightarrow> string \<Rightarrow> nat" where
  "distance a b = fold (osaRow a b) [1..<Suc (length a)] osaStart (length a) (length b)"

fun closestFrom :: "string \<Rightarrow> string \<Rightarrow> nat \<Rightarrow> string list \<Rightarrow> string" where
  "closestFrom s best bestDist [] = best"
| "closestFrom s best bestDist (c # cs) =
     (let d = distance s c in if d < bestDist then closestFrom s c d cs else closestFrom s best bestDist cs)"

definition closest :: "string \<Rightarrow> string list \<Rightarrow> string" where
  "closest s candidates = closestFrom s [] (length s div 3 + 1) candidates"

section \<open>The commands\<close>

definition ExitOK :: int where "ExitOK = 0"
definition ExitFailed :: int where "ExitFailed = 1"
definition ExitUsage :: int where "ExitUsage = 2"
definition ExitNotFound :: int where "ExitNotFound = 3"

datatype certStatus = StInvalid | StExpired | StOverdue | StRenewing | StOk

definition certStatusOf :: "time \<Rightarrow> duration \<Rightarrow> storedCert \<Rightarrow> certStatus" where
  "certStatusOf t window c =
     (if scInvalid c \<noteq> [] then StInvalid
      else if scExpired c then StExpired
      else if scNotAfter c - t < window div 2 then StOverdue
      else if scNotAfter c - t < window then StRenewing
      else StOk)"

definition keyState :: "storedCert \<Rightarrow> string" where
  "keyState c =
     (if scHasKey c \<and> scHasStagedKey c then ''yes + .next''
      else if scHasKey c then ''yes''
      else if scHasStagedKey c then ''.next only'' else ''no'')"

datatype outEvent =
    EvUsage
  | EvUsageError "string list"
  | EvUnknownCommand string string       \<comment> \<open>the command and the suggestion\<close>
  | EvError error
  | EvNoStorage
  | EvJson "storedCert list"
  | EvNoMatch
  | EvRow storedCert certStatus
  | EvSummary nat nat nat nat            \<comment> \<open>all, configured, on-demand, orphan\<close>
  | EvUnservable nat
  | EvPastHalfWindow string
  | EvNotStored string string            \<comment> \<open>the name and the suggestion\<close>
  | EvRefuseInUse string
  | EvNeedsYes
  | EvNothingDone
  | EvDeleted string bool                \<comment> \<open>the key and whether it was in use\<close>
  | EvNothingToClean nat
  | EvDoomed string Role string
  | EvDryRun nat
  | EvKept string
  | EvFailed string error
  | EvDeletedOf nat nat
  | EvUnserved string

text \<open>\<open>Confirm\<close> waits for a person, and the world moves on meanwhile.\<close>

record 's Env =
  Open :: "('s, 's Inventory) io option"
  Confirm :: "(string \<Rightarrow> 's \<Rightarrow> bool \<times> 's) option"
  Interactive :: bool

definition Ask :: "string \<Rightarrow> bool" where
  "Ask line = (ToLower (TrimSpace line) \<in> {''y'', ''yes''})"

definition envOpen :: "'s Env \<Rightarrow> 's \<Rightarrow> (outEvent + 's Inventory) \<times> 's" where
  "envOpen env s =
     (case Open env of
        None \<Rightarrow> (Inl EvNoStorage, s)
      | Some f \<Rightarrow> (case f s of (Inl e, s1) \<Rightarrow> (Inl (EvError e), s1) | (Inr iv, s1) \<Rightarrow> (Inr iv, s1)))"

definition envConfirm :: "'s Env \<Rightarrow> string \<Rightarrow> 's \<Rightarrow> bool \<times> 's" where
  "envConfirm env q s = (case Confirm env of None \<Rightarrow> (False, s) | Some f \<Rightarrow> f q s)"

type_synonym 's command = "'s \<Rightarrow> int \<times> outEvent list \<times> 's"

definition usageErr :: "string list \<Rightarrow> 's command" where
  "usageErr what s = (ExitUsage, [EvUsageError what], s)"

definition roleName :: "string \<Rightarrow> Role option" where
  "roleName r =
     (if r = ''configured'' then Some RoleConfigured
      else if r = ''on-demand'' then Some RoleOnDemand
      else if r = ''orphan'' then Some RoleOrphan else None)"

definition listFlags :: flagSet where
  "listFlags = [(''role'', StringFlag ''role''), (''json'', BoolFlag ''json'')]"

definition listEvents :: "'s Inventory \<Rightarrow> time \<Rightarrow> storedCert list \<Rightarrow> outEvent list" where
  "listEvents iv t cs =
     (let window = ivRenewBefore iv; num = (\<lambda>r. length (filter (\<lambda>c. scRole c = r) cs));
          unservable = length (filter (\<lambda>c. Unservable c \<noteq> []) cs)
      in map (\<lambda>c. EvRow c (certStatusOf t window c)) cs @
         [EvSummary (length cs) (num RoleConfigured) (num RoleOnDemand) (num RoleOrphan)] @
         (if unservable > 0 then [EvUnservable unservable] else []) @
         map (\<lambda>c. EvPastHalfWindow (scDomain c))
           (filter (\<lambda>c. InUse c \<and> scNotAfter c - t < window div 2) cs))"

definition runList :: "'s Env \<Rightarrow> string list \<Rightarrow> 's command" where
  "runList env args s =
     (case parseArgs listFlags [] args of
        None \<Rightarrow> usageErr [''tls list''] s
      | Some (vals, a # _) \<Rightarrow> usageErr [''tls list takes no arguments'', a] s
      | Some (vals, []) \<Rightarrow>
          (let role = flagText vals ''role'' in
           if role \<noteq> [] \<and> roleName role = None then usageErr [''unknown --role'', role] s
           else
             (case envOpen env s of
                (Inl ev, s1) \<Rightarrow> (ExitFailed, [ev], s1)
              | (Inr iv, s1) \<Rightarrow>
                  (case ivList iv s1 of
                     (Inl e, s2) \<Rightarrow> (ExitFailed, [EvError e], s2)
                   | (Inr all, s2) \<Rightarrow>
                       (let cs = filter (\<lambda>c. role = [] \<or> Some (scRole c) = roleName role) all in
                        if flagTrue vals ''json'' then (ExitOK, [EvJson cs], s2)
                        else if cs = [] then (ExitOK, [EvNoMatch], s2)
                        else (ExitOK, listEvents iv (ivNow iv s2) cs, s2))))))"

definition deleteFlags :: flagSet where
  "deleteFlags = [(''yes'', BoolFlag ''yes''), (''y'', BoolFlag ''yes''), (''force'', BoolFlag ''force'')]"

text \<open>The confirmation delete and clean ask for: the exit status and message of a refusal, or go on.\<close>

definition askFirst :: "'s Env \<Rightarrow> bool \<Rightarrow> string \<Rightarrow> 's \<Rightarrow> (int \<times> outEvent) option \<times> 's" where
  "askFirst env yes q s =
     (if yes then (None, s)
      else if \<not> Interactive env then (Some (ExitUsage, EvNeedsYes), s)
      else (case envConfirm env q s of
              (True, s1) \<Rightarrow> (None, s1)
            | (False, s1) \<Rightarrow> (Some (ExitOK, EvNothingDone), s1)))"

definition deleteConfirmed :: "'s Inventory \<Rightarrow> storedCert \<Rightarrow> bool \<Rightarrow> 's command" where
  "deleteConfirmed iv c force s =
     (case ivDelete iv (scDomain c) force s of
        (Inr removed, _, s1) \<Rightarrow> (ExitOK, [EvDeleted (scKey removed) (InUse removed)], s1)
      | (Inl e, seen, s1) \<Rightarrow>
          if errIs e ErrInUse
          then (ExitFailed, [EvRefuseInUse (case seen of None \<Rightarrow> [] | Some c2 \<Rightarrow> scDomain c2)], s1)
          else (ExitFailed, [EvError e], s1))"

definition runDelete :: "'s Env \<Rightarrow> string list \<Rightarrow> 's command" where
  "runDelete env args s =
     (case parseArgs deleteFlags [] args of
        None \<Rightarrow> usageErr [''tls delete''] s
      | Some (vals, pos) \<Rightarrow>
          (case pos of
             [domain] \<Rightarrow>
               (case envOpen env s of
                  (Inl ev, s1) \<Rightarrow> (ExitFailed, [ev], s1)
                | (Inr iv, s1) \<Rightarrow>
                    (case ivGet iv domain s1 of
                       (Inl e, s2) \<Rightarrow>
                         if errIs e ErrNotStored then
                           (case ivList iv s2 of
                              (r, s3) \<Rightarrow>
                                (ExitNotFound,
                                 [EvNotStored (ivNormalize domain)
                                    (closest (ivNormalize domain)
                                       (case r of Inl _ \<Rightarrow> [] | Inr all \<Rightarrow> map scDomain all))], s3))
                         else (ExitFailed, [EvError e], s2)
                     | (Inr c, s2) \<Rightarrow>
                         (let row = EvRow c (certStatusOf (ivNow iv s2) (ivRenewBefore iv) c) in
                          if InUse c \<and> \<not> flagTrue vals ''force'' then (ExitFailed, [row, EvRefuseInUse (scDomain c)], s2)
                          else
                            (case askFirst env (flagTrue vals ''yes'') (scDomain c) s2 of
                               (Some (code, ev), s3) \<Rightarrow> (code, [row, ev], s3)
                             | (None, s3) \<Rightarrow>
                                 (case deleteConfirmed iv c (flagTrue vals ''force'') s3 of
                                    (code, evs, s4) \<Rightarrow> (code, row # evs, s4))))))
           | _ \<Rightarrow> usageErr [''tls delete needs exactly one domain''] s))"

definition cleanFlags :: flagSet where
  "cleanFlags = [(''yes'', BoolFlag ''yes''), (''y'', BoolFlag ''yes''),
     (''dry-run'', BoolFlag ''dry''), (''n'', BoolFlag ''dry'')]"

text \<open>The loop over the doomed: deleted, failed, the configured names left unserved, messages.\<close>

fun cleanAll ::
  "'s Inventory \<Rightarrow> storedCert list \<Rightarrow> 's \<Rightarrow> (nat \<times> nat \<times> string list \<times> outEvent list) \<times> 's" where
  "cleanAll iv [] s = ((0, 0, [], []), s)"
| "cleanAll iv (c # cs) s =
     (case ivDelete iv (scDomain c) False s of
        (r, _, s1) \<Rightarrow>
          (case cleanAll iv cs s1 of
             ((deleted, failed, unserved, evs), s2) \<Rightarrow>
               ((case r of
                   Inr removed \<Rightarrow>
                     (Suc deleted, failed,
                      (if scRole removed = RoleConfigured then [scDomain removed] else []) @ unserved, evs)
                 | Inl e \<Rightarrow>
                     if errIs e ErrInUse then (deleted, failed, unserved, EvKept (scDomain c) # evs)
                     else if errIs e ErrNotStored then (deleted, failed, unserved, evs)
                     else (deleted, Suc failed, unserved, EvFailed (scDomain c) e # evs)), s2)))"

definition runClean :: "'s Env \<Rightarrow> string list \<Rightarrow> 's command" where
  "runClean env args s =
     (case parseArgs cleanFlags [] args of
        None \<Rightarrow> usageErr [''tls clean''] s
      | Some (vals, a # _) \<Rightarrow> usageErr [''tls clean takes no arguments'', a] s
      | Some (vals, []) \<Rightarrow>
          (case envOpen env s of
             (Inl ev, s1) \<Rightarrow> (ExitFailed, [ev], s1)
           | (Inr iv, s1) \<Rightarrow>
               (case ivList iv s1 of
                  (Inl e, s2) \<Rightarrow> (ExitFailed, [EvError e], s2)
                | (Inr all, s2) \<Rightarrow>
                    (let doomed = filter (\<lambda>c. Unservable c \<noteq> []) all;
                         rows = map (\<lambda>c. EvDoomed (scDomain c) (scRole c) (Unservable c)) doomed
                     in if doomed = [] then (ExitOK, [EvNothingToClean (length all)], s2)
                        else if flagTrue vals ''dry'' then (ExitOK, rows @ [EvDryRun (length doomed)], s2)
                        else
                          (case askFirst env (flagTrue vals ''yes'') (Itoa (length doomed)) s2 of
                             (Some (code, ev), s3) \<Rightarrow> (code, rows @ [ev], s3)
                           | (None, s3) \<Rightarrow>
                               (case cleanAll iv doomed s3 of
                                  ((deleted, failed, unserved, evs), s4) \<Rightarrow>
                                    (if failed > 0 then ExitFailed else ExitOK,
                                     rows @ evs @ [EvDeletedOf deleted (length doomed)] @ map EvUnserved unserved, s4)))))))"

definition Run :: "'s Env \<Rightarrow> string list \<Rightarrow> 's command" where
  "Run env args s =
     (case args of
        [] \<Rightarrow> (ExitUsage, [EvUsage], s)
      | sub # rest \<Rightarrow>
          if sub \<in> {''list'', ''ls''} then runList env rest s
          else if sub \<in> {''delete'', ''del'', ''rm''} then runDelete env rest s
          else if sub = ''clean'' then runClean env rest s
          else if sub \<in> {''help'', ''-h'', ''--help''} then (ExitOK, [EvUsage], s)
          else (ExitUsage, [EvUnknownCommand sub (closest sub [''list'', ''delete'', ''clean''])], s))"

end
