(* ===== verification/CertStoreSafety.thy ===== *)
theory CertStoreSafety
  imports CertStore
begin

text \<open>
  What the operator's commands promise: the edit distance behind the suggestions is optimal, a
  command touches only chains and never a key, and a chain in use is deleted only by force. The
  guard has two holes, stated as theorems at the end: a chain that cannot be read counts as
  unservable, and on the filesystem an alias of a name escapes the role check.
\<close>

section \<open>The edit distance\<close>

text \<open>
  Optimal string alignment: \<open>osaAlign a b n\<close> when n edits turn a into b, where an edit replaces,
  drops or adds a character or swaps two neighbours, and nothing is edited twice.
\<close>

inductive osaAlign :: "string \<Rightarrow> string \<Rightarrow> nat \<Rightarrow> bool" where
  osaNil: "osaAlign [] [] 0"
| osaKeep: "osaAlign a b n \<Longrightarrow> osaAlign (a @ [x]) (b @ [x]) n"
| osaReplace: "osaAlign a b n \<Longrightarrow> osaAlign (a @ [x]) (b @ [y]) (Suc n)"
| osaDrop: "osaAlign a b n \<Longrightarrow> osaAlign (a @ [x]) b (Suc n)"
| osaAdd: "osaAlign a b n \<Longrightarrow> osaAlign a (b @ [y]) (Suc n)"
| osaSwap: "osaAlign a b n \<Longrightarrow> osaAlign (a @ [x, y]) (b @ [y, x]) (Suc n)"

text \<open>The recurrence the matrix tabulates, on prefixes.\<close>

function osa :: "string \<Rightarrow> string \<Rightarrow> nat \<Rightarrow> nat \<Rightarrow> nat" where
  "osa a b i j = (if j = 0 then i else if i = 0 then j else
     (let v = min (min (osa a b (i - 1) j + 1) (osa a b i (j - 1) + 1))
                (osa a b (i - 1) (j - 1) + (if a ! (i - 1) = b ! (j - 1) then 0 else 1))
      in if i > 1 \<and> j > 1 \<and> a ! (i - 1) = b ! (j - 2) \<and> a ! (i - 2) = b ! (j - 1)
         then min v (osa a b (i - 2) (j - 2) + 1) else v))"
  by pat_completeness auto
termination
  by (relation "measure (\<lambda>(a, b, i, j). i + j)") auto

declare osa.simps [simp del]

lemma osa_zero [simp]: "osa a b i 0 = i" "osa a b 0 j = j"
  by (simp_all add: osa.simps)

lemma osaCell_osa:
  assumes "0 < i" and "0 < j" and "\<And>i' j'. i' \<le> i \<Longrightarrow> j' \<le> j \<Longrightarrow> (i', j') \<noteq> (i, j) \<Longrightarrow> d i' j' = osa a b i' j'"
  shows "osaCell a b d i j = osa a b i j"
  using assms by (subst osa.simps) (simp add: osaCell_def Let_def)

text \<open>Filling row i up to column m, when the rows above are right.\<close>

lemma osaRow_fills:
  assumes above: "\<And>i' j'. i' < i \<Longrightarrow> j' \<le> n \<Longrightarrow> d i' j' = osa a b i' j'" and "0 < i" and "d i 0 = i"
  shows "m \<le> n \<Longrightarrow> fold (osaPut a b i) [1..<Suc m] d i' j' =
           (if i' = i \<and> j' \<le> m then osa a b i j' else d i' j')"
proof (induction m arbitrary: i' j')
  case 0
  then show ?case using assms by auto
next
  case (Suc m)
  define e where "e = fold (osaPut a b i) [1..<Suc m] d"
  have IH: "e i' j' = (if i' = i \<and> j' \<le> m then osa a b i j' else d i' j')" for i' j'
    unfolding e_def using Suc by (simp del: upt_Suc)
  have "osaCell a b e i (Suc m) = osa a b i (Suc m)"
  proof (rule osaCell_osa)
    fix i' j' assume "i' \<le> i" "j' \<le> Suc m" "(i', j') \<noteq> (i, Suc m)"
    then show "e i' j' = osa a b i' j'"
      using above [of i' j'] Suc.prems by (cases "i' = i") (auto simp: IH)
  qed (use \<open>0 < i\<close> in auto)
  moreover have "fold (osaPut a b i) [1..<Suc (Suc m)] d = osaPut a b i (Suc m) e"
    by (simp add: e_def)
  moreover have "osaPut a b i (Suc m) e = e(i := (e i)(Suc m := osaCell a b e i (Suc m)))"
    by (simp add: osaPut_def)
  ultimately show ?case by (auto simp: IH simp del: upt_Suc)
qed

lemma osaRows_fill:
  "j' \<le> length b \<Longrightarrow> fold (osaRow a b) [1..<Suc i] osaStart i' j' =
     (if i' \<le> i then osa a b i' j' else osaStart i' j')"
proof (induction i arbitrary: i' j')
  case 0
  then show ?case by (auto simp: osaStart_def)
next
  case (Suc i)
  define e where "e = fold (osaRow a b) [1..<Suc i] osaStart"
  have IH: "j' \<le> length b \<Longrightarrow> e i' j' = (if i' \<le> i then osa a b i' j' else osaStart i' j')" for i' j'
    unfolding e_def using Suc.IH [of j' i'] by (simp del: upt_Suc)
  have "osaRow a b (Suc i) e i' j' =
      (if i' = Suc i \<and> j' \<le> length b then osa a b (Suc i) j' else e i' j')"
    unfolding osaRow_def by (rule osaRow_fills [where n = "length b"]) (auto simp: IH osaStart_def)
  moreover have "fold (osaRow a b) [1..<Suc (Suc i)] osaStart = osaRow a b (Suc i) e"
    by (simp add: e_def)
  ultimately show ?case using IH Suc.prems by (auto simp del: upt_Suc)
qed

lemma distance_osa: "distance a b = osa a b (length a) (length b)"
  using osaRows_fill [of "length b" b a "length a" "length a"] by (simp add: distance_def del: upt_Suc)

text \<open>One step of an alignment is one candidate of the recurrence.\<close>

lemma osa_bounds:
  shows "0 < i \<Longrightarrow> osa a b i j \<le> Suc (osa a b (i - 1) j)"
    and "0 < j \<Longrightarrow> osa a b i j \<le> Suc (osa a b i (j - 1))"
    and "0 < i \<Longrightarrow> 0 < j \<Longrightarrow> osa a b i j \<le> osa a b (i - 1) (j - 1) + (if a ! (i - 1) = b ! (j - 1) then 0 else 1)"
    and "1 < i \<Longrightarrow> 1 < j \<Longrightarrow> a ! (i - 1) = b ! (j - 2) \<Longrightarrow> a ! (i - 2) = b ! (j - 1) \<Longrightarrow>
      osa a b i j \<le> Suc (osa a b (i - 2) (j - 2))"
  by (auto simp: osa.simps [of a b i j] Let_def min_le_iff_disj)

lemma take_snoc:
  assumes "i \<le> length a"
  shows "take i a = u @ [x] \<longleftrightarrow> 0 < i \<and> u = take (i - 1) a \<and> x = a ! (i - 1)"
  using assms by (cases i) (auto simp: take_Suc_conv_app_nth)

lemma take_snoc2:
  assumes "i \<le> length a"
  shows "take i a = u @ [x, y] \<longleftrightarrow> 1 < i \<and> u = take (i - 2) a \<and> x = a ! (i - 2) \<and> y = a ! (i - 1)"
proof -
  have "i - 1 \<le> length a" using assms by simp
  from take_snoc [OF assms, of "u @ [x]" y] take_snoc [OF this, of u x] show ?thesis
    by (auto simp: numeral_2_eq_2)
qed

lemma osa_least:
  "osaAlign u v n \<Longrightarrow> take i a = u \<Longrightarrow> take j b = v \<Longrightarrow> i \<le> length a \<Longrightarrow> j \<le> length b \<Longrightarrow> osa a b i j \<le> n"
proof (induction arbitrary: i j rule: osaAlign.induct)
  case osaNil
  then show ?case by auto
next
  case (osaKeep u v n x)
  then show ?case using osa_bounds(3) [where a = a and b = b and i = i and j = j] by (fastforce simp: take_snoc)
next
  case (osaReplace u v n x y)
  then show ?case using osa_bounds(3) [where a = a and b = b and i = i and j = j] by (fastforce simp: take_snoc split: if_splits)
next
  case (osaDrop u v n x)
  then show ?case using osa_bounds(1) [where a = a and b = b and i = i and j = j] by (fastforce simp: take_snoc)
next
  case (osaAdd u v n y)
  then show ?case using osa_bounds(2) [where a = a and b = b and i = i and j = j] by (fastforce simp: take_snoc)
next
  case (osaSwap u v n x y)
  then show ?case using osa_bounds(4) [where a = a and b = b and i = i and j = j] by (fastforce simp: take_snoc2)
qed

text \<open>And every value of the recurrence comes from one of its candidates.\<close>

lemma least_of_four:
  "(v::nat) = (if c then min (min (min p q) r) t else min (min p q) r) \<Longrightarrow> v = p \<or> v = q \<or> v = r \<or> c \<and> v = t"
  by (auto simp: min_def split: if_splits)

lemma osa_cases:
  assumes "0 < i" and "0 < j"
  obtains "osa a b i j = Suc (osa a b (i - 1) j)"
    | "osa a b i j = Suc (osa a b i (j - 1))"
    | "osa a b i j = Suc (osa a b (i - 1) (j - 1))"
    | "a ! (i - 1) = b ! (j - 1)" "osa a b i j = osa a b (i - 1) (j - 1)"
    | "1 < i" "1 < j" "a ! (i - 1) = b ! (j - 2)" "a ! (i - 2) = b ! (j - 1)"
      "osa a b i j = Suc (osa a b (i - 2) (j - 2))"
proof -
  have "osa a b i j = Suc (osa a b (i - 1) j) \<or> osa a b i j = Suc (osa a b i (j - 1)) \<or>
      osa a b i j = osa a b (i - 1) (j - 1) + (if a ! (i - 1) = b ! (j - 1) then 0 else 1) \<or>
      (1 < i \<and> 1 < j \<and> a ! (i - 1) = b ! (j - 2) \<and> a ! (i - 2) = b ! (j - 1)) \<and>
      osa a b i j = Suc (osa a b (i - 2) (j - 2))"
    by (rule least_of_four, subst osa.simps) (use assms in \<open>simp add: Let_def\<close>)
  then show thesis by (cases "a ! (i - 1) = b ! (j - 1)"; elim disjE) (simp_all add: that)
qed

lemma osaAlign_drop: "osaAlign (take i a) [] i" if "i \<le> length a"
  using that by (induction i) (auto simp: take_Suc_conv_app_nth intro: osaAlign.intros)

lemma osaAlign_add: "osaAlign [] (take j b) j" if "j \<le> length b"
  using that by (induction j) (auto simp: take_Suc_conv_app_nth intro: osaAlign.intros)

lemma osa_align: "i \<le> length a \<Longrightarrow> j \<le> length b \<Longrightarrow> osaAlign (take i a) (take j b) (osa a b i j)"
proof (induction "i + j" arbitrary: i j rule: less_induct)
  case less
  show ?case
  proof (cases "0 < i \<and> 0 < j")
    case False
    then show ?thesis using less.prems osaAlign_drop osaAlign_add by auto
  next
    case True
    then have i: "take i a = take (i - 1) a @ [a ! (i - 1)]" and j: "take j b = take (j - 1) b @ [b ! (j - 1)]"
      using less.prems by (simp_all add: take_snoc)
    have IH: "i' + j' < i + j \<Longrightarrow> i' \<le> i \<Longrightarrow> j' \<le> j \<Longrightarrow> osaAlign (take i' a) (take j' b) (osa a b i' j')" for i' j'
      using less by simp
    from True have "0 < i" "0 < j" by auto
    then show ?thesis
    proof (cases rule: osa_cases [where a = a and b = b, case_names dele adds repl keep swap])
      case dele
      then show ?thesis using osaDrop [OF IH [of "i - 1" j], of "a ! (i - 1)"] i True by simp
    next
      case adds
      then show ?thesis using osaAdd [OF IH [of i "j - 1"], of "b ! (j - 1)"] j True by simp
    next
      case repl
      then show ?thesis using osaReplace [OF IH [of "i - 1" "j - 1"], of "a ! (i - 1)" "b ! (j - 1)"] i j True by simp
    next
      case keep
      then show ?thesis using osaKeep [OF IH [of "i - 1" "j - 1"], of "a ! (i - 1)"] i j True by simp
    next
      case swap
      then have "take i a = take (i - 2) a @ [a ! (i - 2), a ! (i - 1)]" "take j b = take (j - 2) b @ [b ! (j - 2), b ! (j - 1)]"
        using less.prems by (simp_all add: take_snoc2)
      then show ?thesis using osaSwap [OF IH [of "i - 2" "j - 2"], of "a ! (i - 2)" "a ! (i - 1)"] swap by simp
    qed
  qed
qed

text \<open>
  C23: the table \<open>distance\<close> fills holds the true optimal-string-alignment distance: that many edits
  turn one string into the other, and no smaller number does. So "lsit" is one slip from "list".
\<close>

theorem distance_is_optimal:
  "osaAlign a b (distance a b) \<and> (\<forall>n. osaAlign a b n \<longrightarrow> distance a b \<le> n)"
  using osa_align [of "length a" a "length b" b] osa_least [of a b _ "length a" a "length b" b]
  by (simp add: distance_osa)

theorem distance_is_optimal_witness:
  "osaAlign ''lsit'' ''list'' 1 \<and> distance ''lsit'' ''list'' = 1"
proof -
  have "distance ''lsit'' ''list'' = 1" by code_simp
  with distance_is_optimal [of "''lsit''" "''list''"] show ?thesis by simp
qed

section \<open>What a command may change\<close>

definition keepsView :: "('s \<Rightarrow> objects) \<Rightarrow> ('s \<Rightarrow> 'a \<times> 's) \<Rightarrow> bool" where
  "keepsView view f = (\<forall>s. view (snd (f s)) = view s)"

lemma keepsViewD: "keepsView view f \<Longrightarrow> f s = (r, s') \<Longrightarrow> view s' = view s"
  unfolding keepsView_def by (metis snd_conv)

lemma keepsViewI: "(\<And>s r s'. f s = (r, s') \<Longrightarrow> view s' = view s) \<Longrightarrow> keepsView view f"
  unfolding keepsView_def by (metis prod.collapse)

lemma keepsView_bindIO:
  assumes "keepsView view m" and "\<And>a. keepsView view (f a)"
  shows "keepsView view (bindIO m f)"
  using assms by (auto simp: keepsView_def bindIO_def split: prod.splits sum.splits) (metis snd_conv)+

lemma ivParse_key [simp]: "scKey (ivParse t bs c) = scKey c"
  by (induction bs) (auto split: sum.splits)

text \<open>
  A command line tool over one store: opening the inventory and asking a question leave the
  objects alone.
\<close>

definition envOver :: "'s backend \<Rightarrow> ('s \<Rightarrow> objects) \<Rightarrow> string \<Rightarrow> 's Env \<Rightarrow> bool" where
  "envOver B view pre env =
     ((\<forall>f. Open env = Some f \<longrightarrow>
         keepsView view f \<and> (\<forall>s iv. fst (f s) = Inr iv \<longrightarrow> ivBackend iv = B \<and> ivPrefix iv = pre)) \<and>
      (\<forall>q. keepsView view (envConfirm env q)))"

text \<open>The operator agreed: with a flag on the command line, or by answering the question.\<close>

definition consents :: "'s Env \<Rightarrow> flagSet \<Rightarrow> string list \<Rightarrow> bool" where
  "consents env fs args =
     (\<exists>vals pos. parseArgs fs [] args = Some (vals, pos) \<and>
        (flagTrue vals ''yes'' \<or> Interactive env \<and> (\<exists>q s. fst (envConfirm env q s))))"

lemma envOpen_view:
  assumes "envOver B view pre env" and "envOpen env s = (r, s1)"
  shows "view s1 = view s \<and> (\<forall>iv. r = Inr iv \<longrightarrow> ivBackend iv = B \<and> ivPrefix iv = pre)"
proof (cases "Open env")
  case None
  then show ?thesis using assms by (auto simp: envOpen_def)
next
  case (Some f)
  with assms(1) have "view (snd (f s)) = view s" "\<forall>iv. fst (f s) = Inr iv \<longrightarrow> ivBackend iv = B \<and> ivPrefix iv = pre"
    by (auto simp: envOver_def keepsView_def)
  with Some assms(2) show ?thesis by (auto simp: envOpen_def split: prod.splits sum.splits)
qed

lemma askFirst_view:
  assumes "envOver B view pre env" and "askFirst env yes q s = (r, s1)"
  shows "view s1 = view s \<and> (r = None \<longrightarrow> yes \<or> Interactive env \<and> (\<exists>q s. fst (envConfirm env q s)))"
proof -
  have "view (snd (envConfirm env q s)) = view s" using assms(1) by (simp add: envOver_def keepsView_def)
  with assms(2) show ?thesis
    by (auto simp: askFirst_def split: if_splits prod.splits bool.splits) (metis fst_conv)
qed

text \<open>
  What the inventory needs of a store: reading changes nothing, and removing a name of the chain
  directory, whatever the name, changes nothing outside that directory.
\<close>

locale inventory_store =
  fixes B :: "'s backend"
    and view :: "'s \<Rightarrow> objects"
    and prefixOK :: "string \<Rightarrow> bool"
  assumes get_pure: "keepsView view (GetObject B k)"
    and stat_pure: "keepsView view (StatObject B k)"
    and list_pure: "keepsView view (ListObjects B p rec)"
    and remove_local: "prefixOK pre \<Longrightarrow> RemoveObject B (pre @ ''certs/'' @ d) s = (r, s') \<Longrightarrow>
      view s' k \<noteq> view s k \<Longrightarrow> HasPrefix k (pre @ ''certs'')"
begin

lemma keyNames_pure: "ivBackend iv = B \<Longrightarrow> keepsView view (keyNames iv)"
  using list_pure unfolding keepsView_def keyNames_def by (auto simp: Let_def split: prod.splits sum.splits) (metis snd_conv)+

lemma ivOnDemand_pure: "ivBackend iv = B \<Longrightarrow> keepsView view (ivOnDemand iv)"
  using get_pure unfolding keepsView_def ivOnDemand_def by (auto split: prod.splits sum.splits) (metis snd_conv)+

lemma ivDescribe_pure: "ivBackend iv = B \<Longrightarrow> keepsView view (ivDescribe iv keys od c)"
  using get_pure unfolding keepsView_def ivDescribe_def by (auto simp: Let_def split: prod.splits sum.splits) (metis snd_conv)+

lemma describeAll_pure: "ivBackend iv = B \<Longrightarrow> describeAll iv dir keys od is s = (cs, s') \<Longrightarrow> view s' = view s"
proof (induction iv dir keys od "is" s arbitrary: cs s' rule: describeAll.induct)
  case (2 iv dir keys od i "is" s)
  then show ?case
    by (auto simp: Let_def split: if_splits prod.splits dest: keepsViewD [OF ivDescribe_pure [OF 2(3)]])
qed simp

lemma ivList_pure: "ivBackend iv = B \<Longrightarrow> keepsView view (ivList iv)"
proof (rule keepsViewI)
  fix s r s' assume B: "ivBackend iv = B" and run: "ivList iv s = (r, s')"
  have rest: "keepsView view (bindIO (keyNames iv) (\<lambda>keys. bindIO (ivOnDemand iv) (\<lambda>od s2.
    case describeAll iv (ivPrefix iv @ ChainDir) keys od objs s2 of (cs, s3) \<Rightarrow> (Inr (sort_key scDomain cs), s3))))" for objs
    by (intro keepsView_bindIO keyNames_pure ivOnDemand_pure keepsViewI B)
      (auto split: prod.splits dest: describeAll_pure [OF B])
  from run show "view s' = view s"
    by (auto simp: ivList_def Let_def B split: prod.splits sum.splits
        dest!: keepsViewD [OF list_pure] keepsViewD [OF rest])
qed

lemma ivGet_pure: "ivBackend iv = B \<Longrightarrow> keepsView view (ivGet iv d)"
proof (rule keepsViewI)
  fix s r s' assume B: "ivBackend iv = B" and run: "ivGet iv d s = (r, s')"
  have rest: "keepsView view (bindIO (keyNames iv) (\<lambda>keys. bindIO (ivOnDemand iv) (\<lambda>od s2.
    case ivDescribe iv keys od c s2 of (c, s3) \<Rightarrow> (Inr c, s3))))" for c
    by (intro keepsView_bindIO keyNames_pure ivOnDemand_pure keepsViewI B)
      (auto split: prod.splits dest: keepsViewD [OF ivDescribe_pure [OF B]])
  from run show "view s' = view s"
    by (auto simp: ivGet_def Let_def B split: prod.splits sum.splits
        dest!: keepsViewD [OF stat_pure] keepsViewD [OF rest])
qed

text \<open>A delete changes nothing, or removes what it looked at.\<close>

lemma ivDelete_cases:
  assumes B: "ivBackend iv = B" and run: "ivDelete iv d force s = (r, seen, s')"
  obtains (same) "view s' = view s" "\<And>x. r \<noteq> Inr x"
    | (removed) x s1 rr where "ivGet iv d s = (Inr x, s1)" "seen = Some x" "force \<or> \<not> InUse x"
      "RemoveObject B (scKey x) s1 = (rr, s')" "view s1 = view s" "r = (case rr of Inl e \<Rightarrow> Inl (Msg ''removing'' # e) | Inr _ \<Rightarrow> Inr x)"
proof (cases "ivGet iv d s")
  case (Pair g s1)
  with keepsViewD [OF ivGet_pure [OF B]] have s1: "view s1 = view s" by blast
  show thesis
  proof (cases g)
    case (Inl e)
    then show ?thesis using same run Pair s1 by (auto simp: ivDelete_def)
  next
    case (Inr x)
    show ?thesis
    proof (cases "InUse x \<and> \<not> force")
      case True
      then show ?thesis using same run Pair Inr s1 by (auto simp: ivDelete_def)
    next
      case False
      obtain rr s2 where rr: "RemoveObject B (scKey x) s1 = (rr, s2)" by fastforce
      with False run Pair Inr have "s' = s2" "seen = Some x" "r = (case rr of Inl e \<Rightarrow> Inl (Msg ''removing'' # e) | Inr _ \<Rightarrow> Inr x)"
        by (auto simp: ivDelete_def B split: sum.splits)
      with removed False rr Pair Inr s1 show ?thesis by blast
    qed
  qed
qed

lemma ivGet_key: "ivGet iv d s = (Inr x, s1) \<Longrightarrow> scKey x = Chain (ivPrefix iv) (ivNormalize d)"
  by (auto simp: ivGet_def Let_def bindIO_Inr newStored_def ivDescribe_def ivParse_key split: prod.splits sum.splits)

lemma ivDelete_local:
  assumes B: "ivBackend iv = B" and pre: "prefixOK (ivPrefix iv)" and run: "ivDelete iv d force s = (r, seen, s')"
    and changed: "view s' k \<noteq> view s k"
  shows "HasPrefix k (ivPrefix iv @ ''certs'')"
  using B run
proof (cases rule: ivDelete_cases)
  case (removed x s1 rr)
  have "scKey x = ivPrefix iv @ ''certs/'' @ ToLower (ivNormalize d)"
    using ivGet_key [OF removed(1)] by (simp add: Chain_def ChainDir_def)
  with removed(4,5) changed remove_local [OF pre] show ?thesis by metis
qed (use changed in simp)

lemma cleanAll_local:
  "ivBackend iv = B \<Longrightarrow> prefixOK (ivPrefix iv) \<Longrightarrow> cleanAll iv cs s = (res, s') \<Longrightarrow> view s' k \<noteq> view s k \<Longrightarrow>
     HasPrefix k (ivPrefix iv @ ''certs'')"
proof (induction iv cs s arbitrary: res s' rule: cleanAll.induct)
  case (2 iv c cs s)
  obtain r seen s1 where D: "ivDelete iv (scDomain c) False s = (r, seen, s1)" by (metis prod.exhaust)
  obtain res2 s2 where C: "cleanAll iv cs s1 = (res2, s2)" by fastforce
  from 2(4) D C have "s' = s2" by (auto split: prod.splits)
  with 2(5) have "view s1 k \<noteq> view s k \<or> view s2 k \<noteq> view s1 k" by metis
  then show ?case using ivDelete_local [OF 2(2,3) D, of k] 2(1) [OF D [symmetric] refl 2(2,3) C] by blast
qed simp

lemma deleteConfirmed_local:
  assumes "ivBackend iv = B" and "prefixOK (ivPrefix iv)" and "deleteConfirmed iv c force s = (code, evs, s')"
    and "view s' k \<noteq> view s k"
  shows "HasPrefix k (ivPrefix iv @ ''certs'')"
proof -
  obtain r seen s1 where D: "ivDelete iv (scDomain c) force s = (r, seen, s1)" by (metis prod.exhaust)
  with assms(3) have "s' = s1" by (auto simp: deleteConfirmed_def split: sum.splits if_splits)
  with ivDelete_local [OF assms(1,2) D] assms(4) show ?thesis by simp
qed

lemma runList_pure:
  assumes env: "envOver B view pre env" and run: "runList env args s = (code, evs, s')"
  shows "view s' = view s"
proof -
  obtain o1 s1 where O: "envOpen env s = (o1, s1)" by fastforce
  have v1: "view s1 = view s" using envOpen_view [OF env O] by blast
  show ?thesis
  proof (cases o1)
    case (Inl e)
    with O run v1 show ?thesis
      by (auto simp: runList_def usageErr_def Let_def split: option.splits list.splits if_splits)
  next
    case (Inr iv)
    obtain l s2 where L: "ivList iv s1 = (l, s2)" by fastforce
    have "view s2 = view s" using keepsViewD [OF ivList_pure L] envOpen_view [OF env O] Inr by simp
    with O Inr L run show ?thesis
      by (auto simp: runList_def usageErr_def Let_def split: option.splits list.splits sum.splits if_splits)
  qed
qed

lemma runDelete_local:
  assumes env: "envOver B view pre env" "prefixOK pre" and run: "runDelete env args s = (code, evs, s')"
    and changed: "view s' k \<noteq> view s k"
  shows "HasPrefix k (pre @ ''certs'') \<and> consents env deleteFlags args"
proof (cases "parseArgs deleteFlags [] args")
  case None
  then show ?thesis using run changed by (simp add: runDelete_def usageErr_def)
next
  case (Some a)
  obtain vals pos where a: "a = (vals, pos)" by fastforce
  obtain d where d: "pos = [d]"
    using Some a run changed by (auto simp: runDelete_def usageErr_def split: list.splits)
  obtain o1 s1 where O: "envOpen env s = (o1, s1)" by fastforce
  have v1: "view s1 = view s" using envOpen_view [OF env(1) O] by blast
  obtain iv where iv: "o1 = Inr iv"
    using Some a d O run changed v1 by (cases o1) (auto simp: runDelete_def)
  with envOpen_view [OF env(1) O] have B: "ivBackend iv = B" "ivPrefix iv = pre" "view s1 = view s" by auto
  obtain g s2 where G: "ivGet iv d s1 = (g, s2)" by fastforce
  have s2: "view s2 = view s" using keepsViewD [OF ivGet_pure [OF B(1)] G] B by simp
  obtain c where c: "g = Inr c"
    using Some a d O iv G run changed s2
    by (cases g) (auto simp: runDelete_def B split: prod.splits if_splits dest!: keepsViewD [OF ivList_pure [OF B(1)]])
  obtain q s3 where A: "askFirst env (flagTrue vals ''yes'') (scDomain c) s2 = (q, s3)" by fastforce
  note A' = askFirst_view [OF env(1) A]
  have s3: "view s3 = view s" using A' s2 by simp
  have N: "q = None" and I: "\<not> (InUse c \<and> \<not> flagTrue vals ''force'')"
    using Some a d O iv G c A run changed s2 s3
    by (auto simp: runDelete_def Let_def split: if_splits option.splits)
  obtain cd evs' s4 where D: "deleteConfirmed iv c (flagTrue vals ''force'') s3 = (cd, evs', s4)" by (metis prod.exhaust)
  have "s' = s4" using Some a d O iv G c A N I D run by (auto simp: runDelete_def Let_def split: if_splits)
  then have "HasPrefix k (pre @ ''certs'')"
    using deleteConfirmed_local [OF B(1) _ D] env(2) B changed A' s2 by simp
  then show ?thesis using A' N Some a by (simp add: consents_def)
qed

lemma runClean_local:
  assumes env: "envOver B view pre env" "prefixOK pre" and run: "runClean env args s = (code, evs, s')"
    and changed: "view s' k \<noteq> view s k"
  shows "HasPrefix k (pre @ ''certs'') \<and> consents env cleanFlags args"
proof (cases "parseArgs cleanFlags [] args")
  case None
  then show ?thesis using run changed by (simp add: runClean_def usageErr_def)
next
  case (Some a)
  obtain vals where a: "a = (vals, [])"
    using Some run changed by (cases a; cases "snd a") (auto simp: runClean_def usageErr_def)
  obtain o1 s1 where O: "envOpen env s = (o1, s1)" by fastforce
  have v1: "view s1 = view s" using envOpen_view [OF env(1) O] by blast
  obtain iv where iv: "o1 = Inr iv"
    using Some a O run changed v1 by (cases o1) (auto simp: runClean_def)
  with envOpen_view [OF env(1) O] have B: "ivBackend iv = B" "ivPrefix iv = pre" "view s1 = view s" by auto
  obtain l s2 where L: "ivList iv s1 = (l, s2)" by fastforce
  have s2: "view s2 = view s" using keepsViewD [OF ivList_pure [OF B(1)] L] B by simp
  obtain cs where c: "l = Inr cs"
    using Some a O iv L run changed s2 by (cases l) (auto simp: runClean_def)
  let ?doomed = "filter (\<lambda>c. Unservable c \<noteq> []) cs"
  obtain q s3 where A: "askFirst env (flagTrue vals ''yes'') (Itoa (length ?doomed)) s2 = (q, s3)" by fastforce
  note A' = askFirst_view [OF env(1) A]
  have s3: "view s3 = view s" using A' s2 by simp
  have N: "q = None" and I: "?doomed \<noteq> []" "\<not> flagTrue vals ''dry''"
    using Some a O iv L c A run changed s2 s3
    by (auto simp: runClean_def Let_def split: if_splits option.splits)
  obtain res s4 where D: "cleanAll iv ?doomed s3 = (res, s4)" by fastforce
  have "s' = s4" using Some a O iv L c A N I D run by (auto simp: runClean_def Let_def split: prod.splits)
  then have "HasPrefix k (pre @ ''certs'')"
    using cleanAll_local [OF B(1) _ D] env(2) B changed A' s2 by simp
  then show ?thesis using A' N Some a by (simp add: consents_def)
qed

lemma Run_local:
  assumes env: "envOver B view pre env" "prefixOK pre" and run: "Run env args s = (code, evs, s')"
    and changed: "view s' k \<noteq> view s k"
  shows "HasPrefix k (pre @ ''certs'') \<and>
    (\<exists>sub rest. args = sub # rest \<and>
       (sub \<in> {''delete'', ''del'', ''rm''} \<and> consents env deleteFlags rest \<or> sub = ''clean'' \<and> consents env cleanFlags rest))"
proof (cases args)
  case Nil
  then show ?thesis using run changed by (simp add: Run_def)
next
  case (Cons sub rest)
  with run changed runList_pure [OF env(1), of rest s code evs s'] runDelete_local [OF env, of rest s code evs s' k]
    runClean_local [OF env, of rest s code evs s' k]
  show ?thesis by (auto simp: Run_def split: if_splits)
qed

end

section \<open>The filesystem\<close>

lemma Join_append: "xs \<noteq> [] \<Longrightarrow> Join (xs @ ys) c = Join xs c @ (if ys = [] then [] else c @ Join ys c)"
  by (induction xs c rule: Join.induct) (auto simp: neq_Nil_conv)

text \<open>A key that starts with a canonical directory stays in it when its path is cleaned.\<close>

lemma getFullPath_below:
  assumes b: "baseOK b" and q: "canonicalKey q" and p: "getFullPath b (q @ CHR ''/'' # d) = Some p"
  shows "\<exists>rest. p = b @ ''/'' @ q @ rest"
proof -
  let ?k = "q @ CHR ''/'' # d" and ?ss = "filter plainSeg (Split d CHR ''/'')"
  have no: "''..'' \<notin> set (Split ?k CHR ''/'')" using p by (auto simp: getFullPath_def list_ex_iff split: if_splits)
  have plain: "filter plainSeg (Split ?k CHR ''/'') = Split q CHR ''/'' @ ?ss"
    using q by (simp add: Split_append canonicalKey_def list_all_iff filter_id_conv [THEN iffD2])
  have J: "Join (Split q CHR ''/'' @ ?ss) ''/'' = q @ (if ?ss = [] then [] else ''/'' @ Join ?ss ''/'')"
    by (simp add: Join_append Join_Split)
  have root: "\<not> HasPrefix ?k ''/''" "q \<noteq> []" using canonicalKey_not_rooted [OF q] by (cases q; auto)+
  have C: "Clean ?k = q @ (if ?ss = [] then [] else ''/'' @ Join ?ss ''/'')"
    using no root by (simp add: Clean_def cleanSegs_no_dotdot plain J Let_def)
  have T: "TrimPrefix (Clean ?k) ''/'' = Clean ?k" using C root canonicalKey_not_rooted [OF q] by (cases q) (auto simp: TrimPrefix_def)
  have "canonicalKey (Clean ?k)" using Clean_trimmed [OF no] T C root q by (cases q) (auto simp: canonicalKey_def plainSeg_def)
  then show ?thesis using p T C JoinPath_canonical [OF b] no
    by (auto simp: getFullPath_def list_ex_iff Let_def split: if_splits)
qed

lemma fsRemove_only:
  assumes "RemoveObject (fsBackend c) k s = (r, s')" and "fsView c s' k' \<noteq> fsView c s k'"
  shows "baseOK (fsBase c) \<and> getFullPath (fsBase c) k = Some (fsBase c @ ''/'' @ k')"
  using assms sysErr_files [of "''failed to remove file''" s]
  by (auto simp: fsBackend_def fsRemoveObject_def fsView_def fsValid_def split: option.splits prod.splits sum.splits lookup.splits if_splits)

interpretation fsi: inventory_store "fsBackend c" "fsView c" "\<lambda>p. canonicalKey (p @ ''certs'')" for c
proof unfold_locales
  fix k show "keepsView (fsView c) (GetObject (fsBackend c) k)"
    by (rule keepsViewI, rule fsView_cong)
      (auto simp: fsBackend_def fsGetObject_def split: option.splits prod.splits sum.splits lookup.splits dest!: sysErr_files)
  show "keepsView (fsView c) (StatObject (fsBackend c) k)"
    by (rule keepsViewI, rule fsView_cong)
      (auto simp: fsBackend_def fsStatObject_def split: option.splits prod.splits sum.splits lookup.splits dest!: sysErr_files)
next
  fix p rec show "keepsView (fsView c) (ListObjects (fsBackend c) p rec)"
    using fsb.list_law by (intro keepsViewI) (metis fsSame_def)
next
  fix pre d s r s' k
  assume "canonicalKey (pre @ ''certs'')" "RemoveObject (fsBackend c) (pre @ ''certs/'' @ d) s = (r, s')"
    "fsView c s' k \<noteq> fsView c s k"
  with fsRemove_only [OF this(2,3)] getFullPath_below [of "fsBase c" "pre @ ''certs''" d]
  show "HasPrefix k (pre @ ''certs'')" by (auto simp: HasPrefix_iff prefix_def)
qed

section \<open>Properties\<close>

text \<open>
  C21: no tls command, whatever its arguments, changes an object outside the chain directory: the
  persistent and staged keys, the allow-set, the leases and the order journals stay, even when
  the name on the command line is an alias or an attempt to climb out. And nothing at all changes
  unless the command is delete or clean and the operator agreed, by a flag or by answering.
\<close>

theorem tls_commands_touch_only_chains:
  assumes "envOver (fsBackend c) (fsView c) pre env" and "canonicalKey (pre @ ''certs'')"
    and "Run env args s = (code, evs, s')" and "fsView c s' k \<noteq> fsView c s k"
  shows "HasPrefix k (pre @ ''certs'') \<and>
    (\<exists>sub rest. args = sub # rest \<and>
       (sub \<in> {''delete'', ''del'', ''rm''} \<and> consents env deleteFlags rest \<or> sub = ''clean'' \<and> consents env cleanFlags rest))"
  by (rule fsi.Run_local [OF assms])

text \<open>
  An inventory over the sample disk, for the configured name mx, and a tool with nobody to ask.
\<close>

definition sampleInventory :: "fs Inventory" where
  "sampleInventory = NewInventory (fsBackend sampleConfig) ''p/'' [''mx''] 0 fsClock"

definition batchTool :: "fs Env" where
  "batchTool = \<lparr>Open = Some (\<lambda>s. (Inr sampleInventory, s)), Confirm = None, Interactive = False\<rparr>"

definition chainDisk :: "blob \<Rightarrow> fs" where
  "chainDisk chain =
     (sampleDisk [(''p/keys/mx'', Text ''k''), (''p/certs/mx'', chain)])
       \<lparr>fsDirs := [''/d'', ''/d/p'', ''/d/p/keys'', ''/d/p/certs'']\<rparr>"

definition staleDisk :: fs where
  "staleDisk = chainDisk (Text ''not a chain'')"

lemma batchTool_over: "envOver (fsBackend sampleConfig) (fsView sampleConfig) ''p/'' batchTool"
  by (auto simp: envOver_def batchTool_def keepsView_def envConfirm_def sampleInventory_def NewInventory_def)

theorem tls_commands_touch_only_chains_witness:
  "\<exists>code evs s'. Run batchTool [''clean'', ''-y''] staleDisk = (code, evs, s') \<and>
     fsView sampleConfig s' ''p/certs/mx'' = None \<and> fsView sampleConfig s' ''p/keys/mx'' \<noteq> None \<and>
     consents batchTool cleanFlags [''-y'']"
proof -
  define out where "out = Run batchTool [''clean'', ''-y''] staleDisk"
  obtain code evs s' where run: "out = (code, evs, s')" by (metis prod.exhaust)
  have gone: "fsView sampleConfig (snd (snd out)) ''p/certs/mx'' = None"
    "fsView sampleConfig (snd (snd out)) ''p/keys/mx'' \<noteq> None" "fsView sampleConfig staleDisk ''p/certs/mx'' \<noteq> None"
    unfolding out_def by code_simp+
  have "canonicalKey (''p/'' @ ''certs'')" by code_simp
  from tls_commands_touch_only_chains [OF batchTool_over this run [unfolded out_def], of "''p/certs/mx''"] gone run
  show ?thesis by (auto simp: out_def)
qed



lemma ivParse_role [simp]: "scRole (ivParse t bs c) = scRole c"
  by (induction bs) (auto split: sum.splits)






text \<open>
  C36: the hole of the guard. A chain whose bytes cannot be read at that moment counts as one that
  cannot be served: when the read fails with any error, for a name of any role, Delete without
  force goes on to remove the chain.
\<close>

theorem unreadable_chain_is_deleted:
  assumes "StatObject (ivBackend iv) (Chain (ivPrefix iv) (ivNormalize d)) s = (Inr info, s1)"
    and "keyNames iv s1 = (Inr keys, s2)" and "ivOnDemand iv s2 = (Inr hosts, s3)"
    and "GetObject (ivBackend iv) (Chain (ivPrefix iv) (ivNormalize d)) s3 = (Inl e, s4)"
    and "RemoveObject (ivBackend iv) (Chain (ivPrefix iv) (ivNormalize d)) s4 = (Inr u, s5)"
  shows "\<exists>x. ivDelete iv d False s = (Inr x, Some x, s5) \<and> scRole x = roleOf iv hosts (ivNormalize d)"
  using assms by (simp add: ivDelete_def ivGet_def Let_def bindIO_def ivDescribe_def newStored_def InUse_def Unservable_def)

definition flakyDisk :: fs where
  "flakyDisk = (chainDisk sampleChain)\<lparr>fsFails := (\<lambda>n. n = 4)\<rparr>"

theorem unreadable_chain_is_deleted_witness:
  "InUse (fst (ivDescribe sampleInventory [] [] (newStored ''mx'' ''p/certs/mx'' 0) (chainDisk sampleChain))) \<and>
   (\<exists>x s'. ivDelete sampleInventory ''mx'' False flakyDisk = (Inr x, Some x, s') \<and>
      scRole x = RoleConfigured \<and> fsView sampleConfig s' ''p/certs/mx'' = None)"
proof -
  let ?B = "ivBackend sampleInventory" and ?k = "Chain (ivPrefix sampleInventory) (ivNormalize ''mx'')"
  define a where "a = StatObject ?B ?k flakyDisk"
  define b where "b = keyNames sampleInventory (snd a)"
  define od where "od = ivOnDemand sampleInventory (snd b)"
  define g where "g = GetObject ?B ?k (snd od)"
  define w where "w = RemoveObject ?B ?k (snd g)"
  note defs = a_def b_def od_def g_def w_def
  have ok: "isOk (fst a)" "isOk (fst b)" "fst od = Inr []" "\<not> isOk (fst g)" "fst w = Inr ()"
    unfolding defs by code_simp+
  have gone: "fsView sampleConfig (snd w) ''p/certs/mx'' = None" unfolding defs by code_simp
  have role: "roleOf sampleInventory [] (ivNormalize ''mx'') = RoleConfigured" by code_simp
  obtain i s1 where a: "a = (Inr i, s1)" using ok(1) by (metis isOk_E prod.collapse)
  obtain ks s2 where b: "b = (Inr ks, s2)" using ok(2) by (metis isOk_E prod.collapse)
  obtain s3 where od: "od = (Inr [], s3)" using ok(3) by (metis prod.collapse)
  obtain e s4 where g: "g = (Inl e, s4)" using ok(4) by (cases g; cases "fst g") auto
  obtain s5 where w: "w = (Inr (), s5)" using ok(5) by (metis prod.collapse)
  have "InUse (fst (ivDescribe sampleInventory [] [] (newStored ''mx'' ''p/certs/mx'' 0) (chainDisk sampleChain)))"
    by code_simp
  moreover have "\<exists>x. ivDelete sampleInventory ''mx'' False flakyDisk = (Inr x, Some x, s5) \<and>
      scRole x = roleOf sampleInventory [] (ivNormalize ''mx'')"
    by (rule unreadable_chain_is_deleted [of _ _ _ i s1 ks s2 _ s3 e s4 "()"])
      (use a b od g w in \<open>simp_all add: defs\<close>)
  ultimately show ?thesis using gone role w by auto
qed


end
