(* ===== verification/AdminApi.thy ===== *)
theory AdminApi
  imports ManagerSafety
begin

text \<open>
  Package adminapi: the wire contract between the renewal endpoint of a service (\<open>RenewHandler\<close>)
  and the admin command that drives it (\<open>Renew\<close>). Package net/http is the surroundings: whether a
  URL makes a request, what the query of a URL says, and the exchange itself are parameters. The
  texts that never vary are left out of the printed lines; what a line reports is kept.
\<close>

section \<open>The contract\<close>

definition StatusSuccess :: string where "StatusSuccess = ''success''"
definition StatusStored :: string where "StatusStored = ''stored''"
definition StatusError :: string where "StatusError = ''error''"

definition IssueTimeout :: duration where "IssueTimeout = 2 * Minute"
definition RenewTimeout :: duration where "RenewTimeout = 2 * IssueTimeout + Minute"

definition RenewExitOK :: int where "RenewExitOK = 0"
definition RenewExitFailed :: int where "RenewExitFailed = 1"
definition RenewExitStored :: int where "RenewExitStored = 2"

record renewResult =
  rrStatus :: string
  rrMessage :: string
  rrError :: string
  rrRenewed :: "string list"

definition emptyResult :: renewResult where
  "emptyResult = \<lparr>rrStatus = [], rrMessage = [], rrError = [], rrRenewed = []\<rparr>"

text \<open>The JSON of a result: the tags leave empty members out.\<close>

definition encodeResult :: "renewResult \<Rightarrow> json" where
  "encodeResult r =
     JObj ([(''status'', JStr (rrStatus r))] @
       (if rrMessage r = [] then [] else [(''message'', JStr (rrMessage r))]) @
       (if rrError r = [] then [] else [(''error'', JStr (rrError r))]) @
       (if rrRenewed r = [] then [] else [(''renewed'', JArr (map JStr (rrRenewed r)))]))"

definition decodeResult :: "blob \<Rightarrow> error + renewResult" where
  "decodeResult b =
     (case jsonOf b of
        Inl e \<Rightarrow> Inl e
      | Inr j \<Rightarrow>
          (case jsonMembers j of
             Inl e \<Rightarrow> Inl e
           | Inr ms \<Rightarrow>
               (case (decStr ''status'' ms [], decStr ''message'' ms [], decStr ''error'' ms [], decStrList ''renewed'' ms []) of
                  (Inr a, Inr b, Inr c, Inr d) \<Rightarrow> Inr \<lparr>rrStatus = a, rrMessage = b, rrError = c, rrRenewed = d\<rparr>
                | _ \<Rightarrow> Inl jsonTypeError)))"

section \<open>The server\<close>

record httpResponse =
  rsStatus :: nat
  rsContentType :: string
  rsBody :: blob

definition jsonResponse :: "nat \<Rightarrow> renewResult \<Rightarrow> httpResponse" where
  "jsonResponse status r =
     \<lparr>rsStatus = status, rsContentType = ''application/json'', rsBody = Json (encodeResult r)\<rparr>"

text \<open>\<open>et\<close> is the text of an error, its \<open>Error\<close> method.\<close>

definition WriteRenewResult :: "(error \<Rightarrow> string) \<Rightarrow> string \<Rightarrow> string list \<Rightarrow> error option \<Rightarrow> httpResponse" where
  "WriteRenewResult et domain renewed err =
     (case err of
        None \<Rightarrow>
          jsonResponse 200 (emptyResult\<lparr>rrStatus := StatusSuccess,
            rrMessage := ''Certificate re-issued for '' @ domain @ '' (persistent key reused, SPKI unchanged)'',
            rrRenewed := renewed\<rparr>)
      | Some e \<Rightarrow>
          if errIs e ErrOrderNotPersisted
          then jsonResponse 202 (emptyResult\<lparr>rrStatus := StatusStored, rrError := et e, rrRenewed := [domain]\<rparr>)
          else jsonResponse 500 (emptyResult\<lparr>rrStatus := StatusError, rrError := et e\<rparr>))"

text \<open>
  A request as the two ends see it: the URL, the domain parameter of its query, the body, and the
  offset at which the JSON value in the body ends.
\<close>

record httpRequest =
  rqMethod :: string
  rqURL :: string
  rqQueryDomain :: string
  rqBody :: "blob option"
  rqBodyEnd :: nat

text \<open>
  \<open>Decode\<close> into a struct with the one member domain, its error ignored: nothing is set when the
  value is cut off or is not JSON, and a member of the wrong kind is skipped.
\<close>

fun lastString :: "string \<Rightarrow> (string \<times> json) list \<Rightarrow> string \<Rightarrow> string" where
  "lastString name [] acc = acc"
| "lastString name ((k, v) # kvs) acc =
     lastString name kvs (if ToLower k = ToLower name then (case v of JStr x \<Rightarrow> x | _ \<Rightarrow> acc) else acc)"

definition bodyDomain :: "httpRequest \<Rightarrow> string" where
  "bodyDomain rq =
     (case rqBody rq of
        Some (Json (JObj ms)) \<Rightarrow> if rqBodyEnd rq \<le> 1024 then lastString ''domain'' ms [] else []
      | _ \<Rightarrow> [])"

type_synonym 'w Renewer = "string \<Rightarrow> ('w, string list) io"

definition RenewHandler ::
  "(error \<Rightarrow> string) \<Rightarrow> ('w \<Rightarrow> 'w Renewer option) option \<Rightarrow> httpRequest \<Rightarrow> 'w \<Rightarrow> httpResponse \<times> 'w" where
  "RenewHandler et renewer rq w =
     (if rqMethod rq \<noteq> ''POST''
      then (\<lparr>rsStatus = 405, rsContentType = ''text/plain; charset=utf-8'', rsBody = Text ''Method not allowed''\<rparr>, w)
      else
        (case (case renewer of None \<Rightarrow> None | Some f \<Rightarrow> f w) of
           None \<Rightarrow>
             (jsonResponse 501 (emptyResult\<lparr>rrStatus := StatusError, rrError := ''certificate renewal not configured''\<rparr>), w)
         | Some renew \<Rightarrow>
             (let domain = (if rqQueryDomain rq = [] then bodyDomain rq else rqQueryDomain rq) in
              if domain = []
              then (jsonResponse 400 (emptyResult\<lparr>rrStatus := StatusError, rrError := ''domain parameter is required''\<rparr>), w)
              else
                (case renew domain w of
                   (Inr renewed, w1) \<Rightarrow> (WriteRenewResult et domain renewed None, w1)
                 | (Inl e, w1) \<Rightarrow> (WriteRenewResult et domain [] (Some e), w1)))))"

section \<open>The client\<close>

datatype renewLine =
    LnRenewing string | LnAllowance
  | LnUnreachable | LnUnknownOutcome | LnDoNotRerun
  | LnNotAvailable | LnFailed | LnUnreadable nat
  | LnOrdered | LnNotStored | LnInService | LnServing | LnCheckListing
  | LnText string | LnStatus nat

definition RenewTransportFailure :: "(error \<Rightarrow> string) \<Rightarrow> error \<Rightarrow> renewLine list \<times> int" where
  "RenewTransportFailure et err =
     (if errIs err DialError then ([LnUnreachable, LnText (et err)], RenewExitFailed)
      else ([LnUnknownOutcome, LnText (et err), LnDoNotRerun], RenewExitStored))"

definition RenewPreamble :: "string \<Rightarrow> renewLine list" where
  "RenewPreamble domain = [LnRenewing domain, LnAllowance]"

definition textLine :: "string \<Rightarrow> renewLine list" where
  "textLine x = (if x = [] then [] else [LnText x])"

definition RenewOutcome :: "nat \<Rightarrow> blob \<Rightarrow> renewLine list \<times> int" where
  "RenewOutcome httpStatus body =
     (if httpStatus = 404 \<or> httpStatus = 501 then ([LnNotAvailable], RenewExitFailed)
      else
        (case decodeResult body of
           Inl _ \<Rightarrow> ([LnFailed, LnUnreadable httpStatus], RenewExitFailed)
         | Inr r \<Rightarrow>
             if rrStatus r = StatusSuccess
             then ([LnOrdered] @ textLine (rrMessage r) @ map LnText (rrRenewed r) @ [LnInService], RenewExitOK)
             else if rrStatus r = StatusStored
             then ([LnNotStored] @ textLine (rrError r) @ map LnText (rrRenewed r) @ [LnServing, LnDoNotRerun], RenewExitStored)
             else ([LnFailed] @ (if rrError r \<noteq> [] then [LnText (rrError r)] else [LnStatus httpStatus]) @ [LnCheckListing],
                   RenewExitFailed)))"

text \<open>
  What \<open>Renew\<close> uses of net/http and encoding/json: the request a URL makes, the length of a JSON
  text, and one exchange under a time limit, which fails or answers with a status and the outcome
  of reading the body.
\<close>

record 'w httpClient =
  hcURLError :: "string \<Rightarrow> error option"
  hcQueryDomain :: "string \<Rightarrow> string"
  hcJsonSize :: "json \<Rightarrow> nat"
  hcDo :: "duration \<Rightarrow> httpRequest \<Rightarrow> ('w, nat \<times> (error + blob)) io"

definition renewRequest :: "'w httpClient \<Rightarrow> string \<Rightarrow> string \<Rightarrow> httpRequest" where
  "renewRequest hc endpoint domain =
     (let body = JObj [(''domain'', JStr domain)] in
      \<lparr>rqMethod = ''POST'', rqURL = endpoint, rqQueryDomain = hcQueryDomain hc endpoint, rqBody = Some (Json body),
       rqBodyEnd = hcJsonSize hc body\<rparr>)"

definition Renew ::
  "'w httpClient \<Rightarrow> (error \<Rightarrow> string) \<Rightarrow> string \<Rightarrow> string \<Rightarrow> (httpRequest \<Rightarrow> httpRequest) option \<Rightarrow>
     'w \<Rightarrow> renewLine list \<times> int \<times> 'w" where
  "Renew hc et endpoint domain authorize w =
     (case hcURLError hc endpoint of
        Some e \<Rightarrow> (RenewPreamble domain @ [LnFailed, LnText (et e)], RenewExitFailed, w)
      | None \<Rightarrow>
          (let rq0 = renewRequest hc endpoint domain;
               rq = (case authorize of None \<Rightarrow> rq0 | Some f \<Rightarrow> f rq0)
           in case hcDo hc RenewTimeout rq w of
                (Inl e, w1) \<Rightarrow>
                  (case RenewTransportFailure et e of (ls, code) \<Rightarrow> (RenewPreamble domain @ ls, code, w1))
              | (Inr (status, Inl e), w1) \<Rightarrow>
                  (case RenewTransportFailure et e of (ls, code) \<Rightarrow> (RenewPreamble domain @ ls, code, w1))
              | (Inr (status, Inr raw), w1) \<Rightarrow>
                  (case RenewOutcome status raw of (ls, code) \<Rightarrow> (RenewPreamble domain @ ls, code, w1))))"

section \<open>Lemmas\<close>

lemma field_names [simp]:
  "ToLower ''status'' = ''status''" "ToLower ''message'' = ''message''" "ToLower ''error'' = ''error''"
  "ToLower ''renewed'' = ''renewed''" "ToLower ''domain'' = ''domain''"
  by (simp_all add: ToLower_def lower_byte_def)

text \<open>A result survives the wire.\<close>

lemma decode_encode [simp]: "decodeResult (Json (encodeResult r)) = Inr r"
  by (auto simp: decodeResult_def encodeResult_def)

lemma RenewOutcome_written:
  "snd (RenewOutcome (rsStatus (WriteRenewResult et d names err)) (rsBody (WriteRenewResult et d names err))) =
     (case err of None \<Rightarrow> RenewExitOK
      | Some e \<Rightarrow> if errIs e ErrOrderNotPersisted then RenewExitStored else RenewExitFailed)"
  by (auto simp: WriteRenewResult_def jsonResponse_def RenewOutcome_def emptyResult_def StatusSuccess_def
      StatusStored_def StatusError_def split: option.splits)

text \<open>
  An exchange in which the request reaches the handler and the answer reaches the client, with the
  domain in the body.
\<close>

locale renewal_exchange =
  fixes hc :: "'w httpClient" and et :: "error \<Rightarrow> string" and endpoint :: string and renew :: "'w Renewer"
  assumes url_ok: "hcURLError hc endpoint = None"
    and no_query: "hcQueryDomain hc endpoint = []"
    and delivered: "hcDo hc RenewTimeout rq w =
      (case RenewHandler et (Some (\<lambda>_. Some renew)) rq w of (rs, w1) \<Rightarrow> (Inr (rsStatus rs, Inr (rsBody rs)), w1))"
begin

lemma handler_renews:
  assumes "d \<noteq> []" and "hcJsonSize hc (JObj [(''domain'', JStr d)]) \<le> 1024"
  shows "RenewHandler et (Some (\<lambda>_. Some renew)) (renewRequest hc endpoint d) w =
    (case renew d w of
       (Inr names, w1) \<Rightarrow> (WriteRenewResult et d names None, w1)
     | (Inl e, w1) \<Rightarrow> (WriteRenewResult et d [] (Some e), w1))"
  using assms by (simp add: RenewHandler_def renewRequest_def bodyDomain_def no_query Let_def)

lemma exit_code:
  assumes "d \<noteq> []" and "hcJsonSize hc (JObj [(''domain'', JStr d)]) \<le> 1024"
    and "Renew hc et endpoint d None w = (ls, code, w')"
  shows "w' = snd (renew d w) \<and>
    code = (case fst (renew d w) of Inr _ \<Rightarrow> RenewExitOK
            | Inl e \<Rightarrow> if errIs e ErrOrderNotPersisted then RenewExitStored else RenewExitFailed)"
proof -
  obtain r w1 where r: "renew d w = (r, w1)" by fastforce
  define rs where "rs = (case r of Inr names \<Rightarrow> WriteRenewResult et d names None | Inl e \<Rightarrow> WriteRenewResult et d [] (Some e))"
  have "hcDo hc RenewTimeout (renewRequest hc endpoint d) w = (Inr (rsStatus rs, Inr (rsBody rs)), w1)"
    unfolding delivered handler_renews [OF assms(1,2)] r rs_def by (cases r) simp_all
  with assms(3) have "code = snd (RenewOutcome (rsStatus rs) (rsBody rs))" "w' = w1"
    by (auto simp: Renew_def url_ok Let_def split: prod.splits)
  then show ?thesis using r RenewOutcome_written by (cases r) (auto simp: rs_def)
qed

end

text \<open>A client wired straight to the handler.\<close>

definition loopback :: "(error \<Rightarrow> string) \<Rightarrow> 'w Renewer \<Rightarrow> 'w httpClient" where
  "loopback et renew =
     \<lparr>hcURLError = (\<lambda>_. None), hcQueryDomain = (\<lambda>_. []),
      hcJsonSize = (\<lambda>j. case j of JObj [(k, JStr x)] \<Rightarrow> length k + length x + 7 | _ \<Rightarrow> 0),
      hcDo = (\<lambda>_ rq w. case RenewHandler et (Some (\<lambda>_. Some renew)) rq w of
        (rs, w1) \<Rightarrow> (Inr (rsStatus rs, Inr (rsBody rs)), w1))\<rparr>"

interpretation loop: renewal_exchange "loopback et renew" et endpoint renew for et endpoint renew
  by unfold_locales (simp_all add: loopback_def)

lemma RenewCertificate_ok:
  assumes "RenewCertificate m d (s, n) = (Inr names, s', n')"
  shows "\<exists>cert. ccGet (normalizeDomain (ToASCII (mgHost m)) d) n' = Some cert \<and> certOK cert"
proof -
  let ?d = "normalizeDomain (ToASCII (mgHost m)) d"
  from assms obtain certKey s2 n2 cert s3 n3 where
    iss: "issueWithKey m ?d certKey True (s2, n2) = (Inr cert, s3, n3)" and n': "n' = unlock ?d n3"
    by (auto simp: RenewCertificate_def withLock_def bindIO_def onWorld_def Let_def split: if_splits prod.splits sum.splits)
  from forced_issue_ok [OF iss] n' show ?thesis by (auto simp: unlock_def ccGet_def)
qed

section \<open>Properties\<close>

text \<open>
  C26: the exit code of the admin command tells what became of the order. When request and answer
  get through, it is 0 exactly when the renewal succeeded, and then the node serves a certificate
  that fits its key; 2 exactly when the manager reported an order that is paid for but not
  stored; and 1 for every other failure. The command changes nothing the renewal did not.
\<close>

theorem renew_exit_code_exact:
  assumes "renewal_exchange hc et endpoint (RenewCertificate m)"
    and "d \<noteq> []" and "hcJsonSize hc (JObj [(''domain'', JStr d)]) \<le> 1024"
    and "Renew hc et endpoint d None (s, n) = (ls, code, s', n')"
  shows "(s', n') = snd (RenewCertificate m d (s, n)) \<and>
    (code = RenewExitOK \<longleftrightarrow> isOk (fst (RenewCertificate m d (s, n)))) \<and>
    (code = RenewExitStored \<longleftrightarrow> (\<exists>e. fst (RenewCertificate m d (s, n)) = Inl e \<and> errIs e ErrOrderNotPersisted)) \<and>
    (code = RenewExitOK \<longrightarrow> (\<exists>cert. ccGet (normalizeDomain (ToASCII (mgHost m)) d) n' = Some cert \<and> certOK cert))"
proof -
  note c = renewal_exchange.exit_code [OF assms]
  obtain r where r: "RenewCertificate m d (s, n) = (r, s', n')" using c by (metis prod.collapse)
  show ?thesis
    using c r RenewCertificate_ok [of m d s n _ s' n']
    by (cases r) (auto simp: RenewExitOK_def RenewExitStored_def RenewExitFailed_def)
qed

theorem renew_exit_code_exact_witness:
  "\<exists>ls s' n'. Renew (loopback (\<lambda>_. ''e'') (RenewCertificate (sampleManager grants))) (\<lambda>_. ''e'') ''u'' ''a'' None (keyedDisk, sampleNode) =
     (ls, RenewExitOK, s', n') \<and> (\<exists>cert. ccGet ''a'' n' = Some cert \<and> certOK cert)"
proof -
  let ?m = "sampleManager grants"
  let ?hc = "loopback (\<lambda>_. ''e'') (RenewCertificate ?m)"
  define out where "out = Renew ?hc (\<lambda>_. ''e'') ''u'' ''a'' None (keyedDisk, sampleNode)"
  obtain ls code s' n' where r: "out = (ls, code, s', n')" by (metis prod.exhaust)
  have "isOk (fst (RenewCertificate ?m ''a'' (keyedDisk, sampleNode)))" by code_simp
  moreover have "hcJsonSize ?hc (JObj [(''domain'', JStr ''a'')]) \<le> 1024" by (simp add: loopback_def)
  moreover have "normalizeDomain (ToASCII (mgHost ?m)) ''a'' = ''a''" by code_simp
  ultimately have "code = RenewExitOK \<and> (\<exists>cert. ccGet ''a'' n' = Some cert \<and> certOK cert)"
    using renew_exit_code_exact [OF loop.renewal_exchange_axioms _ _ r [unfolded out_def]] by auto
  then show ?thesis using r unfolding out_def by blast
qed

text \<open>
  C38: when the command exits with the code automation retries on, one of these happened: the URL
  made no request, the connection was never made, the endpoint is not there, the answer said
  failure, or the answer was not one of this handler's. A request that failed with anything but a
  failed dial never exits that way.
\<close>

theorem retryable_exit_reasons:
  assumes "Renew hc et endpoint d authorize w = (ls, RenewExitFailed, w')"
  shows "hcURLError hc endpoint \<noteq> None \<or>
    (\<exists>rq. (\<exists>e. hcDo hc RenewTimeout rq w = (Inl e, w') \<and> errIs e DialError) \<or>
      (\<exists>status e. hcDo hc RenewTimeout rq w = (Inr (status, Inl e), w') \<and> errIs e DialError) \<or>
      (\<exists>status raw. hcDo hc RenewTimeout rq w = (Inr (status, Inr raw), w') \<and>
         (status \<in> {404, 501} \<or> (\<exists>e. decodeResult raw = Inl e) \<or>
          (\<exists>r. decodeResult raw = Inr r \<and> rrStatus r \<notin> {StatusSuccess, StatusStored}))))"
proof (cases "hcURLError hc endpoint")
  case None
  define rq where "rq = (case authorize of None \<Rightarrow> renewRequest hc endpoint d | Some f \<Rightarrow> f (renewRequest hc endpoint d))"
  obtain r w1 where D: "hcDo hc RenewTimeout rq w = (r, w1)" by fastforce
  have codes: "RenewExitFailed \<noteq> RenewExitOK" "RenewExitFailed \<noteq> RenewExitStored" "RenewExitStored \<noteq> RenewExitFailed" "RenewExitOK \<noteq> RenewExitFailed"
    by (simp_all add: RenewExitOK_def RenewExitStored_def RenewExitFailed_def)
  have lost: "snd (RenewTransportFailure et e) = RenewExitFailed \<longleftrightarrow> errIs e DialError" for e
    by (simp add: RenewTransportFailure_def codes)
  have read: "snd (RenewOutcome status raw) = RenewExitFailed \<Longrightarrow> status \<in> {404, 501} \<or> (\<exists>e. decodeResult raw = Inl e) \<or>
      (\<exists>r. decodeResult raw = Inr r \<and> rrStatus r \<notin> {StatusSuccess, StatusStored})" for status raw
    by (auto simp: RenewOutcome_def codes split: if_splits sum.splits)
  show ?thesis
  proof (cases r)
    case (Inl e)
    then have "w' = w1" "snd (RenewTransportFailure et e) = RenewExitFailed"
      using assms None D by (auto simp: Renew_def Let_def rq_def [symmetric] split: prod.splits)
    then show ?thesis using Inl D lost by blast
  next
    case (Inr sb)
    then obtain status b where sb: "r = Inr (status, b)" by (cases sb) auto
    show ?thesis
    proof (cases b)
      case (Inl e)
      then have "w' = w1" "snd (RenewTransportFailure et e) = RenewExitFailed"
        using assms None D sb by (auto simp: Renew_def Let_def rq_def [symmetric] split: prod.splits)
      then show ?thesis using Inl sb D lost by blast
    next
      case (Inr raw)
      then have "w' = w1" "snd (RenewOutcome status raw) = RenewExitFailed"
        using assms None D sb by (auto simp: Renew_def Let_def rq_def [symmetric] split: prod.splits)
      then show ?thesis using Inr sb D read [of status raw] by blast
    qed
  qed
qed simp

text \<open>A proxy in front of the service that gives up waiting and answers with a page of its own.\<close>

definition impatientProxy :: "'w Renewer \<Rightarrow> 'w httpClient" where
  "impatientProxy renew =
     (loopback (\<lambda>_. []) renew)\<lparr>hcDo := (\<lambda>_ rq w. (Inr (504, Inr (Text ''Gateway Timeout'')), snd (RenewHandler (\<lambda>_. []) (Some (\<lambda>_. Some renew)) rq w)))\<rparr>"

theorem retryable_exit_reasons_witness:
  "\<exists>ls s' n' status raw. Renew (impatientProxy (RenewCertificate (sampleManager grants))) (\<lambda>_. []) ''u'' ''a'' None (keyedDisk, sampleNode) =
     (ls, RenewExitFailed, s', n') \<and> decodeResult raw = Inl [Msg ''json: syntax error''] \<and>
     (\<exists>rq. hcDo (impatientProxy (RenewCertificate (sampleManager grants))) RenewTimeout rq (keyedDisk, sampleNode) = (Inr (status, Inr raw), s', n'))"
proof -
  let ?hc = "impatientProxy (RenewCertificate (sampleManager grants))"
  define out where "out = Renew ?hc (\<lambda>_. []) ''u'' ''a'' None (keyedDisk, sampleNode)"
  obtain ls code s' n' where r: "out = (ls, code, s', n')" by (metis prod.exhaust)
  have "code = RenewExitFailed"
    using r by (auto simp: out_def Renew_def impatientProxy_def loopback_def RenewOutcome_def decodeResult_def)
  with retryable_exit_reasons [of ?hc "\<lambda>_. []" "''u''" "''a''" None "(keyedDisk, sampleNode)" ls "(s', n')"] r show ?thesis
    by (auto simp: out_def impatientProxy_def loopback_def decodeResult_def)
qed

end
