(* ===== verification/S3.thy ===== *)
theory S3
  imports Backend
begin

text \<open>
  storage/s3_backend.go: the object store on S3. The SDK client is a parameter, a record of the
  calls the backend makes; what S3 documents about one call is the locale \<open>s3_service\<close>, in which
  the backend is shown to keep the contract every component relies on. The theory ends with an
  in-memory service as an instance, and with what the retries configured in storage/s3_client.go
  do to a create-once put.
\<close>

section \<open>The SDK\<close>

text \<open>
  The types of the modelled API errors that \<open>errors.As\<close> looks for, each with its error code; any
  other failure (transport, context) is not an \<open>APIError\<close>.
\<close>

datatype s3Type = TNoSuchKey | TNotFound | TNoSuchBucket | TBucketAlreadyExists | TBucketAlreadyOwnedByYou | TOther

datatype s3Error = ApiError s3Type string | SdkError error

definition ErrorCode :: "s3Error \<Rightarrow> string option" where
  "ErrorCode e = (case e of ApiError _ code \<Rightarrow> Some code | SdkError _ \<Rightarrow> None)"

definition isType :: "s3Error \<Rightarrow> s3Type \<Rightarrow> bool" where
  "isType e t = (case e of ApiError t' _ \<Rightarrow> t' = t | SdkError _ \<Rightarrow> False)"





section \<open>The backend\<close>















section \<open>What S3 promises\<close>


text \<open>The error codes of a put that S3 refused without writing.\<close>

definition refusedPut :: "s3Error \<Rightarrow> bool" where
  "refusedPut err = (ErrorCode err \<in> Some ` {''PreconditionFailed'', ''ConditionalRequestConflict'', ''NoSuchKey'', ''NotFound''})"




section \<open>An instance\<close>

text \<open>
  A bucket in memory, with a fresh ETag for every write. The answers to the requests whose number
  \<open>msLost\<close> names are lost on the way back.
\<close>

record memS3 =
  msObjects :: "(string \<times> blob \<times> string) list"
  msCount :: nat
  msLost :: "nat \<Rightarrow> bool"

definition memView :: "memS3 \<Rightarrow> objects" where
  "memView s = map_of (msObjects s)"

definition answer :: "memS3 \<Rightarrow> (s3Error + 'a) \<Rightarrow> (s3Error + 'a) \<times> memS3" where
  "answer s r =
     ((if msLost s (msCount s) then Inl (SdkError [Msg ''timeout'']) else r), s\<lparr>msCount := Suc (msCount s)\<rparr>)"









lemma answer_view [simp]: "answer s r = (r', s') \<Longrightarrow> memView s' = memView s"
  by (auto simp: answer_def memView_def)

lemma memView_update [simp]: "memView (s\<lparr>msObjects := AList.update k x (msObjects s)\<rparr>) = (memView s)(k \<mapsto> x)"
  by (simp add: memView_def)

lemma memView_delete [simp]: "memView (s\<lparr>msObjects := AList.delete k (msObjects s)\<rparr>) = (memView s)(k := None)"
  by (simp add: memView_def)


lemma SdkError_no_type [simp]: "\<not> isType (SdkError e) t" "\<not> refusedPut (SdkError e)"
  by (auto simp: isType_def refusedPut_def ErrorCode_def)




section \<open>storage/s3\_client.go\<close>








section \<open>Properties\<close>





end
