(* ===== verification/FileProvider.thy ===== *)
theory FileProvider
  imports CertCache
begin

text \<open>
  file\_provider.go: a certificate read from two files, kept in memory, replaced only by a reload
  that succeeds. \<open>tls.LoadX509KeyPair\<close> of the standard library is modelled on the blocks of the
  two files.
\<close>

section \<open>tls.LoadX509KeyPair\<close>

definition isKeyBlock :: "pem_block \<Rightarrow> bool" where
  "isKeyBlock b = (pemType b = ''PRIVATE KEY'' \<or> HasSuffix (pemType b) '' PRIVATE KEY'')"

definition X509KeyPair :: "blob \<Rightarrow> blob \<Rightarrow> error + certificate" where
  "X509KeyPair certPEM keyPEM =
     (case certBlocks (pemBlocks certPEM) of
        [] \<Rightarrow> Inl [Msg ''tls: failed to find any PEM data in certificate input'']
      | d0 # ds \<Rightarrow>
          (case filter isKeyBlock (pemBlocks keyPEM) of
             [] \<Rightarrow> Inl [Msg ''tls: failed to find any PEM data in key input'']
           | kb # _ \<Rightarrow>
               (case ParseCertificate d0 of
                  Inl e \<Rightarrow> Inl e
                | Inr leaf \<Rightarrow>
                    (case ParsePKCS8PrivateKey (pemBytes kb) of
                       Inr (SignerKey key) \<Rightarrow>
                         if Public key \<noteq> PublicKey leaf then Inl [Msg ''tls: private key does not match public key'']
                         else Inr \<lparr>Certificate = d0 # ds, PrivateKey = SignerKey key, Leaf = Some leaf\<rparr>
                     | _ \<Rightarrow> Inl [Msg ''tls: failed to parse private key'']))))"

definition LoadX509KeyPair :: "string \<Rightarrow> string \<Rightarrow> (fs, certificate) io" where
  "LoadX509KeyPair certFile keyFile =
     bindIO (readFile certFile) (\<lambda>certPEM. bindIO (readFile keyFile) (\<lambda>keyPEM s. (X509KeyPair certPEM keyPEM, s)))"

section \<open>The provider\<close>

record FileCertProvider =
  certFile :: string
  keyFile :: string
  fpCert :: "certificate option"

definition Reload :: "FileCertProvider \<Rightarrow> fs \<Rightarrow> (error + unit) \<times> FileCertProvider \<times> fs" where
  "Reload p s =
     (case LoadX509KeyPair (certFile p) (keyFile p) s of
        (Inl e, s1) \<Rightarrow> (Inl (Msg ''load certificate'' # e), p, s1)
      | (Inr cert, s1) \<Rightarrow> (Inr (), p\<lparr>fpCert := Some cert\<rparr>, s1))"

definition NewFileCertProvider :: "string \<Rightarrow> string \<Rightarrow> fs \<Rightarrow> (error + FileCertProvider) \<times> fs" where
  "NewFileCertProvider cf kf s =
     (case Reload \<lparr>certFile = cf, keyFile = kf, fpCert = None\<rparr> s of
        (Inl e, _, s1) \<Rightarrow> (Inl (Msg ''initial certificate load'' # e), s1)
      | (Inr _, p, s1) \<Rightarrow> (Inr p, s1))"

definition fpGetCertificate :: "FileCertProvider \<Rightarrow> error + certificate" where
  "fpGetCertificate p = (case fpCert p of None \<Rightarrow> Inl [Msg ''no certificate loaded''] | Some cert \<Rightarrow> Inr cert)"

text \<open>The life of a provider: reloads, on a disk that anyone may change in between.\<close>

inductive fpReach :: "FileCertProvider \<Rightarrow> bool" where
  fpStart: "NewFileCertProvider cf kf s = (Inr p, s') \<Longrightarrow> fpReach p"
| fpReload: "fpReach p \<Longrightarrow> Reload p s = (r, p', s') \<Longrightarrow> fpReach p'"

lemma X509KeyPair_ok: "X509KeyPair c k = Inr cert \<Longrightarrow> certOK cert \<and> Certificate cert = certBlocks (pemBlocks c)"
  by (auto simp: X509KeyPair_def certOK_def split: list.splits sum.splits privkey.splits if_splits)

lemma Reload_cases:
  assumes "Reload p s = (r, p', s')"
  obtains (failed) e where "r = Inl e" "p' = p"
    | (loaded) cert where "r = Inr ()" "p' = p\<lparr>fpCert := Some cert\<rparr>" "certOK cert"
  using assms
  by (auto simp: Reload_def LoadX509KeyPair_def bindIO_def split: prod.splits sum.splits dest!: X509KeyPair_ok)

section \<open>Properties\<close>

text \<open>
  C40: a provider that came up always has a certificate to serve, whatever happens to the files
  afterwards: its key fits its leaf, and a reload that fails leaves the one it had.
\<close>

theorem file_provider_always_serves:
  assumes "fpReach p"
  shows "(\<exists>cert. fpGetCertificate p = Inr cert \<and> certOK cert) \<and>
    (\<forall>s e p' s'. Reload p s = (Inl e, p', s') \<longrightarrow> fpGetCertificate p' = fpGetCertificate p)"
  using assms
proof induction
  case (fpStart cf kf s p s')
  then obtain s1 where "Reload \<lparr>certFile = cf, keyFile = kf, fpCert = None\<rparr> s = (Inr (), p, s1)"
    by (auto simp: NewFileCertProvider_def split: prod.splits sum.splits)
  then show ?case by (cases rule: Reload_cases) (auto simp: fpGetCertificate_def elim!: Reload_cases)
next
  case (fpReload p s r p' s')
  from fpReload(2) show ?case
    by (cases rule: Reload_cases) (use fpReload.IH in \<open>auto simp: fpGetCertificate_def elim!: Reload_cases\<close>)
qed

definition fileDisk :: fs where
  "fileDisk = sampleDisk [(''c'', sampleChain), (''k'', marshalKeyPEM (sampleKey ''x''))]"

theorem file_provider_always_serves_witness:
  "\<exists>p s' cert. NewFileCertProvider ''/d/c'' ''/d/k'' fileDisk = (Inr p, s') \<and> fpGetCertificate p = Inr cert \<and> certOK cert"
proof -
  have "isOk (fst (NewFileCertProvider ''/d/c'' ''/d/k'' fileDisk))" by code_simp
  then obtain p s' where p: "NewFileCertProvider ''/d/c'' ''/d/k'' fileDisk = (Inr p, s')" by (metis isOk_E prod.collapse)
  with file_provider_always_serves [OF fpStart [OF p]] show ?thesis by blast
qed

end
