(* ===== verification/NodeInvariant.thy ===== *)
theory NodeInvariant
  imports Scheduler
begin

text \<open>
  Invariants of a node's memory, proved once for every operation of the manager and the scheduler.
  The locale \<open>node_invariant\<close> says what an invariant has to survive: setting a certificate that
  fits its key, holding a chain, letting one go, and any change that leaves the certificates, the
  held chains and the limit of the retry budget alone. In it every operation is shown to preserve
  the invariant; its interpretations are the node's well-formedness and "a name that is served
  stays served".
\<close>

section \<open>Preservation\<close>

definition keeps :: "(node \<Rightarrow> bool) \<Rightarrow> ('s \<times> node \<Rightarrow> 'a \<times> 's \<times> node) \<Rightarrow> bool" where
  "keeps P f = (\<forall>w. P (snd w) \<longrightarrow> P (snd (snd (f w))))"

definition keeps1 :: "(node \<Rightarrow> bool) \<Rightarrow> ('s \<times> node \<Rightarrow> 's \<times> node) \<Rightarrow> bool" where
  "keeps1 P f = (\<forall>w. P (snd w) \<longrightarrow> P (snd (f w)))"

lemma keepsI: "(\<And>s n r s' n'. f (s, n) = (r, s', n') \<Longrightarrow> P n \<Longrightarrow> P n') \<Longrightarrow> keeps P f"
  unfolding keeps_def by (metis prod.collapse)

lemma keepsD: "keeps P f \<Longrightarrow> f w = (r, s', n') \<Longrightarrow> P (snd w) \<Longrightarrow> P n'"
  unfolding keeps_def by (metis snd_conv)

lemma keeps1I: "(\<And>s n s' n'. f (s, n) = (s', n') \<Longrightarrow> P n \<Longrightarrow> P n') \<Longrightarrow> keeps1 P f"
  unfolding keeps1_def by (metis prod.collapse)

lemma keeps1D: "keeps1 P f \<Longrightarrow> f w = (s', n') \<Longrightarrow> P (snd w) \<Longrightarrow> P n'"
  unfolding keeps1_def by (metis snd_conv)

lemma keeps_snd: "keeps P f \<Longrightarrow> keeps1 P (\<lambda>w. snd (f w))"
  by (simp add: keeps_def keeps1_def)

lemma keeps_bindIO:
  assumes "keeps P f" and "\<And>a. keeps P (g a)"
  shows "keeps P (bindIO f g)"
proof (rule keepsI)
  fix s n r s' n' assume run: "bindIO f g (s, n) = (r, s', n')" and P: "P n"
  obtain r1 s1 n1 where f: "f (s, n) = (r1, s1, n1)" by (metis prod.collapse)
  with P have "P n1" using keepsD [OF assms(1) f] by simp
  with run f show "P n'" using keepsD [OF assms(2), of _ "(s1, n1)" r s' n'] by (cases r1) (auto simp: bindIO_def)
qed

lemma keeps_onWorld: "keeps P (onWorld f)"
  by (auto simp: keeps_def onWorld_def split: prod.splits)

lemma keeps_return: "keeps P (Pair x)"
  by (simp add: keeps_def)

lemma keeps1_fold: "(\<And>x. keeps1 P (f x)) \<Longrightarrow> keeps1 P (fold f xs)"
proof (induction xs)
  case (Cons x xs)
  then have "keeps1 P (f x)" "keeps1 P (fold f xs)" by blast+
  then show ?case unfolding keeps1_def by (simp del: split_paired_All)
qed (simp add: keeps1_def)

lemmas keeps_intros = keeps_bindIO keeps_onWorld keeps_return keeps1_fold keeps_snd

lemma lcLoad_certOK: "lcLoad l d t disk = (Inr cert, disk') \<Longrightarrow> certOK cert"
  by (auto simp: lcLoad_def split: sum.splits prod.splits dest: parseCopy_sound)

section \<open>The operations\<close>

definition limitOf :: "retryBudget option \<Rightarrow> int option" where
  "limitOf bo = map_option rbMax bo"

lemma limitOf_reset [simp]: "limitOf (rbReset d bo) = limitOf bo"
  by (auto simp: limitOf_def rbReset_def split: option.splits)

lemma limitOf_block [simp]: "limitOf (rbBlock d t bo) = limitOf bo"
  by (auto simp: limitOf_def rbBlock_def split: option.splits)

lemma limitOf_failure [simp]: "limitOf (rbRecordFailure t d bo) = limitOf bo"
  by (auto simp: limitOf_def rbRecordFailure_def rbPrune_def Let_def split: option.splits prod.splits)

lemma limitOf_allow: "rbAllow t d bo = (r, bo') \<Longrightarrow> limitOf bo' = limitOf bo"
  by (auto simp: limitOf_def rbAllow_def rbPrune_def Let_def split: option.splits if_splits prod.splits)

locale node_invariant =
  fixes P :: "node \<Rightarrow> bool"
  assumes set_law: "P n \<Longrightarrow> certOK cert \<Longrightarrow> P (ccSet d cert n)"
    and hold_law: "P n \<Longrightarrow> certOK cert \<Longrightarrow> Certificate cert = certBlocks (pemBlocks chain) \<Longrightarrow> P (hold d cert chain n)"
    and drop_law: "P n \<Longrightarrow> P (dropPending d n)"
    and other_law: "P n \<Longrightarrow> ccMem n' = ccMem n \<Longrightarrow> ccPending n' = ccPending n \<Longrightarrow>
      limitOf (ndRetries n') = limitOf (ndRetries n) \<Longrightarrow> P n'"
begin

lemma other_fields [simp]:
  "P (n\<lparr>ndOd := a\<rparr>) = P n" "P (n\<lparr>ndIss := b\<rparr>) = P n" "P (n\<lparr>ndIssuer := c\<rparr>) = P n"
  "P (n\<lparr>ndInflight := d\<rparr>) = P n" "P (n\<lparr>ndIssuing := e\<rparr>) = P n" "P (n\<lparr>ndJobs := f\<rparr>) = P n"
  "P (n\<lparr>ndServedReports := g\<rparr>) = P n" "P (n\<lparr>ndDaneReports := h\<rparr>) = P n"
  "P (n\<lparr>ccDisk := i\<rparr>) = P n" "P (n\<lparr>ccNeg := j\<rparr>) = P n" "P (n\<lparr>ccFromLocal := k\<rparr>) = P n"
  by (auto elim!: other_law)

lemma budget_same: "limitOf b = limitOf (ndRetries n) \<Longrightarrow> P (n\<lparr>ndRetries := b\<rparr>) = P n"
  by (auto elim!: other_law)

lemma budget_ops [simp]:
  "P (onRetries (rbReset d) n) = P n" "P (onRetries (rbBlock d t) n) = P n" "P (onRetries (rbRecordFailure t d) n) = P n"
  by (simp_all add: onRetries_def budget_same)

lemma lock_ops [simp]: "P (unlock d n) = P n" "P (noteMiss t d n) = P n" "P (requestIssue d b n) = P n"
  by (simp_all add: unlock_def noteMiss_def requestIssue_def Let_def)

lemma tryLock_P: "tryLock d n = Some n' \<Longrightarrow> P n' = P n"
  by (auto simp: tryLock_def split: if_splits)

lemma confirmed_P [simp]: "P (confirmed c d cert n) = P n"
  by (simp add: confirmed_def Let_def split: option.splits)

lemma chargeFailure_keeps: "keeps1 P (chargeFailure m d)"
  by (auto simp: keeps1_def chargeFailure_def split: prod.splits)

lemma onOd_keeps: "keeps P (onOd f)"
  by (auto simp: keeps_def onOd_def split: prod.splits)

lemma onIss_keeps: "keeps P (onIss f)"
  by (auto simp: keeps_def onIss_def split: prod.splits)

lemma withLock_keeps: "keeps P f \<Longrightarrow> keeps P (withLock d f)"
  by (rule keepsI) (auto simp: withLock_def split: prod.splits dest: keepsD)

lemma refresh_keeps: "keeps P (ccRefresh c d)"
proof (rule keepsI)
  fix s n r s' n' assume run: "ccRefresh c d (s, n) = (r, s', n')" and P: "P n"
  from run show "P n'" by (cases rule: ccRefresh_cases) (use P set_law in auto)
qed

lemma store_keeps:
  assumes "ccStore c d chain k (s, n) = (r, s', n')" and "P n"
  shows "P n' \<and> (\<forall>cert e. r = StoreUnwritten cert e \<longrightarrow> certOK cert \<and> Certificate cert = certBlocks (pemBlocks chain))"
proof (cases "buildCertificate chain k")
  case (Inl e)
  with assms show ?thesis by (auto simp: ccStore_def)
next
  case (Inr cert)
  then have "certOK cert" "Certificate cert = certBlocks (pemBlocks chain)" by (simp_all add: buildCertificate_iff)
  with assms Inr set_law [of n cert d] drop_law [of "ccSet d cert n" d] show ?thesis
    by (auto simp: ccStore_def split: prod.splits sum.splits)
qed

lemma ensureIssuer_keeps: "keeps P (ensureIssuer m)"
  by (rule keepsI) (auto simp: ensureIssuer_def split: option.splits prod.splits sum.splits)

lemma orderAndStore_keeps: "keeps P (orderAndStore m d k)"
proof (rule keepsI)
  fix s n r s' n' assume run: "orderAndStore m d k (s, n) = (r, s', n')" and P: "P n"
  obtain r1 s1 n1 where e: "ensureIssuer m (s, n) = (r1, s1, n1)" by (metis prod.collapse)
  have P1: "P n1" using keepsD [OF ensureIssuer_keeps e] P by simp
  show "P n'"
  proof (cases r1)
    case (Inl err)
    with run e have "n' = snd (chargeFailure m d (s1, n1))" by (auto simp: orderAndStore_def)
    then show ?thesis using P1 chargeFailure_keeps [of m d] by (auto simp: keeps1_def)
  next
    case (Inr acct)
    obtain r2 s2 n2 where o: "onIss (mgNewIssuer m acct d k) (s1, n1) = (r2, s2, n2)" by (metis prod.collapse)
    have P2: "P n2" using keepsD [OF onIss_keeps o] P1 by simp
    show ?thesis
    proof (cases r2)
      case (Inl err)
      then show ?thesis using run e Inr o P2
        by (auto simp: orderAndStore_def chargeFailure_def split: option.splits)
    next
      case chain: (Inr chain)
      obtain r3 s3 n3 where st: "ccStore (mgCache m) d chain k (s2, n2) = (r3, s3, n3)" by (metis prod.collapse)
      note P3 = store_keeps [OF st P2]
      then show ?thesis using run e Inr o chain st
        by (cases r3) (auto simp: orderAndStore_def chargeFailure_def hold_law split: if_splits)
    qed
  qed
qed

lemma issueLeased_keeps: "keeps P (issueLeased m d k force)"
proof (rule keepsI)
  fix s n r s' n' assume run: "issueLeased m d k force (s, n) = (r, s', n')" and P: "P n"
  obtain r1 s1 n1 where f: "ccRefresh (mgCache m) d (s, n) = (r1, s1, n1)" by (metis prod.collapse)
  have P1: "P n1" using keepsD [OF refresh_keeps f] P by simp
  with run f show "P n'"
    using keepsD [OF orderAndStore_keeps, of m d k "(s1, n1)" r s' n']
    by (cases r1) (auto simp: issueLeased_def split: if_splits)
qed

lemma issueWithKey_keeps: "keeps P (issueWithKey m d k force)"
proof (rule keepsI)
  fix s n r s' n' assume run: "issueWithKey m d k force (s, n) = (r, s', n')" and P: "P n"
  obtain a b where al: "rbAllow (now (mgHost m) s) d (ndRetries n) = (a, b)" by fastforce
  have P0: "P (n\<lparr>ndRetries := b\<rparr>)" using P limitOf_allow [OF al] by (simp add: budget_same)
  obtain l s1 where ac: "acquireIssueLease m d s = (l, s1)" by fastforce
  obtain r1 s2 n2 where f: "ccRefresh (mgCache m) d (s1, n\<lparr>ndRetries := b\<rparr>) = (r1, s2, n2)" by (metis prod.collapse)
  obtain r3 s3 n3 where g: "issueLeased m d k force (s1, n\<lparr>ndRetries := b\<rparr>) = (r3, s3, n3)" by (metis prod.collapse)
  have "P n2" "P n3" using keepsD [OF refresh_keeps f] keepsD [OF issueLeased_keeps g] P0 by simp_all
  with run al ac f g P0 show "P n'"
    by (auto simp: issueWithKey_def Let_def split: option.splits bool.splits sum.splits if_splits)
qed

lemma obtainCert_keeps: "keeps P (obtainCert m d)"
  unfolding obtainCert_def Let_def
proof (rule withLock_keeps)
  have "keeps P (bindIO (onWorld (gateIssuance (mgDane m) (ToLower d))) (\<lambda>_.
      bindIO (onWorld (LoadOrCreateCertKey (mgKeyStore m) (ToLower d))) (\<lambda>certKey. issueWithKey m (ToLower d) certKey False)))"
    by (intro keeps_intros issueWithKey_keeps)
  then show "keeps P (\<lambda>(s, n). case ccGet (ToLower d) n of
      Some cert \<Rightarrow> (Inr cert, s, n)
    | None \<Rightarrow> bindIO (onWorld (gateIssuance (mgDane m) (ToLower d))) (\<lambda>_.
        bindIO (onWorld (LoadOrCreateCertKey (mgKeyStore m) (ToLower d))) (\<lambda>certKey. issueWithKey m (ToLower d) certKey False)) (s, n))"
    by (auto simp: keeps_def split: option.splits)
qed

lemma RenewCertificate_keeps: "keeps P (RenewCertificate m d)"
proof -
  let ?d = "normalizeDomain (ToASCII (mgHost m)) d"
  have iss: "keeps P (\<lambda>w1. case issueWithKey m ?d certKey True w1 of
      (Inl e, w2) \<Rightarrow> (Inl (Msg ''renew'' # e), w2) | (Inr _, w2) \<Rightarrow> (Inr [?d], w2))" for certKey
    by (rule keepsI) (auto split: prod.splits sum.splits dest: keepsD [OF issueWithKey_keeps])
  have "keeps P (bindIO (onWorld (LoadOrCreateCertKey (mgKeyStore m) ?d)) (\<lambda>certKey w1.
      case issueWithKey m ?d certKey True w1 of
        (Inl e, w2) \<Rightarrow> (Inl (Msg ''renew'' # e), w2) | (Inr _, w2) \<Rightarrow> (Inr [?d], w2)))"
    by (intro keeps_intros iss)
  then have "keeps P (withLock ?d (\<lambda>(s, n). bindIO (onWorld (LoadOrCreateCertKey (mgKeyStore m) ?d)) (\<lambda>certKey w1.
      case issueWithKey m ?d certKey True w1 of
        (Inl e, w2) \<Rightarrow> (Inl (Msg ''renew'' # e), w2) | (Inr _, w2) \<Rightarrow> (Inr [?d], w2))
      (snd (gateIssuance (mgDane m) ?d s), n)))"
    by (intro withLock_keeps) (auto simp: keeps_def)
  then show ?thesis by (auto simp: keeps_def RenewCertificate_def Let_def)
qed

lemma takeOrder_keeps: "keeps P (takeOrder o1)"
  unfolding takeOrder_def by (rule onOd_keeps)

lemma runIssueJob_keeps: "keeps1 P (runIssueJob m)"
proof -
  have job: "keeps1 P (issueJobBody m d b)" for d b
  proof (rule keeps1I)
    fix s n s' n' assume run: "issueJobBody m d b (s, n) = (s', n')" and P: "P n"
    show "P n'"
    proof (cases "if b then mgOnDemand m else None")
      case None
      then show ?thesis using run P keeps1D [OF keeps_snd [OF obtainCert_keeps], of m d "(s, n)" s' n'] by (simp add: issueJobBody_def)
    next
      case (Some o1)
      obtain ok s1 n1 where p: "onOd (preflightOK o1 d) (s, n) = (ok, s1, n1)" by (metis prod.collapse)
      obtain t s2 n2 where t: "takeOrder o1 (s1, n1) = (t, s2, n2)" by (metis prod.collapse)
      obtain r s3 n3 where o: "obtainCert m d (s2, n2) = (r, s3, n3)" by (metis prod.collapse)
      have "P n1" using keepsD [OF onOd_keeps p] P by simp
      moreover from this have "P n2" using keepsD [OF takeOrder_keeps t] by simp
      moreover from this have "P n3" using keepsD [OF obtainCert_keeps o] by simp
      ultimately show ?thesis using run Some p t o
        by (auto simp: issueJobBody_def split: prod.splits bool.splits)
    qed
  qed
  show ?thesis
  proof (rule keeps1I)
    fix s n s' n' assume run: "runIssueJob m (s, n) = (s', n')" and P: "P n"
    show "P n'"
    proof (cases "ndJobs n")
      case Nil
      then show ?thesis using run P by (simp add: runIssueJob_def)
    next
      case (Cons j js)
      obtain d b where j: "j = (d, b)" by fastforce
      obtain s1 n1 where i: "issueJobBody m d b (s, n\<lparr>ndJobs := js\<rparr>) = (s1, n1)" by fastforce
      then have "P n1" using keeps1D [OF job i] P by simp
      then show ?thesis using run Cons j i by (auto simp: runIssueJob_def)
    qed
  qed
qed

text \<open>
  While a handshake waits the rest of the process goes on, and must keep the invariant too.
\<close>

lemma awaitLoop_keeps:
  assumes pause: "\<And>d. keeps P (mgPause m d)"
  shows "keeps P (awaitLoop m d dl l t)"
proof -
  have "P (snd w) \<Longrightarrow> P (snd (snd (awaitLoop m d dl l t w)))" for w
  proof (induction "nat (dl - t)" arbitrary: t w rule: less_induct)
    case less
    show ?case
    proof (cases "dl - t \<le> 0")
      case True
      then show ?thesis using less.prems by (simp add: awaitLoop.simps [of m d dl l t w])
    next
      case False
      have IH: "P (snd w') \<Longrightarrow> t + min Second (dl - t) \<le> t' \<Longrightarrow> P (snd (snd (awaitLoop m d dl l t' w')))" for t' w'
        using less.hyps [of t' w'] False by (auto simp: Second_def min_def split: if_splits)
      obtain fired s1 n1 where p: "mgPause m (min Second (dl - t)) w = (fired, s1, n1)" by (metis prod.collapse)
      have P1: "P n1" using keepsD [OF pause p] less.prems by simp
      obtain r s2 n2 where r: "ccRefresh (mgCache m) d (s1, n1) = (r, s2, n2)" by (metis prod.collapse)
      have P2: "P n2" using keepsD [OF refresh_keeps r] P1 by simp
      note step = awaitLoop.simps [of m d dl _ t w]
      show ?thesis using IH P1 P2 less.prems
        by (cases l; cases fired; cases "ccGet d n1"; cases r)
          (simp_all add: step p r False Let_def)
    qed
  qed
  then show ?thesis by (simp add: keeps_def)
qed

lemma waitOr_keeps:
  assumes "\<And>d. keeps P (mgPause m d)"
  shows "keeps P (waitOr m d wait e)"
  by (rule keepsI)
    (auto simp: waitOr_def awaitCertificate_def Let_def split: if_splits prod.splits option.splits
      dest: keepsD [OF awaitLoop_keeps [OF assms]])

lemma kickIssue_keeps:
  assumes "\<And>d. keeps P (mgPause m d)"
  shows "keeps P (kickIssue m d b)"
  by (rule keepsI) (auto simp: kickIssue_def dest: keepsD [OF waitOr_keeps [OF assms]])

lemma followerRead_keeps: "keeps P (followerRead m d)"
  by (rule keepsI) (auto simp: followerRead_def split: option.splits if_splits prod.splits sum.splits dest: keepsD [OF refresh_keeps])

lemma getCertificate_keeps:
  assumes "\<And>d. keeps P (mgPause m d)"
  shows "keeps P (getCertificate m d b)"
proof (rule keepsI)
  fix s n r s' n' assume run: "getCertificate m d b (s, n) = (r, s', n')" and P: "P n"
  note K = keepsD [OF kickIssue_keeps [OF assms]] keepsD [OF waitOr_keeps [OF assms]]
  obtain r1 s1 n1 where f: "ccRefresh (mgCache m) d (s, n) = (r1, s1, n1)" by (metis prod.collapse)
  obtain r2 s2 n2 where g: "followerRead m d (s, n) = (r2, s2, n2)" by (metis prod.collapse)
  have "P n1" "P n2" using keepsD [OF refresh_keeps f] keepsD [OF followerRead_keeps g] P by simp_all
  with run f g P show "P n'"
    by (auto simp: getCertificate_def split: option.splits if_splits sum.splits dest: K)
qed

lemma tlsGetCertificate_keeps:
  assumes "\<And>d. keeps P (mgPause m d)"
  shows "keeps P (tlsGetCertificate m h)"
proof -
  have serve: "keeps P (serveName m h d)" for d
    by (rule keepsI)
      (auto simp: serveName_def Let_def split: if_splits prod.splits sum.splits option.splits
        dest: keepsD [OF getCertificate_keeps [OF assms]])
  show ?thesis
    by (rule keepsI)
      (auto simp: tlsGetCertificate_def Let_def split: if_splits prod.splits option.splits dest: keepsD [OF serve] keepsD [OF onIss_keeps])
qed

text \<open>The maintenance pass.\<close>

lemma flushWrite_keeps: "keeps P (flushWrite m d p)"
  by (rule keepsI) (auto simp: flushWrite_def Let_def drop_law split: prod.splits sum.splits option.splits)

lemma flushLeased_keeps: "keeps P (flushLeased m d p)"
proof (rule keepsI)
  fix s n r s' n' assume run: "flushLeased m d p (s, n) = (r, s', n')" and P: "P n"
  obtain na s1 where st: "storedNotAfter (mgCache m) d s = (na, s1)" by fastforce
  obtain r2 s2 n2 where f: "ccRefresh (mgCache m) d (s1, n) = (r2, s2, n2)" by (metis prod.collapse)
  obtain r3 s3 n3 where g: "flushWrite m d p (s1, n) = (r3, s3, n3)" by (metis prod.collapse)
  have "P n2" "P n3" using keepsD [OF refresh_keeps f] keepsD [OF flushWrite_keeps g] P by simp_all
  with run st f g P drop_law show "P n'"
    by (auto simp: flushLeased_def split: sum.splits if_splits)
qed

lemma flushOne_keeps: "keeps P (flushOne m d p)"
proof (rule keepsI)
  fix s n r s' n' assume run: "flushOne m d p (s, n) = (r, s', n')" and P: "P n"
  show "P n'"
  proof (cases "tryLock d n")
    case None
    with run P show ?thesis by (simp add: flushOne_def)
  next
    case (Some n1)
    then have P1: "P n1" using P tryLock_P by blast
    obtain l s1 where ac: "acquireIssueLease m d s = (l, s1)" by fastforce
    obtain r2 s2 n2 where f: "flushLeased m d p (s1, n1) = (r2, s2, n2)" by (metis prod.collapse)
    have "P n2" using keepsD [OF flushLeased_keeps f] P1 by simp
    with run Some ac f P1 show ?thesis by (auto simp: flushOne_def split: option.splits)
  qed
qed

lemma flushAll_keeps: "keeps P (flushAll m held)"
proof -
  have "P (snd w) \<Longrightarrow> P (snd (snd (flushAll m held w)))" for w
  proof (induction m held w rule: flushAll.induct)
    case (2 m d p held w)
    obtain b s1 n1 where f: "flushOne m d p w = (b, s1, n1)" by (metis prod.collapse)
    have P1: "P n1" using keepsD [OF flushOne_keeps f 2(3)] .
    show ?case
    proof (cases "mgCtxDone m (fst w)")
      case False
      then show ?thesis using 2(1) [OF False f [symmetric]] 2(2) [OF False f [symmetric]] f P1
        by (cases b) (auto split: prod.splits)
    qed (use 2(3) in simp)
  qed simp
  then show ?thesis by (simp add: keeps_def)
qed

lemma flushHeldChains_keeps: "keeps P (flushHeldChains m)"
  using flushAll_keeps [of m] by (auto simp: keeps_def flushHeldChains_def)

lemma supersedeLocalCopies_keeps: "keeps1 P (supersedeLocalCopies m)"
proof -
  have one: "keeps1 P (supersedeOne m d)" for d
  proof (rule keeps1I)
    fix s n s' n' assume run: "supersedeOne m d (s, n) = (s', n')" and P: "P n"
    show "P n'"
    proof (cases "tryLock d n")
      case (Some n1)
      obtain r s2 n2 where f: "ccRefresh (mgCache m) d (s, n1) = (r, s2, n2)" by (metis prod.collapse)
      have "P n2" using keepsD [OF refresh_keeps f] tryLock_P [OF Some] P by simp
      with run Some f show ?thesis by (auto simp: supersedeOne_def)
    qed (use run P in \<open>simp add: supersedeOne_def\<close>)
  qed
  show ?thesis using keeps1_fold [of P "supersedeOne m", OF one] by (auto simp: keeps1_def supersedeLocalCopies_def)
qed

lemma restoreOne_keeps: "keeps P (restoreOne m names d)"
proof (rule keepsI)
  fix s n r s' n' assume run: "restoreOne m names d (s, n) = (r, s', n')" and P: "P n"
  then have "n' = n \<or> (\<exists>p s1. flushOne m d p (s1, n) = (r, s', n'))"
    by (auto simp: restoreOne_def Let_def split: if_splits option.splits prod.splits sum.splits)
  then show "P n'" using P keepsD [OF flushOne_keeps] by fastforce
qed

lemma restoreAll_keeps: "P (snd w) \<Longrightarrow> P (snd (snd (restoreAll m names ds w)))"
proof (induction m names ds w rule: restoreAll.induct)
  case (2 m names d ds w)
  obtain b s1 n1 where f: "restoreOne m names d w = (b, s1, n1)" by (metis prod.collapse)
  have P1: "P n1" using keepsD [OF restoreOne_keeps f 2(2)] .
  show ?case
  proof (cases "mgCtxDone m (fst w)")
    case False
    then show ?thesis using 2(1) [OF False f [symmetric]] f P1 by (auto split: prod.splits)
  qed (use 2(2) in simp)
qed simp

lemma restoreMissingChains_keeps: "keeps P (restoreMissingChains m)"
  using restoreAll_keeps by (auto simp: keeps_def restoreMissingChains_def Let_def split: prod.splits sum.splits)

lemma recordIssued_keeps: "keeps1 P (recordIssued m h)"
  unfolding keeps1_def recordIssued_def
  by (auto split: option.splits simp: onOd_keeps [unfolded keeps_def, rule_format])

lemma announceStoredChains_keeps: "keeps1 P (announceStoredChains m leader ds)"
  using keeps1_fold [of P "recordIssued m", OF recordIssued_keeps] by (auto simp: keeps1_def announceStoredChains_def)

lemma renewLook_keeps: "keeps P (renewLook m d)"
proof (rule keepsI)
  fix s n r s' n' assume run: "renewLook m d (s, n) = (r, s', n')" and P: "P n"
  obtain r1 s1 n1 where f: "ccRefresh (mgCache m) d (s, n) = (r1, s1, n1)" by (metis prod.collapse)
  have "P n1" using keepsD [OF refresh_keeps f] P by simp
  with run f P show "P n'" by (auto simp: renewLook_def split: option.splits sum.splits if_splits)
qed

lemma renewLocked_keeps: "keeps P (renewLocked m d)"
proof -
  have "keeps P (bindIO (onWorld (gateIssuance (mgDane m) d)) (\<lambda>_.
      bindIO (onWorld (LoadOrCreateCertKey (mgKeyStore m) d)) (\<lambda>certKey.
      bindIO (issueWithKey m d certKey False) (\<lambda>_ w. (Inr (), w)))))"
    by (intro keeps_intros issueWithKey_keeps)
  then show ?thesis by (auto simp: keeps_def renewLocked_def)
qed

lemma renewIfNeeded_keeps: "keeps P (renewIfNeeded m d)"
  unfolding renewIfNeeded_def
proof (intro keeps_bindIO renewLook_keeps keepsI)
  fix na s n r s' n'
  assume run: "(case (s, n) of (s, n) \<Rightarrow> if freshCert m s na then (Inr (), s, n)
      else case tryLock (ToLower d) n of None \<Rightarrow> (Inr (), s, n)
        | Some n1 \<Rightarrow> (case renewLocked m d (s, n1) of (r, s2, n2) \<Rightarrow> (r, s2, unlock (ToLower d) n2))) = (r, s', n')"
    and P: "P n"
  show "P n'"
  proof (cases "tryLock (ToLower d) n")
    case None
    with run P show ?thesis by (auto split: if_splits)
  next
    case (Some n1)
    obtain r2 s2 n2 where f: "renewLocked m d (s, n1) = (r2, s2, n2)" by (metis prod.collapse)
    have "P n2" using keepsD [OF renewLocked_keeps f] tryLock_P [OF Some] P by simp
    with run Some f P show ?thesis by (auto split: if_splits)
  qed
qed

lemma reconcileCeremony_keeps: "keeps1 P (reconcileCeremony m d)"
proof (rule keeps1I)
  fix s n s' n' assume run: "reconcileCeremony m d (s, n) = (s', n')" and P: "P n"
  then have "n' = n \<or> (\<exists>s4 r. ccRefresh (mgCache m) d (s4, n) = (r, s', n'))"
    by (auto simp: reconcileCeremony_def split: prod.splits sum.splits if_splits) (metis prod.collapse)
  then show "P n'" using P keepsD [OF refresh_keeps] by fastforce
qed

lemma maintainCompanion_keeps: "keeps1 P (maintainCompanion m leader d)"
  using keeps_snd [OF refresh_keeps, of "mgCache m" "Companion d"] keeps_snd [OF renewIfNeeded_keeps, of m "Companion d"]
  by (auto simp: keeps1_def maintainCompanion_def Let_def)

lemma maintainDomain_keeps: "keeps1 P (maintainDomain m leader d)"
proof -
  have "keeps1 P (\<lambda>w. if leader then snd (renewIfNeeded m d (reconcileCeremony m d w)) else snd (ccRefresh (mgCache m) d w))"
    using keeps_snd [OF refresh_keeps, of "mgCache m" d] keeps_snd [OF renewIfNeeded_keeps, of m d] reconcileCeremony_keeps [of m d]
    unfolding keeps1_def by (simp del: split_paired_All)
  with maintainCompanion_keeps [of m leader d] show ?thesis
    unfolding keeps1_def maintainDomain_def Let_def by (simp del: split_paired_All)
qed

lemma followRefresh_keeps: "keeps1 P (followRefresh m o1 h)"
proof (rule keeps1I)
  fix s n s' n' assume run: "followRefresh m o1 h (s, n) = (s', n')" and P: "P n"
  obtain r s1 n1 where f: "ccRefresh (mgCache m) h (s, n) = (r, s1, n1)" by (metis prod.collapse)
  have "P n1" using keepsD [OF refresh_keeps f] P by simp
  with run f show "P n'"
    using keeps1D [OF keeps_snd [OF onOd_keeps], of "\<lambda>v. ((), noteRefreshed o1 h v)" "(s1, n1)" s' n']
    by (auto simp: followRefresh_def split: sum.splits)
qed

lemma loadKnown_keeps: "keeps1 P (loadKnown m h)"
  using recordIssued_keeps [of m h] keeps_snd [OF refresh_keeps, of "mgCache m" h]
  unfolding keeps1_def loadKnown_def Let_def by (simp del: split_paired_All)

lemma onDemandRun_keeps: "keeps1 P (onDemandRun m o1 job)"
proof (rule keeps1I)
  fix s n s' n' assume run: "onDemandRun m o1 job (s, n) = (s', n')" and P: "P n"
  obtain h b where j: "job = (h, b)" by fastforce
  obtain ok s1 n1 where p: "onOd (preflightOK o1 h) (s, n) = (ok, s1, n1)" by (metis prod.collapse)
  have P1: "P n1" using keepsD [OF onOd_keeps p] P by simp
  obtain l s2 n2 where l: "lastLook m h b (s1, n1) = (l, s2, n2)" by (metis prod.collapse)
  have P2: "P n2" using l P1 keepsD [OF refresh_keeps]
    by (fastforce simp: lastLook_def split: if_splits prod.splits sum.splits)
  obtain t s3 n3 where t: "takeOrder o1 (s2, n2) = (t, s3, n3)" by (metis prod.collapse)
  have P3: "P n3" using keepsD [OF takeOrder_keeps t] P2 by simp
  have fin: "P n'" if "P n4" "(case renewIfNeeded m h (s4, n4) of (Inl e, w4) \<Rightarrow> w4 | (Inr _, w4) \<Rightarrow> recordIssued m h w4) = (s', n')" for s4 n4
  proof -
    obtain r s5 n5 where r: "renewIfNeeded m h (s4, n4) = (r, s5, n5)" by (metis prod.collapse)
    have "P n5" using keepsD [OF renewIfNeeded_keeps r] that(1) by simp
    with that(2) r keeps1D [OF recordIssued_keeps, of m h "(s5, n5)" s' n'] show ?thesis by (cases r) auto
  qed
  show "P n'" using run j p l t P1 P2 P3 fin [of n2 s2] fin [of n3 s3]
    by (auto simp: onDemandRun_def split: prod.splits bool.splits option.splits if_splits)
qed

lemma maintainOnDemand_keeps: "keeps1 P (maintainOnDemand m leader)"
proof (rule keeps1I)
  fix s n s' n' assume run: "maintainOnDemand m leader (s, n) = (s', n')" and P: "P n"
  show "P n'"
  proof (cases "mgOnDemand m")
    case None
    with run P show ?thesis by (simp add: maintainOnDemand_def)
  next
    case (Some o1)
    let ?hosts = "odHosts (ndOd n)"
    obtain ch s1 n1 where c: "onOd (changedSince o1 ?hosts) (s, n) = (ch, s1, n1)" by (metis prod.collapse)
    have P1: "P n1" using keepsD [OF onOd_keeps c] P by simp
    have F: "P (snd (fold (followRefresh m o1) ch (s1, n1)))"
      using keeps1_fold [of P "followRefresh m o1", OF followRefresh_keeps] P1 by (simp add: keeps1_def)
    define w2 where "w2 = fold (loadKnown m) ?hosts (snd (onOd (republishIndexIfDirty o1) (s, n)))"
    have "P (snd (snd (onOd (republishIndexIfDirty o1) (s, n))))"
      using onOd_keeps [of "republishIndexIfDirty o1"] P by (simp add: keeps_def)
    then have P2: "P (snd w2)"
      using keeps1_fold [of P "loadKnown m", OF loadKnown_keeps] unfolding w2_def keeps1_def by blast
    have "P (snd (fold (onDemandRun m o1) (onDemandPlan m ?hosts w2) w2))"
      using keeps1_fold [of P "onDemandRun m o1", OF onDemandRun_keeps] P2 unfolding keeps1_def by blast
    with run Some c F P show ?thesis
      by (auto simp: maintainOnDemand_def Let_def w2_def split: if_splits)
  qed
qed

lemma maintainDane_keeps: "keeps1 P (maintainDane m leader)"
  by (rule keeps1I) (auto simp: maintainDane_def split: option.splits if_splits prod.splits)

lemma maintainOnce_keeps: "keeps1 P (maintainOnce m)"
proof (rule keeps1I)
  fix s n s' n' assume run: "maintainOnce m (s, n) = (s', n')" and P: "P n"
  obtain st w1 where f: "flushHeldChains m (s, n) = (st, w1)" by (metis prod.collapse)
  have P1: "P (snd w1)" using flushHeldChains_keeps [of m] P f by (auto simp: keeps_def) (metis snd_conv)
  define leader where "leader = isLeader (mgHost m) (fst w1)"
  define w2 where "w2 = supersedeLocalCopies m w1"
  have P2: "P (snd w2)" using supersedeLocalCopies_keeps [of m] P1 unfolding w2_def keeps1_def by blast
  obtain rs w3 where r: "(if leader then restoreMissingChains m w2 else ([], w2)) = (rs, w3)" by (metis prod.collapse)
  have P3: "P (snd w3)" using r P2 restoreMissingChains_keeps [of m] unfolding keeps_def by (metis snd_conv)
  define w5 where "w5 = fold (maintainDomain m leader) (mgDomains m) (announceStoredChains m leader (st @ rs) w3)"
  have "P (snd (announceStoredChains m leader (st @ rs) w3))"
    using announceStoredChains_keeps P3 unfolding keeps1_def by blast
  then have P5: "P (snd w5)"
    using keeps1_fold [of P "maintainDomain m leader", OF maintainDomain_keeps] unfolding w5_def keeps1_def by blast
  obtain s6 n6 where o: "maintainOnDemand m leader (maintainDane m leader w5) = (s6, n6)" by fastforce
  have "P (snd (maintainDane m leader w5))" using maintainDane_keeps [of m leader] P5 unfolding keeps1_def by blast
  then have "P n6" using keeps1D [OF maintainOnDemand_keeps o] by blast
  moreover have "n' = reportServed m n6"
    using run unfolding maintainOnce_def f prod.case Let_def leader_def [symmetric] w2_def [symmetric] r w5_def [symmetric] o
    by simp
  ultimately show "P n'" by (simp add: reportServed_def)
qed

text \<open>The ceremony, the operator's look, and start-up.\<close>

lemma activateLeased_keeps: "keeps P (activateLeased m d force)"
proof -
  have chain: "keeps P (activationChain m d k)" for k
  proof -
    have "keeps P (\<lambda>w1. case onIss (mgNewIssuer m acct d k) w1 of
        (Inl e, w2) \<Rightarrow> (Inl (Msg ''issue cert with next key'' # e), w2) | (Inr chain, w2) \<Rightarrow> (Inr chain, w2))" for acct
      by (rule keepsI) (auto split: prod.splits sum.splits dest: keepsD [OF onIss_keeps])
    then have "keeps P (bindIO (ensureIssuer m) (\<lambda>acct w1. case onIss (mgNewIssuer m acct d k) w1 of
        (Inl e, w2) \<Rightarrow> (Inl (Msg ''issue cert with next key'' # e), w2) | (Inr chain, w2) \<Rightarrow> (Inr chain, w2)))"
      by (intro keeps_bindIO ensureIssuer_keeps)
    then show ?thesis by (auto simp: keeps_def activationChain_def split: option.splits)
  qed
  have store: "keeps P (\<lambda>w. case ccStore (mgCache m) d chain k w of
         (StoreBad e, w1) \<Rightarrow> (Inl (Msg ''store cert'' # e), w1)
       | (StoreUnwritten cert e, (s1, n1)) \<Rightarrow>
           if errIs e ErrPersistFailed then (Inl [ErrOrderNotPersisted], s1, hold d cert chain n1)
           else (Inl (Msg ''store cert'' # e), s1, n1)
       | (StoreDone cert, w1) \<Rightarrow> onWorld (activationPromote m d) w1)" for chain k
  proof (rule keepsI)
    fix s n r s' n'
    assume run: "(case ccStore (mgCache m) d chain k (s, n) of
         (StoreBad e, w1) \<Rightarrow> (Inl (Msg ''store cert'' # e), w1)
       | (StoreUnwritten cert e, (s1, n1)) \<Rightarrow>
           if errIs e ErrPersistFailed then (Inl [ErrOrderNotPersisted], s1, hold d cert chain n1)
           else (Inl (Msg ''store cert'' # e), s1, n1)
       | (StoreDone cert, w1) \<Rightarrow> onWorld (activationPromote m d) w1) = (r, s', n')" and P: "P n"
    obtain r1 s1 n1 where st: "ccStore (mgCache m) d chain k (s, n) = (r1, s1, n1)" by (metis prod.collapse)
    note S = store_keeps [OF st P]
    from run st S keepsD [OF keeps_onWorld [of P "activationPromote m d"], of "(s1, n1)" r s' n'] show "P n'"
      by (cases r1) (auto simp: hold_law split: if_splits)
  qed
  show ?thesis unfolding activateLeased_def by (intro keeps_intros chain store)
qed

lemma ActivateCertificateKey_keeps: "keeps P (ActivateCertificateKey m d force)"
proof -
  let ?d = "normalizeDomain (ToASCII (mgHost m)) d"
  have "keeps P (\<lambda>(s, n). case acquireIssueLease m ?d s of
            (None, s1) \<Rightarrow> (Inl [Msg ''issuance lease held by another node''], s1, n)
          | (Some release, s1) \<Rightarrow> (case activateLeased m ?d force (s1, n) of (r, s2, n2) \<Rightarrow> (r, release s2, n2)))"
    by (rule keepsI) (auto split: prod.splits option.splits dest: keepsD [OF activateLeased_keeps])
  from withLock_keeps [OF this, of ?d] show ?thesis
    unfolding keeps_def ActivateCertificateKey_def Let_def by (simp del: split_paired_All)
qed

lemma GetCertificateInfo_keeps: "keeps P (GetCertificateInfo m d)"
proof (rule keepsI)
  fix s n r s' n' assume run: "GetCertificateInfo m d (s, n) = (r, s', n')" and P: "P n"
  obtain r1 s1 n1 where f: "ccRefresh (mgCache m) d (s, n) = (r1, s1, n1)" by (metis prod.collapse)
  have "P n1" using keepsD [OF refresh_keeps f] P by simp
  with run f P show "P n'"
    by (auto simp: GetCertificateInfo_def Let_def split: option.splits sum.splits)
qed

lemma CheckCertificates_keeps: "keeps P (CheckCertificates m)"
proof -
  have "P (snd w) \<Longrightarrow> P (snd (snd (checkAll m ds w)))" for ds w
  proof (induction ds arbitrary: w)
    case (Cons d ds)
    obtain i s1 n1 where g: "GetCertificateInfo m d w = (i, s1, n1)" by (metis prod.collapse)
    with Cons.IH [of "(s1, n1)"] keepsD [OF GetCertificateInfo_keeps g Cons.prems] show ?case
      by (auto split: prod.splits)
  qed simp
  then show ?thesis by (simp add: keeps_def CheckCertificates_def)
qed

lemma setFromLocal_P: "P n \<Longrightarrow> certOK cert \<Longrightarrow> P (setFromLocal d cert n)"
  using set_law [of n cert d] by (simp add: setFromLocal_def)

lemma preload_keeps: "keeps1 P (preload m)"
proof -
  have one: "keeps1 P (preloadOne m d)" for d
  proof (rule keeps1I)
    fix s n s' n' assume run: "preloadOne m d (s, n) = (s', n')" and P: "P n"
    obtain r s1 n1 where f: "ccRefresh (mgCache m) d (s, n) = (r, s1, n1)" by (metis prod.collapse)
    have P1: "P n1" using keepsD [OF refresh_keeps f] P by simp
    have "P (startFromLocalCopy l d t n1)" for l t
      using P1 setFromLocal_P [of "n1\<lparr>ccDisk := _\<rparr>"]
      by (auto simp: startFromLocalCopy_def split: prod.splits sum.splits dest: lcLoad_certOK)
    with run f P1 show "P n'" by (auto simp: preloadOne_def split: sum.splits option.splits if_splits)
  qed
  show ?thesis unfolding preload_def [abs_def] by (rule keeps1_fold [OF one])
qed

lemma allowSet_keeps: "keeps1 P (refreshAllowSet m)" "keeps1 P (refreshAllowSetIfConfigured m)"
  unfolding keeps1_def refreshAllowSet_def refreshAllowSetIfConfigured_def
  by (auto split: option.splits simp: onOd_keeps [unfolded keeps_def, rule_format])

end

section \<open>A node at work\<close>

text \<open>
  Everything that can happen to a node once it is up, one operation at a time; in between the
  world changes as it likes.
\<close>

inductive managerStep :: "'s Manager \<Rightarrow> 's \<times> node \<Rightarrow> 's \<times> node \<Rightarrow> bool" for m :: "'s Manager" where
  stepHandshake: "tlsGetCertificate m h w = (r, w') \<Longrightarrow> managerStep m w w'"
| stepIssue: "managerStep m w (runIssueJob m w)"
| stepMaintain: "managerStep m w (maintainOnce m w)"
| stepAllowSet: "managerStep m w (refreshAllowSet m w)"
| stepRenew: "RenewCertificate m d w = (rr, w') \<Longrightarrow> managerStep m w w'"
| stepReplace: "ReplaceCertificateKey m d s = (rp, s') \<Longrightarrow> managerStep m (s, n) (s', n)"
| stepActivate: "ActivateCertificateKey m d force w = (ra, w') \<Longrightarrow> managerStep m w w'"
| stepCheck: "CheckCertificates m w = (rc, w') \<Longrightarrow> managerStep m w w'"
| stepWorld: "managerStep m (s, n) (s', n)"

context node_invariant
begin

lemma step_keeps:
  assumes "managerStep m w w'" and "\<And>d. keeps P (mgPause m d)" and "P (snd w)"
  shows "P (snd w')"
  using assms(1)
proof cases
  case (stepHandshake h r)
  then show ?thesis using tlsGetCertificate_keeps [OF assms(2), of h] assms(3) unfolding keeps_def by (metis snd_conv)
next
  case stepIssue
  then show ?thesis using runIssueJob_keeps [of m] assms(3) unfolding keeps1_def by blast
next
  case stepMaintain
  then show ?thesis using maintainOnce_keeps [of m] assms(3) unfolding keeps1_def by blast
next
  case stepAllowSet
  then show ?thesis using allowSet_keeps(1) [of m] assms(3) unfolding keeps1_def by blast
next
  case (stepRenew d rr)
  then show ?thesis using RenewCertificate_keeps [of m d] assms(3) unfolding keeps_def by (metis snd_conv)
next
  case (stepActivate d force ra)
  then show ?thesis using ActivateCertificateKey_keeps [of m d force] assms(3) unfolding keeps_def by (metis snd_conv)
next
  case (stepCheck rc)
  then show ?thesis using CheckCertificates_keeps [of m] assms(3) unfolding keeps_def by (metis snd_conv)
qed (use assms(3) in simp_all)

lemma run_keeps:
  assumes "(managerStep m)\<^sup>*\<^sup>* w w'" and "\<And>d. keeps P (mgPause m d)" and "P (snd w)"
  shows "P (snd w')"
  using assms(1,3) by (induction rule: rtranclp_induct) (auto intro: step_keeps assms(2))

end

section \<open>The invariants\<close>

text \<open>
  What is true of a node's memory at all times: every certificate fits its key; a chain that is
  held is held once, under a lower-case name that is served, with the expiry date of its leaf;
  and the retry budget lets at least one attempt through.
\<close>

definition nodeOK :: "node \<Rightarrow> bool" where
  "nodeOK n =
     (memOK n \<and> distinct (map fst (ccPending n)) \<and>
      (\<forall>(d, p) \<in> set (ccPending n).
         ToLower d = d \<and> ccMem n d \<noteq> None \<and> leafNotAfterPEM (chainPEM p) = Inr (ppNotAfter p)) \<and>
      (\<exists>mx. limitOf (ndRetries n) = Some mx \<and> 1 \<le> mx))"

lemma held_expiry:
  assumes "certOK cert" and "Certificate cert = certBlocks (pemBlocks chain)"
  shows "leafNotAfterPEM chain = Inr (case Leaf cert of None \<Rightarrow> zeroTime | Some leaf \<Rightarrow> NotAfter leaf)"
  using assms
  by (auto simp: leafNotAfterPEM_certBlocks certOK_def split: option.splits list.splits)

lemma pending_update:
  "(d, p) \<in> set (AList.update k v al) \<Longrightarrow> (d, p) = (k, v) \<or> (d, p) \<in> set al"
  by (induction al) (auto split: if_splits)

interpretation wf: node_invariant nodeOK
proof unfold_locales
  fix n cert d assume "nodeOK n" "certOK cert"
  then show "nodeOK (ccSet d cert n)"
    using memOK_set [of n cert d] by (auto simp: nodeOK_def ccSet_def)
next
  fix n cert d chain assume n: "nodeOK n" and c: "certOK cert" "Certificate cert = certBlocks (pemBlocks chain)"
  show "nodeOK (hold d cert chain n)"
    using n memOK_hold [of n cert d chain] c held_expiry [OF c]
    by (auto simp: nodeOK_def hold_def ccSet_def distinct_update dest!: pending_update)
next
  fix n d assume "nodeOK n"
  then show "nodeOK (dropPending d n)"
    by (auto simp: nodeOK_def dropPending_def memOK_def AList.delete_eq intro: distinct_map_filter)
next
  fix n n' :: node assume "nodeOK n" "ccMem n' = ccMem n" "ccPending n' = ccPending n" "limitOf (ndRetries n') = limitOf (ndRetries n)"
  then show "nodeOK n'" by (simp add: nodeOK_def memOK_def)
qed

text \<open>The names that have a certificate keep having one.\<close>

interpretation kept: node_invariant "\<lambda>n. \<forall>d \<in> D. ccMem n d \<noteq> None" for D
  by unfold_locales (auto simp: ccSet_def hold_def dropPending_def)

lemma nodeOK_new: "nodeOK (newNode cfg le disk)"
  by (simp add: nodeOK_def newNode_def memOK_def newCacheMem_def cacheMem.defs limitOf_def newRetryBudget_def maxRetriesOf_def)

text \<open>A manager that came up has a well-formed node.\<close>

lemma NewManager_nodeOK:
  assumes "NewManager ev cfg (Some B) pre disk s = (Inr (Some (m, n)), s')"
  shows "nodeOK n"
proof -
  let ?le = "normalizeLE (ToASCII (evHost ev)) (LetsEncrypt cfg)"
  from assms obtain s1 d1 where "(s', n) = refreshAllowSetIfConfigured m (preload m (s1, newNode cfg ?le d1))"
    by (auto simp: NewManager_def Let_def split: if_splits prod.splits sum.splits) metis+
  moreover have "nodeOK (snd (preload m (s1, newNode cfg ?le d1)))"
    using wf.preload_keeps [of m] nodeOK_new [of cfg ?le d1] by (simp add: keeps1_def)
  ultimately show ?thesis using keeps1D [OF wf.allowSet_keeps(2)] by metis
qed

text \<open>A certificate a handshake ends with is one from memory or one just built.\<close>

lemma refresh_certOK: "ccRefresh c d w = (Inr cert, w') \<Longrightarrow> certOK cert"
  by (cases w; cases w') (auto elim: ccRefresh_cases)

lemma ccGet_certOK: "nodeOK n \<Longrightarrow> ccGet d n = Some cert \<Longrightarrow> certOK cert"
  by (auto simp: nodeOK_def memOK_def ccGet_def)

lemma awaitLoop_certOK:
  assumes pause: "\<And>d. keeps nodeOK (mgPause m d)"
  shows "nodeOK (snd w) \<Longrightarrow> awaitLoop m d dl l t w = (Some cert, w') \<Longrightarrow> certOK cert"
proof (induction "nat (dl - t)" arbitrary: t w rule: less_induct)
  case less
  note step = awaitLoop.simps [of m d dl _ t w]
  have False: "\<not> dl - t \<le> 0" using less.prems(2) by (auto simp: step)
  have IH: "nodeOK (snd w2) \<Longrightarrow> t + min Second (dl - t) \<le> t' \<Longrightarrow> awaitLoop m d dl l t' w2 = (Some cert, w') \<Longrightarrow> certOK cert" for t' w2
    using less.hyps [of t' w2] False by (auto simp: Second_def min_def split: if_splits)
  obtain fired s1 n1 where p: "mgPause m (min Second (dl - t)) w = (fired, s1, n1)" by (metis prod.collapse)
  have P1: "nodeOK n1" using keepsD [OF pause p less.prems(1)] .
  obtain r s2 n2 where r: "ccRefresh (mgCache m) d (s1, n1) = (r, s2, n2)" by (metis prod.collapse)
  have P2: "nodeOK n2" using keepsD [OF wf.refresh_keeps r] P1 by simp
  show ?case
  proof (cases "fired \<and> ccGet d n1 = None")
    case True
    define t1 where "t1 = max (now (mgHost m) s1) (t + min Second (dl - t))"
    have "t + min Second (dl - t) \<le> t1" by (simp add: t1_def)
    with True IH [of "(s1, n1)" t1] IH [of "(s2, n2)" "max (now (mgHost m) s2) t1"]
    show ?thesis using less.prems(2) p r False P1 P2 refresh_certOK [of "mgCache m" d "(s1, n1)" cert]
      by (cases l; cases r) (auto simp: step Let_def t1_def [symmetric])
  next
    case no: False
    then show ?thesis using less.prems(2) p False ccGet_certOK [OF P1, of d]
      by (cases fired) (auto simp: step Let_def)
  qed
qed

lemma waitOr_certOK:
  assumes "\<And>d. keeps nodeOK (mgPause m d)" and "nodeOK (snd w)" and "waitOr m d wait e w = (Inr cert, w')"
  shows "certOK cert"
  using assms(3) awaitLoop_certOK [OF assms(1,2)]
  by (auto simp: waitOr_def awaitCertificate_def Let_def split: if_splits prod.splits option.splits)

lemma getCertificate_certOK:
  assumes pause: "\<And>d. keeps nodeOK (mgPause m d)" and ok: "nodeOK n"
    and run: "getCertificate m d b (s, n) = (Inr cert, w')"
  shows "certOK cert"
proof (cases "ccGet d n")
  case (Some c)
  then show ?thesis using run ccGet_certOK [OF ok Some] by (auto simp: getCertificate_def)
next
  case None
  obtain r1 s1 n1 where f: "ccRefresh (mgCache m) d (s, n) = (r1, s1, n1)" by (metis prod.collapse)
  obtain r2 s2 n2 where g: "followerRead m d (s, n) = (r2, s2, n2)" by (metis prod.collapse)
  have P: "nodeOK n1" "nodeOK n2"
    using keepsD [OF wf.refresh_keeps f] keepsD [OF wf.followerRead_keeps g] ok by simp_all
  have kick: "kickIssue m d b (s', n') = (Inr cert, w') \<Longrightarrow> nodeOK n' \<Longrightarrow> certOK cert" for s' n'
    using waitOr_certOK [OF pause, of "(s', requestIssue d b n')"] by (auto simp: kickIssue_def)
  have follow: "r2 = Inr c \<Longrightarrow> certOK c" for c
    using g None refresh_certOK [of "mgCache m" d "(s, n)"]
    by (auto simp: followerRead_def split: if_splits prod.splits sum.splits)
  have wait: "waitOr m d k e (s2, n2) = (Inr cert, w') \<Longrightarrow> certOK cert" for k e
    using waitOr_certOK [OF pause, of "(s2, n2)"] P by simp
  show ?thesis
    using run None f g P kick ok follow wait refresh_certOK [of "mgCache m" d "(s, n)" _ "(s1, n1)"]
    by (auto simp: getCertificate_def split: if_splits sum.splits)
qed

lemma handshake_certOK:
  assumes "\<And>d. keeps nodeOK (mgPause m d)" and "nodeOK n" and "\<not> isALPNChallenge h"
    and "tlsGetCertificate m h (s, n) = (Inr cert, w')"
  shows "certOK cert"
proof -
  have serve: "certOK cert" if "serveName m h d (s, n) = (Inr cert, w')" for d
  proof -
    let ?b = "d \<notin> set (mgDomainSet m)"
    obtain r s1 n1 where g: "getCertificate m d ?b (s, n) = (r, s1, n1)" by (metis prod.collapse)
    have P1: "nodeOK n1" using keepsD [OF wf.getCertificate_keeps [OF assms(1)] g] assms(2) by simp
    have "ccGet (Companion d) n1 = Some c \<Longrightarrow> certOK c" for c by (rule ccGet_certOK [OF P1])
    with that g getCertificate_certOK [OF assms(1,2)] show ?thesis
      by (auto simp: serveName_def companionFor_def Let_def split: if_splits sum.splits option.splits)
  qed
  with assms(3,4) show ?thesis by (auto simp: tlsGetCertificate_def Let_def split: if_splits)
qed

section \<open>Properties\<close>

text \<open>
  C7: the memory of a node is well-formed from the moment \<open>NewManager\<close> returns, through every
  sequence of handshakes, issuances, maintenance passes, renewals, ceremonies and checks,
  whatever storage, the CA, DNS and the other nodes do: certificates fit their keys, held chains
  are held once under names that are served and with the date of their leaf, and the retry budget
  lets an attempt through. While a handshake waits, the rest of the process must keep to this too.
\<close>

theorem node_always_well_formed:
  assumes "NewManager ev cfg (Some B) pre disk s = (Inr (Some (m, n)), s1)"
    and "\<And>d. keeps nodeOK (mgPause m d)" and "(managerStep m)\<^sup>*\<^sup>* (s1, n) (s', n')"
  shows "nodeOK n'"
  using wf.run_keeps [OF assms(3,2)] NewManager_nodeOK [OF assms(1)] by simp

text \<open>A node that came up on the sample disk, with nobody else in the process.\<close>

definition bootNode :: "(error + (fs Manager \<times> node) option) \<times> fs" where
  "bootNode = NewManager sampleEnv sampleCfg (Some (fsBackend sampleConfig)) [] (sampleDisk []) keyedDisk"

lemma bootNode_up: "\<exists>m n s1. bootNode = (Inr (Some (m, n)), s1) \<and> mgPause m = (\<lambda>d w. (False, w))"
proof -
  have "case fst bootNode of Inr (Some _) \<Rightarrow> True | _ \<Rightarrow> False" by code_simp
  then obtain m n where "fst bootNode = Inr (Some (m, n))" by (auto split: sum.splits option.splits)
  then obtain s1 where b: "bootNode = (Inr (Some (m, n)), s1)" by (metis prod.collapse)
  then have "mgPause m = evPause sampleEnv"
    by (auto simp: bootNode_def NewManager_def Let_def buildManager_def useLocalCopy_def
        split: if_splits prod.splits sum.splits option.splits)
  then have "mgPause m = (\<lambda>d w. (False, w))" by (simp add: sampleEnv_def)
  with b show ?thesis by blast
qed

theorem node_always_well_formed_witness:
  "\<exists>m n s1. bootNode = (Inr (Some (m, n)), s1) \<and> nodeOK (snd (maintainOnce m (s1, n)))"
proof -
  obtain m n s1 where b: "bootNode = (Inr (Some (m, n)), s1)" and p: "mgPause m = (\<lambda>d w. (False, w))"
    using bootNode_up by blast
  have "(managerStep m)\<^sup>*\<^sup>* (s1, n) (fst (maintainOnce m (s1, n)), snd (maintainOnce m (s1, n)))"
    by (simp add: r_into_rtranclp managerStep.stepMaintain)
  from node_always_well_formed [OF b [unfolded bootNode_def] _ this] p
  have "nodeOK (snd (maintainOnce m (s1, n)))" by (simp add: keeps_def)
  with b show ?thesis by blast
qed

text \<open>
  C4: what a client is given. Every certificate a handshake returns, other than the answer to an
  ACME challenge, at any time in the life of a node, carries the private key its leaf names and
  has that leaf at the head of its chain, companion and waited-for certificates included.
\<close>

theorem handshake_serves_fitting_certificate:
  assumes "NewManager ev cfg (Some B) pre disk s = (Inr (Some (m, n)), s1)"
    and "\<And>d. keeps nodeOK (mgPause m d)" and "(managerStep m)\<^sup>*\<^sup>* (s1, n) (s2, n2)"
    and "\<not> isALPNChallenge h" and "tlsGetCertificate m h (s2, n2) = (Inr cert, w')"
  shows "certOK cert"
  using wf.run_keeps [OF assms(3,2)] NewManager_nodeOK [OF assms(1)]
  by (intro handshake_certOK [OF assms(2) _ assms(4,5)]) simp

definition clientHello :: hello where
  "clientHello = \<lparr>ServerName = ''a'', SupportedProtos = [], SupportedCurves = [], hiOffer = []\<rparr>"

definition storedChainDisk :: fs where
  "storedChainDisk = sampleDisk [(''keys/a'', marshalKeyPEM (sampleKey ''x'')), (''certs/a'', sampleChain)]"

theorem handshake_serves_fitting_certificate_witness:
  "\<exists>m n s1 cert w'. NewManager sampleEnv sampleCfg (Some (fsBackend sampleConfig)) [] (sampleDisk []) storedChainDisk =
       (Inr (Some (m, n)), s1) \<and>
     tlsGetCertificate m clientHello (s1, n) = (Inr cert, w') \<and> certOK cert"
proof -
  define b where "b = NewManager sampleEnv sampleCfg (Some (fsBackend sampleConfig)) [] (sampleDisk []) storedChainDisk"
  have up: "case b of (Inr (Some (m, n)), s1) \<Rightarrow> isOk (fst (tlsGetCertificate m clientHello (s1, n))) | _ \<Rightarrow> False"
    unfolding b_def by code_simp
  then obtain m n s1 where b: "b = (Inr (Some (m, n)), s1)" by (cases b) (auto split: sum.splits option.splits)
  with up obtain cert w' where g: "tlsGetCertificate m clientHello (s1, n) = (Inr cert, w')"
    by (auto elim!: isOk_E) (metis prod.collapse)
  have "mgPause m = evPause sampleEnv"
    using b by (auto simp: b_def NewManager_def Let_def buildManager_def useLocalCopy_def
        split: if_splits prod.splits sum.splits option.splits)
  then have k: "keeps nodeOK (mgPause m d)" for d by (simp add: sampleEnv_def keeps_def)
  have "\<not> isALPNChallenge clientHello" by code_simp
  from handshake_serves_fitting_certificate [OF b [unfolded b_def] k _ this g] b g show ?thesis
    by (auto simp: b_def)
qed

text \<open>
  C15: a name that is served stays served. Once a node has a certificate for a name in memory, no
  operation and no failure of storage or of the CA takes it away; it is only ever replaced.
\<close>

theorem served_name_stays_served:
  assumes "ccGet d n = Some cert" and "(managerStep m)\<^sup>*\<^sup>* (s, n) (s', n')"
    and "\<And>t. keeps (\<lambda>n. \<forall>k \<in> {ToLower d}. ccMem n k \<noteq> None) (mgPause m t)"
  shows "\<exists>cert'. ccGet d n' = Some cert'"
  using kept.run_keeps [OF assms(2,3)] assms(1) by (auto simp: ccGet_def)

theorem served_name_stays_served_witness:
  "\<exists>m n s1 cert'. bootNode = (Inr (Some (m, n)), s1) \<and>
     ccGet ''A'' (snd (maintainOnce m (keyedDisk, ccSet ''a'' \<lparr>Certificate = [], PrivateKey = NonSigner [], Leaf = None\<rparr> n))) = Some cert'"
proof -
  let ?c = "\<lparr>Certificate = [], PrivateKey = NonSigner [], Leaf = None\<rparr>"
  obtain m n s1 where b: "bootNode = (Inr (Some (m, n)), s1)" and p: "mgPause m = (\<lambda>d w. (False, w))"
    using bootNode_up by blast
  let ?w = "(keyedDisk, ccSet ''a'' ?c n)"
  have st: "(managerStep m)\<^sup>*\<^sup>* ?w (fst (maintainOnce m ?w), snd (maintainOnce m ?w))"
    by (simp add: r_into_rtranclp managerStep.stepMaintain)
  have "ToLower ''A'' = ''a''" "ToLower ''a'' = ''a''" by code_simp+
  then have g: "ccGet ''A'' (ccSet ''a'' ?c n) = Some ?c" by (simp add: ccGet_def ccSet_def)
  have "\<exists>cert'. ccGet ''A'' (snd (maintainOnce m ?w)) = Some cert'"
    by (rule served_name_stays_served [OF g st]) (simp add: keeps_def p)
  with b show ?thesis by blast
qed

text \<open>
  C29: a handshake that waits for a first certificate gives up. Its loop pauses at most once per
  second of its limit, rounded up, however the clock and storage behave: a count that a pause
  raises by at most one and that reading storage leaves alone has grown by no more than that.
\<close>

theorem await_polls_bounded:
  fixes polls :: "'s \<times> node \<Rightarrow> nat"
  assumes "\<And>d w. polls (snd (mgPause m d w)) \<le> Suc (polls w)"
    and "\<And>w. polls (snd (ccRefresh (mgCache m) domain w)) = polls w"
  shows "polls (snd (awaitCertificate m domain limit w)) \<le> polls w + nat ((limit + Second - 1) div Second)"
proof -
  have "polls (snd (awaitLoop m domain dl l t w)) \<le> polls w + nat ((dl - t + Second - 1) div Second)" for dl l t w
  proof (induction "nat (dl - t)" arbitrary: t w rule: less_induct)
    case less
    note step = awaitLoop.simps [of m domain dl _ t w]
    show ?case
    proof (cases "dl - t \<le> 0")
      case True
      then show ?thesis by (simp add: step)
    next
      case False
      define left where "left t = nat ((dl - t + Second - 1) div Second)" for t
      define sl where "sl = min Second (dl - t)"
      have dec: "Suc (left t') \<le> left t" if "t + sl \<le> t'" for t'
      proof -
        have "(dl - t' + Second - 1) div Second \<le> (if Second \<le> dl - t then (dl - t - 1) div Second else 0)"
          using that by (auto simp: sl_def Second_def min_def split: if_splits)
        moreover have "(dl - t + Second - 1) div Second = (dl - t - 1) div Second + 1"
          by (simp add: Second_def)
        ultimately show ?thesis using False by (auto simp: left_def Second_def split: if_splits)
      qed
      have IH: "t + sl \<le> t' \<Longrightarrow> polls (snd (awaitLoop m domain dl l t' w')) \<le> polls w' + left t'" for t' w'
        using less.hyps [of t' w'] False by (auto simp: left_def sl_def Second_def min_def split: if_splits)
      obtain fired s1 n1 where p: "mgPause m sl w = (fired, s1, n1)" by (metis prod.collapse)
      have P1: "polls (s1, n1) \<le> Suc (polls w)" using assms(1) [of sl w] p by simp
      obtain r w2 where r: "ccRefresh (mgCache m) domain (s1, n1) = (r, w2)" by (metis prod.collapse)
      have P2: "polls w2 = polls (s1, n1)" using assms(2) [of "(s1, n1)"] r by simp
      define t1 where "t1 = max (now (mgHost m) s1) (t + sl)"
      define t2 where "t2 = max (now (mgHost m) (fst w2)) t1"
      have t1: "t + sl \<le> t1" "t + sl \<le> t2" by (simp_all add: t1_def t2_def)
      have D1: "polls (snd (awaitLoop m domain dl l t1 (s1, n1))) \<le> polls w + left t"
        using IH [OF t1(1), of "(s1, n1)"] dec [OF t1(1)] P1 by linarith
      have D2: "polls (snd (awaitLoop m domain dl l t2 w2)) \<le> polls w + left t"
        using IH [OF t1(2), of w2] dec [OF t1(2)] P1 P2 by linarith
      have D3: "polls (s1, n1) \<le> polls w + left t" using dec [OF t1(1)] P1 by linarith
      have "polls (snd (awaitLoop m domain dl l t w)) \<le> polls w + left t"
        using D1 D2 D3 P2 False
        by (cases l; cases fired; cases "ccGet domain n1"; cases r)
          (simp_all add: step p r Let_def sl_def [symmetric] t1_def [symmetric] t2_def [symmetric])
      then show ?thesis by (simp add: left_def)
    qed
  qed
  from this [of "now (mgHost m) (fst w) + limit" "isLeader (mgHost m) (fst w)" "now (mgHost m) (fst w)" w]
  show ?thesis by (simp add: awaitCertificate_def Let_def)
qed

text \<open>A manager whose pauses are counted in the node's reports.\<close>

definition countingManager :: "fs Manager" where
  "countingManager =
     (sampleManager grants)\<lparr>mgPause := (\<lambda>d (s, n). (True, s, n\<lparr>ndServedReports := ([], 0) # ndServedReports n\<rparr>))\<rparr>"

lemma refresh_reports: "ndServedReports (snd (snd (ccRefresh c d w))) = ndServedReports (snd w)"
proof -
  obtain s n where w: "w = (s, n)" by fastforce
  obtain r s' n' where f: "ccRefresh c d (s, n) = (r, s', n')" by (metis prod.collapse)
  then have "ndServedReports n' = ndServedReports n"
    by (cases rule: ccRefresh_cases) (auto simp: confirmed_def ccSet_def Let_def split: option.splits)
  with f w show ?thesis by simp
qed

theorem await_polls_bounded_witness:
  "length (ndServedReports (snd (snd (awaitCertificate countingManager ''a'' (3 * Second) (keyedDisk, sampleNode))))) \<le> 3"
proof -
  have "length (ndServedReports sampleNode) = 0" by code_simp
  moreover have "nat ((3 * Second + Second - 1) div Second) = 3" by (simp add: Second_def)
  ultimately show ?thesis
    using await_polls_bounded [of "\<lambda>w. length (ndServedReports (snd w))" countingManager "''a''" "3 * Second" "(keyedDisk, sampleNode)"]
    by (simp add: refresh_reports countingManager_def split: prod.splits)
qed

end
