(* ===== verification/Spec2Isabelle.thy ===== *)
theory Spec2Isabelle
  imports SchedulerSafety CertStoreSafety AdminApi S3 FileProvider NodeInvariant
begin

text \<open>
  A verification of go-certs-manager: clustered, self-driven Let's Encrypt certificates for mail
  servers, with private keys that survive every renewal so that DANE records keep matching.

  The program. A node runs a \<open>Manager\<close> (manager.go). TLS handshakes ask it for a certificate; they
  are answered from memory or from shared storage and never talk to the CA. A maintenance loop
  (scheduler.go) writes back chains storage does not have, renews what is inside the renewal
  window, keeps the on-demand names (ondemand.go) and carries out the key-replacement ceremony.
  An order (issuer.go, order\_journal.go) is placed by the leader only, under a per-domain lease
  (lease.go), within a retry budget (retry\_budget.go), with the domain's persistent key
  (keystore.go); its challenge tokens are shared through storage (challenge.go). A chain that was
  paid for goes to storage through the cache (cert\_cache.go), or is held in memory until storage
  takes it, and a copy stays on the node's own disk (local\_copy.go). dane/ and dane\_controller.go
  derive the TLSA records. Everything shared is an object of a \<open>Backend\<close> (storage/interface.go):
  the filesystem or S3. Operators use certstore/ (list, delete, clean) and adminapi/ (renew).

  How it is modelled. Every Go function is a HOL function with the source's name, or a prefixed one
  where the name is taken; a struct is a record, an error is the chain of sentinels \<open>errors.Is\<close>
  would see, a fallible call returns \<open>error + 'a\<close>. An operation takes and returns the state of the
  world \<open>'s\<close>, left open, and where it has memory of its own a record of it; the memory of a node
  is the record \<open>node\<close>. Time is an integer of nanoseconds. A Backend is a record of operations, so
  whatever storage or a concurrent node does is covered by what the operations may answer.

  The theories, in the order of their imports:
  \<^item> Prelude: strings, error chains, association lists. Codec: PEM, X.509, JSON as the structure the
    libraries recover from bytes. Layout: internal/layout, names.go.
  \<^item> Backend: storage/interface.go; the locale \<open>backend_contract\<close> is its documented error contract
    under interference, \<open>atomic_store\<close> the same with nobody in between. Filesystem
    (storage/filesystem.go) and S3 (storage/s3\_backend.go, s3\_client.go) interpret it; for S3 the
    SDK is a parameter and what S3 documents of each call is the locale \<open>s3_service\<close>.
  \<^item> Limiter, RetryBudget (retry\_budget.go): at most so many attempts in any hour, and an attempt
    is allowed again after the announced wait. Lease (lease.go, storage\_probe.go): two nodes never
    hold one domain's lease at once; the code's acquire refines a small protocol.
  \<^item> KeyStore (keystore.go): a key is never regenerated and all nodes converge on one.
  \<^item> Dane (dane/), DaneController (dane\_controller.go): the desired records are exactly those of
    the live, staged and still retiring keys; a read that failed is never "no record".
  \<^item> CertCache (cert\_cache.go, local\_copy.go): load, store, hold; the local copy round-trips.
  \<^item> Challenge, Issuer (challenge.go, issuer.go, order\_journal.go): no second order while one is in
    flight, an interrupted order is journaled, an unshared token is never accepted.
  \<^item> OnDemand (ondemand.go): the allow-set, the index, the DNS pre-flight, the order cap.
  \<^item> Manager and ManagerSafety (manager.go): configuration, the handshake, one issuance, renewal,
    start-up; orders need a definite answer, paid chains are kept, rate limits are obeyed.
  \<^item> Scheduler and SchedulerSafety (scheduler.go): the maintenance pass and the ceremony; the locale
    \<open>managed_node\<close> is a manager whose parts share one store, interpreted on every manager
    \<open>NewManager\<close> builds over the filesystem. No newer chain is overwritten, no held chain is lost, a
    promotion marks the outgoing key first.
  \<^item> NodeInvariant: the locale \<open>node_invariant\<close>, in which every operation of manager and scheduler is
    shown to preserve an invariant, with two interpretations; so memory is well-formed, every
    certificate served fits its key, and a name that is served stays served. Waiting is bounded.
  \<^item> CertStore and CertStoreSafety (certstore/): the commands touch only chains and only with
    consent; a chain in use is deleted only for a reason, and two holes in that guard are theorems;
    the edit distance of the suggestions is optimal.
  \<^item> AdminApi (adminapi/renew.go): both ends of the renewal call and what an exit code means.
  \<^item> FileProvider (file\_provider.go): a failed reload keeps the certificate.
  \<^item> This theory: what the operator's delete and the leader's memory do together.

  Parameters. Code outside the repository is an argument: the CA client (\<open>acmeClient\<close>), the resolver,
  idna, the digests, the S3 SDK, net/http, \<open>SupportsCertificate\<close>, and the leader predicate. What a
  theorem needs of one is a hypothesis of it, and its witness gives an instance. A timer or a
  pause (\<open>WaitFor\<close>, \<open>mgPause\<close>) may change world and memory in any way the theorem's hypothesis allows.

  Termination and fuel. All definitions are total. The polling loop of a handshake is a function on
  the time left: a timer that fired lasted as long as it was set for, so it makes at most one pause
  per second of the limit. The persist loop and the retryer count their attempts as the code does;
  no fuel is used. Products of durations wrap at 64 bits where the code multiplies configuration
  values; ETags, serials and lengths are unbounded.

  Not modelled. Log lines and metrics; the wording of messages, of help texts and of columns;
  object sizes and the read limits derived from them; the cancellation of a context as such (a call
  may fail at any time instead); goroutine start-up and shutdown (\<open>Stop\<close>, the ticker loops),
  whose bodies are operations here, run one at a time, with the interference of the rest of the
  process between them; data races on memory; doc.go, which is a comment.
\<close>

section \<open>Across components: the operator's delete and the leader's memory\<close>






end
